(* ===== verification/GoBase.thy ===== *)
theory GoBase
  imports Main "HOL-Library.AList" "HOL-Library.List_Lexorder" "HOL-Library.Char_ord"
    "HOL-Library.Multiset"
begin

text \<open>
  The prelude: what every component of the model shares.  Go strings are byte strings
  (\<open>string\<close>, a \<open>char list\<close>); Go maps that the code ranges over are association lists with
  distinct keys, all other maps are partial functions; an operation that can fail and changes
  the server's state is a function from the state to an error or a value and the new state.
  The named theorem collections \<open>op_defs\<close> (operations unfolded in functional proofs) and
  \<open>frame\<close> (what an operation leaves alone) are filled by the component theories.
\<close>

named_theorems op_defs \<open>definitions of the operations, for unfolding\<close>
named_theorems frame \<open>parts of the state that an operation leaves alone\<close>

section \<open>Errors\<close>

text \<open>
  The sentinel errors of \<open>internal/store\<close> and \<open>internal/service\<close>, one constructor each, and the
  anonymous ones (\<open>errors.New\<close>, \<open>fmt.Errorf\<close>) by what they report.  \<open>ErrExternal\<close> is a failure of
  a service that is not under \<open>src/\<close> (database, Redis, MinIO, JWT library) and \<open>ErrPanic\<close> a run-time
  panic, which the HTTP layer recovers from.
\<close>

datatype error =
    ErrConflictNotFound
  | ErrConflictResolved
  | ErrHistoryNotFound
  | ErrObjectNotFound
  | ErrDeviceNotFound
  | ErrRefreshTokenNotFound
  | ErrUploadOrderLost
  | ErrStoreUploadNotFound
  | ErrUploadNotFound
  | ErrNoRows
  | ErrInvalidStrategy
  | ErrNoLocalPayload
  | ErrPayloadRequired
  | ErrInvalidKey
  | ErrDeviceConflict
  | ErrInvalidRefreshToken
  | ErrInvalidToken
  | ErrFileExists
  | ErrUploadNotComplete
  | ErrInvalidPart
  | ErrInvalidSize
  | ErrInvalidDirectUpload
  | ErrUnknownUploadID
  | ErrMissingPart int
  | ErrSizeMismatch int int
  | ErrJSON
  | ErrValidation string
  | ErrExternal string
  | ErrPanic
  | ErrWrap string error

text \<open>\<open>errors.Is\<close>: the error itself or one that it wraps with \<open>%w\<close>.\<close>

fun errors_Is :: "error \<Rightarrow> error \<Rightarrow> bool" where
  "errors_Is (ErrWrap m e) t = (ErrWrap m e = t \<or> errors_Is e t)"
| "errors_Is e t = (e = t)"

section \<open>Operations that fail and change state\<close>

type_synonym ('s, 'a) op = "'s \<Rightarrow> (error + 'a) \<times> 's"

definition ret :: "'a \<Rightarrow> ('s, 'a) op" where
  "ret a = (\<lambda>s. (Inr a, s))"

definition throw :: "error \<Rightarrow> ('s, 'a) op" where
  "throw e = (\<lambda>s. (Inl e, s))"

text \<open>\<open>x, err := m(); if err != nil { return err }; f(x)\<close>: the state changes of \<open>m\<close> stay.\<close>

definition bindE :: "('s, 'a) op \<Rightarrow> ('a \<Rightarrow> ('s, 'b) op) \<Rightarrow> ('s, 'b) op" where
  "bindE m f = (\<lambda>s. case m s of (Inl e, s') \<Rightarrow> (Inl e, s') | (Inr a, s') \<Rightarrow> f a s')"

text \<open>\<open>x, err := m()\<close> with \<open>err\<close> inspected by the caller.\<close>

definition attempt :: "('s, 'a) op \<Rightarrow> ('s, error + 'a) op" where
  "attempt m = (\<lambda>s. let (r, s') = m s in (Inr r, s'))"

text \<open>\<open>return fmt.Errorf("...: %w", err)\<close>.\<close>

definition wrapE :: "string \<Rightarrow> ('s, 'a) op \<Rightarrow> ('s, 'a) op" where
  "wrapE m f = (\<lambda>s. case f s of (Inl e, s') \<Rightarrow> (Inl (ErrWrap m e), s') | (Inr a, s') \<Rightarrow> (Inr a, s'))"

text \<open>An operation on a part of the state, as an operation on the whole.\<close>

definition zoom :: "('s \<Rightarrow> 't) \<Rightarrow> ('t \<Rightarrow> 's \<Rightarrow> 's) \<Rightarrow> ('t, 'a) op \<Rightarrow> ('s, 'a) op" where
  "zoom get put m = (\<lambda>s. let (r, t) = m (get s) in (r, put t s))"

lemma bindE_ret [simp]: "bindE (ret a) f = f a"
  by (simp add: bindE_def ret_def)

lemma bindE_throw [simp]: "bindE (throw e) f = throw e"
  by (simp add: bindE_def throw_def)

lemma bindE_assoc: "bindE (bindE m f) g = bindE m (\<lambda>x. bindE (f x) g)"
  by (auto simp: bindE_def fun_eq_iff split: prod.splits sum.splits)

lemma ret_apply [simp]: "ret a s = (Inr a, s)"
  by (simp add: ret_def)

lemma throw_apply [simp]: "throw e s = (Inl e, s)"
  by (simp add: throw_def)

lemma bindE_Inr [simp]: "m s = (Inr a, s') \<Longrightarrow> bindE m f s = f a s'"
  by (simp add: bindE_def)

lemma bindE_Inl [simp]: "m s = (Inl e, s') \<Longrightarrow> bindE m f s = (Inl e, s')"
  by (simp add: bindE_def)

lemma bindE_eq_Inr_iff:
  "bindE m f s = (Inr b, t) \<longleftrightarrow> (\<exists>a s'. m s = (Inr a, s') \<and> f a s' = (Inr b, t))"
  by (auto simp: bindE_def split: prod.splits sum.splits)

lemma bindE_eq_Inl_iff:
  "bindE m f s = (Inl e, t) \<longleftrightarrow>
     m s = (Inl e, t) \<or> (\<exists>a s'. m s = (Inr a, s') \<and> f a s' = (Inl e, t))"
  by (auto simp: bindE_def split: prod.splits sum.splits)

lemma attempt_apply: "attempt m s = (Inr (fst (m s)), snd (m s))"
  by (simp add: attempt_def case_prod_beta)

lemma wrapE_eq_Inr_iff [simp]: "wrapE w m s = (Inr a, t) \<longleftrightarrow> m s = (Inr a, t)"
  by (auto simp: wrapE_def split: prod.splits sum.splits)

lemma wrapE_Inr: "m s = (Inr a, t) \<Longrightarrow> wrapE w m s = (Inr a, t)"
  by simp

lemma wrapE_snd [simp]: "snd (wrapE w m s) = snd (m s)"
  by (auto simp: wrapE_def split: prod.splits sum.splits)

lemma zoom_apply: "zoom get put m s = (fst (m (get s)), put (snd (m (get s))) s)"
  by (simp add: zoom_def case_prod_beta)

text \<open>
  A predicate that an operation keeps, whether it returns or fails: the form in which every
  state invariant of the model is stated and composed.
\<close>

definition keeps :: "('s \<Rightarrow> bool) \<Rightarrow> ('s, 'a) op \<Rightarrow> bool" where
  "keeps I m \<longleftrightarrow> (\<forall>s. I s \<longrightarrow> I (snd (m s)))"

lemma keepsI [intro?]: "(\<And>s. I s \<Longrightarrow> I (snd (m s))) \<Longrightarrow> keeps I m"
  by (simp add: keeps_def)

lemma keepsD: "keeps I m \<Longrightarrow> I s \<Longrightarrow> I (snd (m s))"
  by (simp add: keeps_def)

lemma keeps_ret [simp, intro]: "keeps I (ret a)"
  by (simp add: keeps_def)

lemma keeps_throw [simp, intro]: "keeps I (throw e)"
  by (simp add: keeps_def)

lemma keeps_bindE [intro]: "keeps I m \<Longrightarrow> (\<And>a. keeps I (f a)) \<Longrightarrow> keeps I (bindE m f)"
  unfolding keeps_def bindE_def
  by (fastforce split: prod.splits sum.splits)

lemma keeps_attempt [intro]: "keeps I m \<Longrightarrow> keeps I (attempt m)"
  by (simp add: keeps_def attempt_apply)

lemma keeps_wrapE [intro]: "keeps I m \<Longrightarrow> keeps I (wrapE w m)"
  by (simp add: keeps_def)

lemma keeps_if [intro]: "keeps I m \<Longrightarrow> keeps I n \<Longrightarrow> keeps I (if b then m else n)"
  by simp

section \<open>Go maps that are ranged over\<close>

text \<open>
  Go leaves the order in which \<open>range\<close> visits a map unspecified, and it may differ from one loop to
  the next.  The order is a parameter \<open>iter\<close> of every operation that ranges over a map: any
  function that permutes the keys it is given.
\<close>

type_synonym iteration = "string list \<Rightarrow> string list"

definition range_order :: "iteration \<Rightarrow> bool" where
  "range_order iter \<longleftrightarrow> (\<forall>ks. mset (iter ks) = mset ks)"

lemma range_order_id: "range_order id" and range_order_rev: "range_order rev"
  by (simp_all add: range_order_def)

lemma range_order_set: "range_order iter \<Longrightarrow> set (iter ks) = set ks"
  by (metis range_order_def set_mset_mset)

lemma range_order_distinct: "range_order iter \<Longrightarrow> distinct (iter ks) = distinct ks"
  by (metis range_order_def mset_eq_imp_distinct_iff)

lemma range_order_length: "range_order iter \<Longrightarrow> length (iter ks) = length ks"
  by (metis range_order_def size_mset)

abbreviation keys :: "('k \<times> 'v) list \<Rightarrow> 'k list" where
  "keys m \<equiv> map fst m"

lemma map_of_update [simp]: "map_of (AList.update k v m) = (map_of m)(k \<mapsto> v)"
  by (simp add: update_conv')

lemma distinct_keys_update: "distinct (keys m) \<Longrightarrow> distinct (keys (AList.update k v m))"
  by (rule distinct_update)

lemma keys_update_old: "k \<in> set (keys m) \<Longrightarrow> keys (AList.update k v m) = keys m"
  by (induction m) auto

lemma keys_update_new: "k \<notin> set (keys m) \<Longrightarrow> keys (AList.update k v m) = keys m @ [k]"
  by (induction m) auto

lemma map_of_Some_key: "map_of m k = Some v \<Longrightarrow> k \<in> set (keys m)"
  by (force dest: map_of_SomeD)

lemma map_of_None_key: "map_of m k = None \<longleftrightarrow> k \<notin> set (keys m)"
  by (simp add: map_of_eq_None_iff)

lemma option_eqI: "(\<And>v. x = Some v \<longleftrightarrow> y = Some v) \<Longrightarrow> x = y"
  by (cases x; cases y) auto

section \<open>Identifiers that count up\<close>

text \<open>The identifiers \<open>1 .. n\<close>, as the in-memory stores hand them out.\<close>

definition upto_ids :: "nat \<Rightarrow> int list" where
  "upto_ids n = map int [1..<Suc n]"

lemma upto_ids_0 [simp]: "upto_ids 0 = []"
  by (simp add: upto_ids_def)

lemma upto_ids_Suc: "upto_ids (Suc n) = upto_ids n @ [int n + 1]"
  by (simp add: upto_ids_def)

lemma length_upto_ids [simp]: "length (upto_ids n) = n"
  by (simp add: upto_ids_def)

lemma in_upto_ids [simp]: "i \<in> set (upto_ids n) \<longleftrightarrow> 1 \<le> i \<and> i \<le> int n"
  by (auto simp: upto_ids_def image_iff Bex_def intro!: exI [where x = "nat i"])

lemma nth_upto_ids: "k < n \<Longrightarrow> upto_ids n ! k = int k + 1"
  by (simp add: upto_ids_def del: upt_Suc)

lemma sorted_upto_ids: "sorted_wrt (<) (upto_ids n)"
  by (induction n) (auto simp: upto_ids_Suc sorted_wrt_append)

lemma distinct_upto_ids: "distinct (upto_ids n)"
  using sorted_upto_ids strict_sorted_iff by blast

section \<open>Decimal numbers\<close>

definition digit :: "nat \<Rightarrow> char" where
  "digit d = char_of (48 + d)"

fun itoa_nat :: "nat \<Rightarrow> string" where
  "itoa_nat n = (if n < 10 then [digit n] else itoa_nat (n div 10) @ [digit (n mod 10)])"

declare itoa_nat.simps [simp del]

text \<open>\<open>strconv.Itoa\<close> and the verb \<open>%d\<close>.\<close>

definition itoa :: "int \<Rightarrow> string" where
  "itoa i = (if i < 0 then ''-'' @ itoa_nat (nat (- i)) else itoa_nat (nat i))"

lemma of_char_digit: "d < 10 \<Longrightarrow> (of_char (digit d) :: nat) = 48 + d"
  by (simp add: digit_def)

lemma digit_inj: "d < 10 \<Longrightarrow> e < 10 \<Longrightarrow> digit d = digit e \<longleftrightarrow> d = e"
  by (metis of_char_digit add_left_cancel)

lemma itoa_nat_chars: "c \<in> set (itoa_nat n) \<Longrightarrow> \<exists>d<10. c = digit d"
proof (induction n rule: itoa_nat.induct)
  case (1 n)
  show ?case
  proof (cases "n < 10")
    case True
    with "1.prems" show ?thesis by (auto simp: itoa_nat.simps [of n])
  next
    case False
    with "1.prems" have "c \<in> set (itoa_nat (n div 10)) \<or> c = digit (n mod 10)"
      by (auto simp: itoa_nat.simps [of n])
    moreover have "n mod 10 < 10" by simp
    ultimately show ?thesis using "1.IH" [OF False] by blast
  qed
qed

lemma itoa_nat_nonempty [simp]: "itoa_nat n \<noteq> []"
  by (subst itoa_nat.simps) simp

lemma digit_neq: "d < 10 \<Longrightarrow> of_char c < (48::nat) \<or> 57 < (of_char c :: nat) \<Longrightarrow> digit d \<noteq> c"
  using of_char_digit [of d] by auto

lemma itoa_nat_no_separator:
  "of_char c < (48::nat) \<or> 57 < (of_char c :: nat) \<Longrightarrow> c \<notin> set (itoa_nat n)"
  by (auto dest!: itoa_nat_chars dest: digit_neq)

lemma itoa_nat_inj: "itoa_nat m = itoa_nat n \<Longrightarrow> m = n"
proof (induction m arbitrary: n rule: itoa_nat.induct)
  case (1 m)
  show ?case
  proof (cases "m < 10")
    case True
    show ?thesis
    proof (cases "n < 10")
      case True
      with \<open>m < 10\<close> "1.prems" show ?thesis
        by (simp add: itoa_nat.simps [of m] itoa_nat.simps [of n] digit_inj)
    next
      case False
      with \<open>m < 10\<close> "1.prems" show ?thesis
        by (simp add: itoa_nat.simps [of m] itoa_nat.simps [of n] Cons_eq_append_conv)
    qed
  next
    case False
    show ?thesis
    proof (cases "n < 10")
      case True
      with False "1.prems" show ?thesis
        by (simp add: itoa_nat.simps [of m] itoa_nat.simps [of n] append_eq_Cons_conv)
    next
      case nlarge: False
      from False nlarge "1.prems"
      have "itoa_nat (m div 10) = itoa_nat (n div 10)" and "digit (m mod 10) = digit (n mod 10)"
        by (simp_all add: itoa_nat.simps [of m] itoa_nat.simps [of n])
      with "1.IH" [OF False] have "m div 10 = n div 10" and "m mod 10 = n mod 10"
        by (simp_all add: digit_inj)
      then show ?thesis by (metis div_mult_mod_eq)
    qed
  qed
qed

end
