(* ===== verification/Json.thy ===== *)
theory Json
  imports GoBase
begin

text \<open>
  What the code uses of Go's \<open>encoding/json\<close>.  A \<open>json.RawMessage\<close> is kept as the document it spells:
  \<open>None\<close> is the empty message (a missing field), \<open>Some JNull\<close> the message \<open>null\<close>.  Every message that
  reaches the code was checked to be well-formed JSON when the request was bound, or was produced by
  \<open>json.Marshal\<close>, so the text is not modelled below the level of the document; an integer literal is
  \<open>JInt\<close>, a literal with a fraction or an exponent is \<open>JDec\<close> with its text.

  Decoding follows the library: it writes over a destination that already has a value, a member
  that fits no field is skipped, \<open>null\<close> leaves a scalar as it is, member names match without regard
  to case, and a type mismatch is remembered as the error of the whole call while the rest of the
  document is still decoded.  A decoder takes the old value and a document and gives the new value
  and whether no mismatch occurred.
\<close>

datatype json =
    JNull
  | JBool bool
  | JInt int
  | JDec string
  | JStr string
  | JArr "json list"
  | JObj "(string \<times> json) list"

type_synonym raw = "json option"

type_synonym 'a decoder = "'a \<Rightarrow> json \<Rightarrow> 'a \<times> bool"

section \<open>Member names\<close>

text \<open>
  Names are compared after folding: ASCII letters to upper case, and the two non-ASCII letters that can
  match a letter of a field name, the long s (\<open>C5 BF\<close>) to \<open>S\<close> and the Kelvin sign (\<open>E2 84 AA\<close>) to \<open>K\<close>.
\<close>

definition fold_char :: "char \<Rightarrow> char" where
  "fold_char c =
     (if 97 \<le> (of_char c :: nat) \<and> (of_char c :: nat) \<le> 122 then char_of ((of_char c :: nat) - 32) else c)"

function fold_name :: "string \<Rightarrow> string" where
  "fold_name [] = []"
| "fold_name (c # cs) =
     (if c = CHR 0xC5 \<and> take 1 cs = [CHR 0xBF] then CHR ''S'' # fold_name (drop 1 cs)
      else if c = CHR 0xE2 \<and> take 2 cs = [CHR 0x84, CHR 0xAA] then CHR ''K'' # fold_name (drop 2 cs)
      else fold_char c # fold_name cs)"
  by pat_completeness auto
termination by (relation "measure length") simp_all

declare fold_name.simps [simp del]

section \<open>Decoders\<close>

definition dec_string :: "string decoder" where
  "dec_string v j = (case j of JStr s \<Rightarrow> (s, True) | JNull \<Rightarrow> (v, True) | _ \<Rightarrow> (v, False))"

text \<open>Go's \<open>int\<close> (64 bits on the server's platform) and \<open>int64\<close>: out of range is a mismatch.\<close>

definition in_int64 :: "int \<Rightarrow> bool" where
  "in_int64 i \<longleftrightarrow> - (2 ^ 63) \<le> i \<and> i < 2 ^ 63"

definition dec_int64 :: "int decoder" where
  "dec_int64 v j =
     (case j of JInt i \<Rightarrow> if in_int64 i then (i, True) else (v, False)
      | JNull \<Rightarrow> (v, True) | _ \<Rightarrow> (v, False))"

text \<open>A field of type \<open>json.RawMessage\<close> takes any value, \<open>null\<close> included.\<close>

definition dec_raw :: "raw decoder" where
  "dec_raw v j = (Some j, True)"

text \<open>
  The elements of an array are decoded over the elements the slice already has, then over zero
  values; the slice is cut to the array's length.
\<close>

fun dec_elems :: "'a decoder \<Rightarrow> 'a \<Rightarrow> 'a list \<Rightarrow> json list \<Rightarrow> 'a list \<times> bool" where
  "dec_elems d zero old [] = ([], True)"
| "dec_elems d zero old (j # js) =
     (let (v, ok) = d (case old of [] \<Rightarrow> zero | v0 # _ \<Rightarrow> v0) j;
          (vs, oks) = dec_elems d zero (tl old) js
      in (v # vs, ok \<and> oks))"

text \<open>A slice is \<open>None\<close> when it is \<open>nil\<close>: \<open>null\<close> makes it so, an empty array does not.\<close>

definition dec_slice :: "'a decoder \<Rightarrow> 'a \<Rightarrow> 'a list option decoder" where
  "dec_slice d zero v j =
     (case j of
        JArr js \<Rightarrow> (let (vs, ok) = dec_elems d zero (case v of None \<Rightarrow> [] | Some old \<Rightarrow> old) js in (Some vs, ok))
      | JNull \<Rightarrow> (None, True)
      | _ \<Rightarrow> (v, False))"

text \<open>A struct: \<open>field k\<close> is the decoder of the field whose folded name is \<open>k\<close>.\<close>

fun dec_members :: "(string \<Rightarrow> 'a decoder option) \<Rightarrow> 'a \<Rightarrow> (string \<times> json) list \<Rightarrow> 'a \<times> bool" where
  "dec_members field v [] = (v, True)"
| "dec_members field v ((k, j) # ms) =
     (case field (fold_name k) of
        None \<Rightarrow> dec_members field v ms
      | Some d \<Rightarrow> (let (v', ok) = d v j; (v'', oks) = dec_members field v' ms in (v'', ok \<and> oks)))"

definition dec_struct :: "(string \<Rightarrow> 'a decoder option) \<Rightarrow> 'a decoder" where
  "dec_struct field v j =
     (case j of JObj ms \<Rightarrow> dec_members field v ms | JNull \<Rightarrow> (v, True) | _ \<Rightarrow> (v, False))"

text \<open>A field of a struct, from its getter and setter.\<close>

definition dec_field :: "('a \<Rightarrow> 'f) \<Rightarrow> ('f \<Rightarrow> 'a \<Rightarrow> 'a) \<Rightarrow> 'f decoder \<Rightarrow> 'a decoder" where
  "dec_field get put d v j = (let (f, ok) = d (get v) j in (put f v, ok))"

text \<open>
  \<open>json.Unmarshal(raw, &v)\<close>: the value of \<open>v\<close> afterwards and whether the error is \<open>nil\<close>.  The empty
  message is an error that leaves the destination alone.
\<close>

definition json_Unmarshal :: "'a decoder \<Rightarrow> 'a \<Rightarrow> raw \<Rightarrow> 'a \<times> bool" where
  "json_Unmarshal d v r = (case r of None \<Rightarrow> (v, False) | Some j \<Rightarrow> d v j)"

section \<open>Encoders\<close>

definition enc_raw :: "raw \<Rightarrow> json" where
  "enc_raw r = (case r of None \<Rightarrow> JNull | Some j \<Rightarrow> j)"

definition enc_slice :: "('a \<Rightarrow> json) \<Rightarrow> 'a list option \<Rightarrow> json" where
  "enc_slice e v = (case v of None \<Rightarrow> JNull | Some xs \<Rightarrow> JArr (map e xs))"

section \<open>Round trips\<close>

text \<open>A decoder reads back what an encoder wrote, over the zero value.\<close>

definition reads_back :: "('a \<Rightarrow> bool) \<Rightarrow> 'a decoder \<Rightarrow> 'a \<Rightarrow> ('a \<Rightarrow> json) \<Rightarrow> bool" where
  "reads_back P d zero e \<longleftrightarrow> (\<forall>x. P x \<longrightarrow> d zero (e x) = (x, True))"

lemma dec_elems_enc:
  "reads_back P d zero e \<Longrightarrow> \<forall>x\<in>set xs. P x \<Longrightarrow> dec_elems d zero [] (map e xs) = (xs, True)"
  by (induction xs) (auto simp: reads_back_def)

lemma reads_back_slice:
  assumes "reads_back P d zero e"
  shows "reads_back (\<lambda>v. \<forall>xs. v = Some xs \<longrightarrow> (\<forall>x\<in>set xs. P x)) (dec_slice d zero) None (enc_slice e)"
  using dec_elems_enc [OF assms]
  by (auto simp: reads_back_def dec_slice_def enc_slice_def split: option.splits)

lemma dec_struct_JObj [simp]: "dec_struct field v (JObj ms) = dec_members field v ms"
  by (simp add: dec_struct_def)

lemma dec_members_hit:
  "field (fold_name k) = Some d \<Longrightarrow> d v j = (v', True) \<Longrightarrow>
     dec_members field v ((k, j) # ms) = dec_members field v' ms"
  by (simp add: case_prod_beta)

lemma dec_field_eq: "d (get v) j = (f, ok) \<Longrightarrow> dec_field get put d v j = (put f v, ok)"
  by (simp add: dec_field_def)

lemma dec_string_JStr [simp]: "dec_string v (JStr s) = (s, True)"
  by (simp add: dec_string_def)

lemma dec_int64_JInt [simp]: "in_int64 i \<Longrightarrow> dec_int64 v (JInt i) = (i, True)"
  by (simp add: dec_int64_def)

lemma in_int64_0 [simp]: "in_int64 0" and in_int64_1 [simp]: "in_int64 1"
  by (simp_all add: in_int64_def)

end
