(* ===== verification/SyncModel.thy ===== *)
theory SyncModel
  imports Json
begin

text \<open>
  The data of \<open>internal/model\<close> (\<open>sync.go\<close>, \<open>conflict.go\<close>) and of \<open>internal/store\<close> that travels between the
  stores and the services, with the JSON codecs of book payloads and library snapshots.  A
  \<open>time.Time\<close> is the number \<open>time\<close>; the clock is a parameter: \<open>clk (EventStamp i)\<close> is the reading taken
  when the record with identifier \<open>i\<close> is made.
\<close>

type_synonym time = int

datatype stamp = EventStamp int | ConflictStamp int | HistoryStamp int

type_synonym clock = "stamp \<Rightarrow> time"

section \<open>Constants\<close>

definition OpUpsert :: string where "OpUpsert = ''upsert''"
definition OpDelete :: string where "OpDelete = ''delete''"
definition OpProgress :: string where "OpProgress = ''progress''"
definition EntityBook :: string where "EntityBook = ''book''"
definition SyncSourceManual :: string where "SyncSourceManual = ''manual''"
definition SyncSourceAuto :: string where "SyncSourceAuto = ''auto''"
definition OpRestore :: string where "OpRestore = ''restore''"
definition TagManual :: string where "TagManual = ''manual''"
definition ReasonConflict :: string where "ReasonConflict = ''conflict''"
definition ReasonDuplicate :: string where "ReasonDuplicate = ''duplicate''"
definition ReasonFilesIncomplete :: string where "ReasonFilesIncomplete = ''files_incomplete''"
definition StrategyKeepLocal :: string where "StrategyKeepLocal = ''keep_local''"
definition StrategyKeepServer :: string where "StrategyKeepServer = ''keep_server''"
definition StrategyManual :: string where "StrategyManual = ''manual''"
definition ConflictOpen :: string where "ConflictOpen = ''open''"
definition ConflictResolved :: string where "ConflictResolved = ''resolved''"
definition StatusDone :: string where "StatusDone = ''done''"
definition StatusConflict :: string where "StatusConflict = ''conflict''"
definition StatusFailed :: string where "StatusFailed = ''failed''"

lemmas const_defs = OpUpsert_def OpDelete_def OpProgress_def EntityBook_def SyncSourceManual_def
  SyncSourceAuto_def OpRestore_def TagManual_def ReasonConflict_def ReasonDuplicate_def
  ReasonFilesIncomplete_def StrategyKeepLocal_def StrategyKeepServer_def StrategyManual_def
  ConflictOpen_def ConflictResolved_def StatusDone_def StatusConflict_def StatusFailed_def

lemma const_distinct [simp]:
  "OpUpsert \<noteq> OpDelete" "OpDelete \<noteq> OpUpsert" "OpProgress \<noteq> OpDelete" "OpDelete \<noteq> OpProgress"
  "OpUpsert \<noteq> OpProgress" "OpProgress \<noteq> OpUpsert"
  "ConflictOpen \<noteq> ConflictResolved" "ConflictResolved \<noteq> ConflictOpen"
  "StatusDone \<noteq> StatusConflict" "StatusConflict \<noteq> StatusDone"
  "StatusFailed \<noteq> StatusConflict" "StatusConflict \<noteq> StatusFailed"
  "StatusDone \<noteq> StatusFailed" "StatusFailed \<noteq> StatusDone"
  "ReasonDuplicate \<noteq> ReasonConflict" "ReasonConflict \<noteq> ReasonDuplicate"
  "ReasonFilesIncomplete \<noteq> ReasonConflict" "ReasonConflict \<noteq> ReasonFilesIncomplete"
  "ReasonFilesIncomplete \<noteq> ReasonDuplicate" "ReasonDuplicate \<noteq> ReasonFilesIncomplete"
  "ReasonConflict \<noteq> []" "ReasonDuplicate \<noteq> []" "ReasonFilesIncomplete \<noteq> []"
  "StrategyKeepLocal \<noteq> StrategyKeepServer" "StrategyKeepServer \<noteq> StrategyKeepLocal"
  "StrategyKeepLocal \<noteq> StrategyManual" "StrategyManual \<noteq> StrategyKeepLocal"
  "StrategyManual \<noteq> StrategyKeepServer" "StrategyKeepServer \<noteq> StrategyManual"
  by (simp_all add: const_defs)

section \<open>Changes, outcomes, events, conflicts, archives\<close>

record change =
  c_ChangeID :: string
  c_EntityType :: string
  c_EntityID :: string
  c_Op :: string
  c_BaseRevision :: int
  c_Payload :: raw

record change_outcome =
  oc_Accepted :: bool
  oc_Revision :: int
  oc_EventID :: int
  oc_Reason :: string
  oc_ConflictID :: int

text \<open>A composite literal names some fields, the others are zero.\<close>

definition no_outcome :: change_outcome where
  "no_outcome = \<lparr>oc_Accepted = False, oc_Revision = 0, oc_EventID = 0, oc_Reason = [], oc_ConflictID = 0\<rparr>"

record change_result =
  cr_EntityType :: string
  cr_EntityID :: string
  cr_Accepted :: bool
  cr_Revision :: int
  cr_EventID :: int
  cr_Reason :: string
  cr_ConflictID :: int

record sync_event =
  ev_ID :: int
  ev_EntityType :: string
  ev_EntityID :: string
  ev_Op :: string
  ev_Revision :: int
  ev_Payload :: raw
  ev_DeviceID :: string
  ev_CreatedAt :: time

record pull_result =
  pr_Cursor :: int
  pr_HasMore :: bool
  pr_Events :: "sync_event list"

record sync_status =
  st_Cursor :: int
  st_PendingCount :: int
  st_ConflictCount :: int
  st_FailedCount :: int

record conflict =
  cf_ID :: int
  cf_EntityType :: string
  cf_EntityID :: string
  cf_LocalPayload :: raw
  cf_ServerPayload :: raw
  cf_ServerRevision :: int
  cf_Status :: string
  cf_CreatedAt :: time

record resolve_request =
  rq_Strategy :: string
  rq_Payload :: raw

record book_history =
  bh_ID :: int
  bh_OpType :: string
  bh_Tag :: string
  bh_Payload :: raw
  bh_CreatedAt :: time

record restore_result =
  rr_Restored :: int
  rr_Revision :: int

section \<open>Book payloads and snapshots\<close>

record book_file_meta =
  fm_RelPath :: string
  fm_Hash :: string
  fm_Size :: int

record book_payload =
  bp_Name :: string
  bp_CurrentPage :: int
  bp_CoverHash :: string
  bp_Files :: "book_file_meta list option"

record book_snapshot_item =
  it_UUID :: string
  it_Name :: string
  it_CurrentPage :: int
  it_CoverHash :: string
  it_Files :: raw
  it_Revision :: int

definition zero_file :: book_file_meta where
  "zero_file = \<lparr>fm_RelPath = [], fm_Hash = [], fm_Size = 0\<rparr>"

definition zero_payload :: book_payload where
  "zero_payload = \<lparr>bp_Name = [], bp_CurrentPage = 0, bp_CoverHash = [], bp_Files = None\<rparr>"

definition zero_item :: book_snapshot_item where
  "zero_item = \<lparr>it_UUID = [], it_Name = [], it_CurrentPage = 0, it_CoverHash = [], it_Files = None,
     it_Revision = 0\<rparr>"

definition dec_file :: "book_file_meta decoder" where
  "dec_file = dec_struct (\<lambda>k.
     if k = ''REL_PATH'' then Some (dec_field fm_RelPath (\<lambda>x. fm_RelPath_update (\<lambda>_. x)) dec_string)
     else if k = ''HASH'' then Some (dec_field fm_Hash (\<lambda>x. fm_Hash_update (\<lambda>_. x)) dec_string)
     else if k = ''SIZE'' then Some (dec_field fm_Size (\<lambda>x. fm_Size_update (\<lambda>_. x)) dec_int64)
     else None)"

definition dec_payload :: "book_payload decoder" where
  "dec_payload = dec_struct (\<lambda>k.
     if k = ''NAME'' then Some (dec_field bp_Name (\<lambda>x. bp_Name_update (\<lambda>_. x)) dec_string)
     else if k = ''CURRENT_PAGE'' then
       Some (dec_field bp_CurrentPage (\<lambda>x. bp_CurrentPage_update (\<lambda>_. x)) dec_int64)
     else if k = ''COVER_HASH'' then
       Some (dec_field bp_CoverHash (\<lambda>x. bp_CoverHash_update (\<lambda>_. x)) dec_string)
     else if k = ''FILES'' then
       Some (dec_field bp_Files (\<lambda>x. bp_Files_update (\<lambda>_. x)) (dec_slice dec_file zero_file))
     else None)"

definition dec_item :: "book_snapshot_item decoder" where
  "dec_item = dec_struct (\<lambda>k.
     if k = ''UUID'' then Some (dec_field it_UUID (\<lambda>x. it_UUID_update (\<lambda>_. x)) dec_string)
     else if k = ''NAME'' then Some (dec_field it_Name (\<lambda>x. it_Name_update (\<lambda>_. x)) dec_string)
     else if k = ''CURRENT_PAGE'' then
       Some (dec_field it_CurrentPage (\<lambda>x. it_CurrentPage_update (\<lambda>_. x)) dec_int64)
     else if k = ''COVER_HASH'' then
       Some (dec_field it_CoverHash (\<lambda>x. it_CoverHash_update (\<lambda>_. x)) dec_string)
     else if k = ''FILES'' then Some (dec_field it_Files (\<lambda>x. it_Files_update (\<lambda>_. x)) dec_raw)
     else if k = ''REVISION'' then
       Some (dec_field it_Revision (\<lambda>x. it_Revision_update (\<lambda>_. x)) dec_int64)
     else None)"

definition dec_files :: "book_file_meta list option decoder" where
  "dec_files = dec_slice dec_file zero_file"

definition dec_items :: "book_snapshot_item list option decoder" where
  "dec_items = dec_slice dec_item zero_item"

definition enc_file :: "book_file_meta \<Rightarrow> json" where
  "enc_file f = JObj [(''rel_path'', JStr (fm_RelPath f)), (''hash'', JStr (fm_Hash f)),
     (''size'', JInt (fm_Size f))]"

definition enc_files :: "book_file_meta list option \<Rightarrow> json" where
  "enc_files = enc_slice enc_file"

definition enc_payload :: "book_payload \<Rightarrow> json" where
  "enc_payload p = JObj [(''name'', JStr (bp_Name p)), (''current_page'', JInt (bp_CurrentPage p)),
     (''cover_hash'', JStr (bp_CoverHash p)), (''files'', enc_files (bp_Files p))]"

definition enc_item :: "book_snapshot_item \<Rightarrow> json" where
  "enc_item i = JObj [(''uuid'', JStr (it_UUID i)), (''name'', JStr (it_Name i)),
     (''current_page'', JInt (it_CurrentPage i)), (''cover_hash'', JStr (it_CoverHash i)),
     (''files'', enc_raw (it_Files i)), (''revision'', JInt (it_Revision i))]"

text \<open>A slice variable that is \<open>nil\<close> ranges over nothing.\<close>

definition slice_list :: "'a list option \<Rightarrow> 'a list" where
  "slice_list v = (case v of None \<Rightarrow> [] | Some xs \<Rightarrow> xs)"

lemma slice_list_simps [simp]: "slice_list None = []" "slice_list (Some xs) = xs"
  by (simp_all add: slice_list_def)

text \<open>\<open>nilOrString\<close>: the empty string is sent as \<open>null\<close>.\<close>

definition nilOrString :: "string \<Rightarrow> json" where
  "nilOrString s = (if s = [] then JNull else JStr s)"

text \<open>
  \<open>snapshotItemPayload\<close>: a snapshot's book as a payload; \<open>json.Marshal\<close> of a map writes its keys in
  order.
\<close>

definition snapshotItemPayload :: "book_snapshot_item \<Rightarrow> raw" where
  "snapshotItemPayload item =
     (let files = (if it_Files item = None \<or> it_Files item = Some JNull then Some (JArr []) else it_Files item)
      in Some (JObj [(''cover_hash'', nilOrString (it_CoverHash item)),
                     (''current_page'', JInt (it_CurrentPage item)),
                     (''files'', enc_raw files),
                     (''name'', JStr (it_Name item))]))"

text \<open>
  \<open>parseBookPayload\<close>: what a book's payload says, the zero value where it does not decode; and the
  part of it that a snapshot keeps (a missing list of files becomes the empty one).
\<close>

definition parseBookPayload :: "raw \<Rightarrow> book_payload" where
  "parseBookPayload payload =
     (if payload \<noteq> None \<and> payload \<noteq> Some JNull then fst (json_Unmarshal dec_payload zero_payload payload)
      else zero_payload)"

definition book_content :: "raw \<Rightarrow> book_payload" where
  "book_content r = (let p = parseBookPayload r in p\<lparr>bp_Files := Some (slice_list (bp_Files p))\<rparr>)"

section \<open>Round trips\<close>

lemma fold_field_names [simp]:
  "fold_name ''rel_path'' = ''REL_PATH''" "fold_name ''hash'' = ''HASH''" "fold_name ''size'' = ''SIZE''"
  "fold_name ''name'' = ''NAME''" "fold_name ''current_page'' = ''CURRENT_PAGE''"
  "fold_name ''cover_hash'' = ''COVER_HASH''" "fold_name ''files'' = ''FILES''"
  "fold_name ''uuid'' = ''UUID''" "fold_name ''revision'' = ''REVISION''"
  by code_simp+

definition file_ok :: "book_file_meta \<Rightarrow> bool" where
  "file_ok f \<longleftrightarrow> in_int64 (fm_Size f)"

definition payload_ok :: "book_payload \<Rightarrow> bool" where
  "payload_ok p \<longleftrightarrow> in_int64 (bp_CurrentPage p) \<and> list_all file_ok (slice_list (bp_Files p))"

definition item_ok :: "book_snapshot_item \<Rightarrow> bool" where
  "item_ok i \<longleftrightarrow> in_int64 (it_CurrentPage i) \<and> in_int64 (it_Revision i) \<and> it_Files i \<noteq> None"

lemma reads_back_file: "reads_back file_ok dec_file zero_file enc_file"
  by (simp add: reads_back_def file_ok_def dec_file_def enc_file_def dec_struct_def dec_field_def
      zero_file_def)

lemma dec_files_enc:
  "list_all file_ok (slice_list v) \<Longrightarrow> dec_files None (enc_files v) = (v, True)"
  using reads_back_slice [OF reads_back_file]
  by (cases v) (auto simp: reads_back_def dec_files_def enc_files_def list_all_iff)

lemma dec_payload_enc:
  assumes "payload_ok p"
  shows "dec_payload zero_payload (enc_payload p) = (p, True)"
proof -
  have page: "in_int64 (bp_CurrentPage p)" and files: "list_all file_ok (slice_list (bp_Files p))"
    using assms by (simp_all add: payload_ok_def)
  from dec_files_enc [OF files] show ?thesis
    by (simp add: dec_payload_def enc_payload_def zero_payload_def dec_files_def page
        dec_members_hit dec_field_eq del: dec_members.simps(2))
qed

lemma reads_back_item: "reads_back item_ok dec_item zero_item enc_item"
proof (unfold reads_back_def, intro allI impI)
  fix i
  assume "item_ok i"
  then obtain f where ok: "in_int64 (it_CurrentPage i)" "in_int64 (it_Revision i)" "it_Files i = Some f"
    by (auto simp: item_ok_def)
  then show "dec_item zero_item (enc_item i) = (i, True)"
    by (simp add: dec_item_def enc_item_def zero_item_def dec_members_hit dec_field_eq dec_raw_def
        enc_raw_def del: dec_members.simps(2))
qed

lemma dec_items_enc:
  "list_all item_ok xs \<Longrightarrow> dec_items None (enc_slice enc_item (Some xs)) = (Some xs, True)"
  using reads_back_slice [OF reads_back_item]
  by (simp add: reads_back_def dec_items_def list_all_iff)

end
