(* ===== verification/MemSync.thy ===== *)
theory MemSync
  imports SyncModel
begin

text \<open>
  \<open>MemorySyncStore\<close> (\<open>internal/store/memory_sync_store.go\<close>): the in-memory store behind the
  synchronisation service, which implements the entity, book, history, event, cursor and conflict
  interfaces at once.  Every method holds the store's mutex from its first to its last statement, so
  each is one atomic operation here.  A map the code ranges over (\<open>books\<close>) is an association list;
  identifiers and revisions are \<open>int\<close> (they count up by one from zero).
\<close>

section \<open>State\<close>

record memory_entity =
  en_revision :: int
  en_deleted :: bool
  en_payload :: raw

record memory_book =
  bk_revision :: int
  bk_deleted :: bool
  bk_payload :: raw

record memory_event =
  me_changeID :: string
  me_status :: string
  me_event :: sync_event

record memory_conflict =
  mc_Conflict :: conflict
  mc_baseRevision :: int

record mem_sync =
  ms_entities :: "string \<rightharpoonup> memory_entity"
  ms_books :: "(string \<times> memory_book) list"
  ms_history :: "book_history list"
  ms_nextHistoryID :: int
  ms_events :: "memory_event list"
  ms_changeIDs :: "string \<rightharpoonup> int"
  ms_nextEventID :: int
  ms_cursors :: "string \<rightharpoonup> int"
  ms_conflicts :: "memory_conflict list"
  ms_nextConflictID :: int

definition NewMemorySyncStore :: mem_sync where
  "NewMemorySyncStore = \<lparr>ms_entities = (\<lambda>_. None), ms_books = [], ms_history = [], ms_nextHistoryID = 0,
     ms_events = [], ms_changeIDs = (\<lambda>_. None), ms_nextEventID = 0, ms_cursors = (\<lambda>_. None),
     ms_conflicts = [], ms_nextConflictID = 0\<rparr>"

text \<open>The key of an entity: its type and identifier joined by a bar.\<close>

definition entity_key :: "string \<Rightarrow> string \<Rightarrow> string" where
  "entity_key t i = t @ ''|'' @ i"

section \<open>Events and conflicts\<close>

definition make_event :: "clock \<Rightarrow> change \<Rightarrow> string \<Rightarrow> int \<Rightarrow> sync_event" where
  "make_event clk c deviceID ident =
     \<lparr>ev_ID = ident, ev_EntityType = c_EntityType c, ev_EntityID = c_EntityID c, ev_Op = c_Op c,
      ev_Revision = 0, ev_Payload = c_Payload c, ev_DeviceID = deviceID,
      ev_CreatedAt = clk (EventStamp ident)\<rparr>"

definition appendEventLocked ::
  "clock \<Rightarrow> change \<Rightarrow> string \<Rightarrow> int \<Rightarrow> string \<Rightarrow> mem_sync \<Rightarrow> change_outcome \<times> mem_sync" where
  "appendEventLocked clk c deviceID revision status s =
     (let ident = ms_nextEventID s + 1;
          e = \<lparr>me_changeID = c_ChangeID c, me_status = status, me_event = make_event clk c deviceID ident\<rparr>
      in (no_outcome\<lparr>oc_Accepted := True, oc_Revision := revision, oc_EventID := ident\<rparr>,
          s\<lparr>ms_nextEventID := ident, ms_changeIDs := (ms_changeIDs s)(c_ChangeID c \<mapsto> ident),
            ms_events := ms_events s @ [e]\<rparr>))"

text \<open>
  The two conflict helpers append an event with status \<open>conflict\<close> and then the conflict record, with
  the server's payload read after it.  Both are only called for an entry that exists.
\<close>

definition conflict_record ::
  "clock \<Rightarrow> int \<Rightarrow> change \<Rightarrow> raw \<Rightarrow> int \<Rightarrow> memory_conflict" where
  "conflict_record clk conflictID c serverPayload currentRev =
     \<lparr>mc_Conflict = \<lparr>cf_ID = conflictID, cf_EntityType = c_EntityType c, cf_EntityID = c_EntityID c,
        cf_LocalPayload = c_Payload c, cf_ServerPayload = serverPayload,
        cf_ServerRevision = currentRev, cf_Status = ConflictOpen,
        cf_CreatedAt = clk (ConflictStamp conflictID)\<rparr>,
      mc_baseRevision = c_BaseRevision c\<rparr>"

definition appendConflictLocked ::
  "clock \<Rightarrow> change \<Rightarrow> string \<Rightarrow> int \<Rightarrow> mem_sync \<Rightarrow> change_outcome \<times> mem_sync" where
  "appendConflictLocked clk c deviceID currentRev s =
     (let (eventOutcome, s1) = appendEventLocked clk c deviceID currentRev StatusConflict s;
          conflictID = ms_nextConflictID s1 + 1;
          serverPayload = (case ms_entities s1 (entity_key (c_EntityType c) (c_EntityID c)) of
                             Some e \<Rightarrow> en_payload e | None \<Rightarrow> None)
      in (no_outcome\<lparr>oc_Reason := ReasonConflict, oc_EventID := oc_EventID eventOutcome,
            oc_ConflictID := conflictID\<rparr>,
          s1\<lparr>ms_nextConflictID := conflictID,
            ms_conflicts := ms_conflicts s1 @ [conflict_record clk conflictID c serverPayload currentRev]\<rparr>))"

definition appendBookConflictLocked ::
  "clock \<Rightarrow> change \<Rightarrow> string \<Rightarrow> int \<Rightarrow> mem_sync \<Rightarrow> change_outcome \<times> mem_sync" where
  "appendBookConflictLocked clk c deviceID currentRev s =
     (let (eventOutcome, s1) = appendEventLocked clk c deviceID currentRev StatusConflict s;
          conflictID = ms_nextConflictID s1 + 1;
          serverPayload = (case map_of (ms_books s1) (c_EntityID c) of
                             Some b \<Rightarrow> bk_payload b | None \<Rightarrow> None)
      in (no_outcome\<lparr>oc_Reason := ReasonConflict, oc_EventID := oc_EventID eventOutcome,
            oc_ConflictID := conflictID\<rparr>,
          s1\<lparr>ms_nextConflictID := conflictID,
            ms_conflicts := ms_conflicts s1 @ [conflict_record clk conflictID c serverPayload currentRev]\<rparr>))"

section \<open>Entities\<close>

definition put_entity :: "string \<Rightarrow> memory_entity \<Rightarrow> mem_sync \<Rightarrow> mem_sync" where
  "put_entity key e s = s\<lparr>ms_entities := (ms_entities s)(key \<mapsto> e)\<rparr>"

definition mem_ApplyChange :: "clock \<Rightarrow> change \<Rightarrow> string \<Rightarrow> (mem_sync, change_outcome) op" where
  "mem_ApplyChange clk c deviceID s =
     (if ms_changeIDs s (c_ChangeID c) \<noteq> None
      then (Inr (no_outcome\<lparr>oc_Accepted := True, oc_Reason := ReasonDuplicate\<rparr>), s)
      else let key = entity_key (c_EntityType c) (c_EntityID c) in
        case ms_entities s key of
          None \<Rightarrow>
            (if c_Op c = OpDelete then (Inr (no_outcome\<lparr>oc_Accepted := True\<rparr>), s)
             else if c_BaseRevision c \<noteq> 0 then (Inr (no_outcome\<lparr>oc_Reason := ReasonConflict\<rparr>), s)
             else let s1 = put_entity key \<lparr>en_revision = 1, en_deleted = False, en_payload = c_Payload c\<rparr> s;
                      (out, s2) = appendEventLocked clk c deviceID 1 StatusDone s1
                  in (Inr out, s2))
        | Some ent \<Rightarrow>
            (if c_BaseRevision c \<noteq> en_revision ent
             then let (out, s1) = appendConflictLocked clk c deviceID (en_revision ent) s in (Inr out, s1)
             else let newRev = en_revision ent + 1;
                      ent' = (if c_Op c = OpDelete then ent\<lparr>en_deleted := True\<rparr>
                              else ent\<lparr>en_deleted := False, en_payload := c_Payload c\<rparr>);
                      s1 = put_entity key (ent'\<lparr>en_revision := newRev\<rparr>) s;
                      (out, s2) = appendEventLocked clk c deviceID newRev StatusDone s1
                  in (Inr out, s2)))"

definition mem_ForceUpsert ::
  "clock \<Rightarrow> string \<Rightarrow> string \<Rightarrow> raw \<Rightarrow> string \<Rightarrow> (mem_sync, change_outcome) op" where
  "mem_ForceUpsert clk entityType entityID payload deviceID s =
     (let key = entity_key entityType entityID;
          (newRev, s1) =
            (case ms_entities s key of
               None \<Rightarrow> (1, put_entity key \<lparr>en_revision = 1, en_deleted = False, en_payload = payload\<rparr> s)
             | Some ent \<Rightarrow>
                 (en_revision ent + 1,
                  put_entity key (ent\<lparr>en_revision := en_revision ent + 1, en_deleted := False,
                    en_payload := payload\<rparr>) s));
          c = \<lparr>c_ChangeID = [], c_EntityType = entityType, c_EntityID = entityID, c_Op = OpUpsert,
               c_BaseRevision = 0, c_Payload = payload\<rparr>;
          (out, s2) = appendEventLocked clk c deviceID newRev StatusDone s1
      in (Inr out, s2))"

section \<open>Books\<close>

definition put_book :: "string \<Rightarrow> memory_book \<Rightarrow> mem_sync \<Rightarrow> mem_sync" where
  "put_book uuid b s = s\<lparr>ms_books := AList.update uuid b (ms_books s)\<rparr>"

text \<open>The parameter \<open>source\<close> is not used by the code either.\<close>

definition mem_ApplyBookChange ::
  "clock \<Rightarrow> change \<Rightarrow> string \<Rightarrow> string \<Rightarrow> (mem_sync, change_outcome) op" where
  "mem_ApplyBookChange clk c source deviceID s =
     (if ms_changeIDs s (c_ChangeID c) \<noteq> None
      then (Inr (no_outcome\<lparr>oc_Accepted := True, oc_Reason := ReasonDuplicate\<rparr>), s)
      else
        case map_of (ms_books s) (c_EntityID c) of
          None \<Rightarrow>
            (if c_Op c = OpDelete then (Inr (no_outcome\<lparr>oc_Accepted := True\<rparr>), s)
             else if c_BaseRevision c \<noteq> 0 then (Inr (no_outcome\<lparr>oc_Reason := ReasonConflict\<rparr>), s)
             else let s1 = put_book (c_EntityID c)
                        \<lparr>bk_revision = 1, bk_deleted = False, bk_payload = c_Payload c\<rparr> s;
                      (out, s2) = appendEventLocked clk c deviceID 1 StatusDone s1
                  in (Inr out, s2))
        | Some book \<Rightarrow>
            (if c_BaseRevision c \<noteq> bk_revision book
             then let (out, s1) = appendBookConflictLocked clk c deviceID (bk_revision book) s in (Inr out, s1)
             else let newRev = bk_revision book + 1;
                      book' = (if c_Op c = OpDelete then book\<lparr>bk_deleted := True\<rparr>
                               else book\<lparr>bk_deleted := False, bk_payload := c_Payload c\<rparr>);
                      s1 = put_book (c_EntityID c) (book'\<lparr>bk_revision := newRev\<rparr>) s;
                      (out, s2) = appendEventLocked clk c deviceID newRev StatusDone s1
                  in (Inr out, s2)))"

text \<open>
  The write that \<open>ForceUpsertBook\<close> and \<open>RestoreLibrary\<close> share: a new book at revision 1, or the next
  revision of the one there is.
\<close>

definition overwrite_book :: "string \<Rightarrow> raw \<Rightarrow> mem_sync \<Rightarrow> int \<times> mem_sync" where
  "overwrite_book uuid payload s =
     (case map_of (ms_books s) uuid of
        None \<Rightarrow> (1, put_book uuid \<lparr>bk_revision = 1, bk_deleted = False, bk_payload = payload\<rparr> s)
      | Some book \<Rightarrow>
          (bk_revision book + 1,
           put_book uuid (book\<lparr>bk_revision := bk_revision book + 1, bk_deleted := False,
             bk_payload := payload\<rparr>) s))"

definition book_change :: "string \<Rightarrow> string \<Rightarrow> string \<Rightarrow> raw \<Rightarrow> change" where
  "book_change changeID uuid opn payload =
     \<lparr>c_ChangeID = changeID, c_EntityType = EntityBook, c_EntityID = uuid, c_Op = opn,
      c_BaseRevision = 0, c_Payload = payload\<rparr>"

definition mem_ForceUpsertBook ::
  "clock \<Rightarrow> string \<Rightarrow> raw \<Rightarrow> string \<Rightarrow> (mem_sync, change_outcome) op" where
  "mem_ForceUpsertBook clk entityID payload deviceID s =
     (let (newRev, s1) = overwrite_book entityID payload s;
          c = book_change (''force-'' @ entityID) entityID OpUpsert payload;
          (out, s2) = appendEventLocked clk c deviceID newRev StatusDone s1
      in (Inr out, s2))"

text \<open>
  \<open>RestoreLibrary\<close>.  The first loop writes the books of the snapshot and takes them out of the set of
  books that were live before; the second one deletes what is left, in the order of the range loop.
\<close>

definition live_uuids :: "(string \<times> memory_book) list \<Rightarrow> string list" where
  "live_uuids bs = keys (filter (\<lambda>(_, b). \<not> bk_deleted b) bs)"

definition restore_item :: "clock \<Rightarrow> string \<Rightarrow> book_snapshot_item \<Rightarrow> int \<times> mem_sync \<Rightarrow> int \<times> mem_sync" where
  "restore_item clk deviceID item = (\<lambda>(maxRev, s).
     (let payload = snapshotItemPayload item;
          (newRev, s1) = overwrite_book (it_UUID item) payload s;
          c = book_change (''restore-'' @ it_UUID item) (it_UUID item) OpUpsert payload;
          (_, s2) = appendEventLocked clk c deviceID newRev StatusDone s1
      in (if newRev > maxRev then newRev else maxRev, s2)))"

definition restore_delete :: "clock \<Rightarrow> string \<Rightarrow> string \<Rightarrow> int \<times> mem_sync \<Rightarrow> int \<times> mem_sync" where
  "restore_delete clk deviceID uuid = (\<lambda>(maxRev, s).
     (case map_of (ms_books s) uuid of
        None \<Rightarrow> (maxRev, s)
      | Some book \<Rightarrow>
          (let newRev = bk_revision book + 1;
               s1 = put_book uuid (book\<lparr>bk_revision := newRev, bk_deleted := True\<rparr>) s;
               c = book_change (''restore-del-'' @ uuid) uuid OpDelete None;
               (_, s2) = appendEventLocked clk c deviceID newRev StatusDone s1
           in (if newRev > maxRev then newRev else maxRev, s2))))"

definition mem_RestoreLibrary ::
  "clock \<Rightarrow> iteration \<Rightarrow> raw \<Rightarrow> string \<Rightarrow> (mem_sync, restore_result) op" where
  "mem_RestoreLibrary clk iter snapshot deviceID s =
     (let (items, ok) = json_Unmarshal dec_items None snapshot in
      if \<not> ok then (Inl ErrJSON, s)
      else let its = slice_list items;
               current = live_uuids (ms_books s);
               (maxRev1, s1) = fold (restore_item clk deviceID) its (0, s);
               rest = filter (\<lambda>u. u \<notin> set (map it_UUID its)) current;
               (maxRev2, s2) = fold (restore_delete clk deviceID) (iter rest) (maxRev1, s1)
           in (Inr \<lparr>rr_Restored = int (length its), rr_Revision = maxRev2\<rparr>, s2))"

text \<open>\<open>SnapshotLibrary\<close>: the live books as a JSON array, in the order of the range loop.\<close>

definition snapshot_item :: "string \<Rightarrow> memory_book \<Rightarrow> book_snapshot_item" where
  "snapshot_item uuid book =
     (let p = (if bk_payload book = None then zero_payload
               else fst (json_Unmarshal dec_payload zero_payload (bk_payload book)));
          files = (if bk_payload book = None then Some (JArr []) else Some (enc_files (bp_Files p)))
      in \<lparr>it_UUID = uuid, it_Name = bp_Name p, it_CurrentPage = bp_CurrentPage p,
          it_CoverHash = bp_CoverHash p, it_Files = files, it_Revision = bk_revision book\<rparr>)"

fun snapshot_items :: "(string \<times> memory_book) list \<Rightarrow> string list \<Rightarrow> book_snapshot_item list" where
  "snapshot_items bs [] = []"
| "snapshot_items bs (uuid # uuids) =
     (case map_of bs uuid of
        None \<Rightarrow> snapshot_items bs uuids
      | Some book \<Rightarrow>
          if bk_deleted book then snapshot_items bs uuids
          else snapshot_item uuid book # snapshot_items bs uuids)"

definition mem_SnapshotLibrary :: "iteration \<Rightarrow> (mem_sync, raw) op" where
  "mem_SnapshotLibrary iter s =
     (Inr (Some (enc_slice enc_item (Some (snapshot_items (ms_books s) (iter (keys (ms_books s))))))), s)"

section \<open>History\<close>

definition mem_InsertSnapshot :: "clock \<Rightarrow> string \<Rightarrow> string \<Rightarrow> raw \<Rightarrow> (mem_sync, int) op" where
  "mem_InsertSnapshot clk opType tag snapshot s =
     (let id = ms_nextHistoryID s + 1 in
      (Inr id, s\<lparr>ms_nextHistoryID := id,
         ms_history := ms_history s @ [\<lparr>bh_ID = id, bh_OpType = opType, bh_Tag = tag,
           bh_Payload = snapshot, bh_CreatedAt = clk (HistoryStamp id)\<rparr>]\<rparr>))"

text \<open>The loop runs from the newest record back, so over the reversed list.\<close>

fun history_loop :: "int \<Rightarrow> book_history list \<Rightarrow> book_history list \<Rightarrow> book_history list" where
  "history_loop limit out [] = out"
| "history_loop limit out (h # hs) =
     (if int (length out) < limit then history_loop limit (out @ [h]) hs else out)"

definition mem_ListHistory :: "int \<Rightarrow> (mem_sync, book_history list) op" where
  "mem_ListHistory limit s =
     (let lim = (if limit \<le> 0 then 500 else limit) in (Inr (history_loop lim [] (rev (ms_history s))), s))"

definition mem_GetHistory :: "int \<Rightarrow> (mem_sync, book_history) op" where
  "mem_GetHistory ident s =
     (case find (\<lambda>h. bh_ID h = ident) (ms_history s) of
        Some h \<Rightarrow> (Inr h, s) | None \<Rightarrow> (Inl ErrHistoryNotFound, s))"

section \<open>Events, cursors\<close>

fun list_after_loop ::
  "int \<Rightarrow> int \<Rightarrow> memory_event list \<Rightarrow> sync_event list \<Rightarrow> sync_event list \<times> bool" where
  "list_after_loop cursor limit [] result = (result, False)"
| "list_after_loop cursor limit (e # es) result =
     (if ev_ID (me_event e) \<le> cursor then list_after_loop cursor limit es result
      else if me_status e \<noteq> StatusDone \<and> me_status e \<noteq> StatusFailed
      then list_after_loop cursor limit es result
      else if int (length result) \<ge> limit then (result, True)
      else list_after_loop cursor limit es (result @ [me_event e]))"

text \<open>\<open>make\<close> with a negative capacity panics.\<close>

definition mem_ListAfterCursor :: "int \<Rightarrow> int \<Rightarrow> (mem_sync, sync_event list \<times> bool) op" where
  "mem_ListAfterCursor cursor limit s =
     (if limit < 0 then (Inl ErrPanic, s) else (Inr (list_after_loop cursor limit (ms_events s) []), s))"

definition mem_CountByStatus :: "(mem_sync, int \<times> int \<times> int) op" where
  "mem_CountByStatus s = (Inr (0, 0, 0), s)"

definition mem_UpdateCursor :: "string \<Rightarrow> int \<Rightarrow> (mem_sync, unit) op" where
  "mem_UpdateCursor deviceID lastEventID s =
     (Inr (), s\<lparr>ms_cursors := (ms_cursors s)(deviceID \<mapsto> lastEventID)\<rparr>)"

definition mem_GetCursor :: "string \<Rightarrow> (mem_sync, int) op" where
  "mem_GetCursor deviceID s =
     (Inr (case ms_cursors s deviceID of None \<Rightarrow> 0 | Some c \<Rightarrow> c), s)"

section \<open>Conflicts\<close>

definition mem_ListOpen :: "(mem_sync, conflict list) op" where
  "mem_ListOpen s =
     (Inr (map mc_Conflict (filter (\<lambda>c. cf_Status (mc_Conflict c) = ConflictOpen) (ms_conflicts s))), s)"

definition mem_GetConflict :: "int \<Rightarrow> (mem_sync, conflict) op" where
  "mem_GetConflict ident s =
     (case find (\<lambda>c. cf_ID (mc_Conflict c) = ident) (ms_conflicts s) of
        Some c \<Rightarrow> (Inr (mc_Conflict c), s) | None \<Rightarrow> (Inl ErrConflictNotFound, s))"

text \<open>The loop stops at the first record with the identifier.\<close>

fun mark_resolved_loop :: "int \<Rightarrow> memory_conflict list \<Rightarrow> error + memory_conflict list" where
  "mark_resolved_loop ident [] = Inl ErrConflictNotFound"
| "mark_resolved_loop ident (c # cs) =
     (if cf_ID (mc_Conflict c) = ident
      then (if cf_Status (mc_Conflict c) \<noteq> ConflictOpen then Inl ErrConflictResolved
            else Inr (c\<lparr>mc_Conflict := (mc_Conflict c)\<lparr>cf_Status := ConflictResolved\<rparr>\<rparr> # cs))
      else (case mark_resolved_loop ident cs of Inl e \<Rightarrow> Inl e | Inr cs' \<Rightarrow> Inr (c # cs')))"

definition mem_MarkResolved :: "int \<Rightarrow> string \<Rightarrow> (mem_sync, unit) op" where
  "mem_MarkResolved ident deviceID s =
     (case mark_resolved_loop ident (ms_conflicts s) of
        Inl e \<Rightarrow> (Inl e, s)
      | Inr cs \<Rightarrow> (Inr (), s\<lparr>ms_conflicts := cs\<rparr>))"

end
