(* ===== verification/EventLog.thy ===== *)
theory EventLog
  imports SyncModel
begin

text \<open>
  The abstract reading of the event log, independent of any store: what a device that applies the
  events of the log in order ends up with, how often an entry was written, and the decision that the
  optimistic lock takes.  The stores are proved against these.
\<close>

section \<open>Replaying a log\<close>

definition is_book_event :: "sync_event \<Rightarrow> bool" where
  "is_book_event e \<longleftrightarrow> ev_EntityType e = EntityBook"

definition apply_event :: "(string \<rightharpoonup> raw) \<Rightarrow> string \<Rightarrow> sync_event \<Rightarrow> (string \<rightharpoonup> raw)" where
  "apply_event m k e = (if ev_Op e = OpDelete then m(k := None) else m(k \<mapsto> ev_Payload e))"

text \<open>The library of a device that starts from \<open>m\<close> and applies the book events of a log.\<close>

fun replay_books :: "(string \<rightharpoonup> raw) \<Rightarrow> sync_event list \<Rightarrow> (string \<rightharpoonup> raw)" where
  "replay_books m [] = m"
| "replay_books m (e # es) =
     replay_books (if is_book_event e then apply_event m (ev_EntityID e) e else m) es"

definition event_key :: "sync_event \<Rightarrow> string" where
  "event_key e = ev_EntityType e @ ''|'' @ ev_EntityID e"

fun replay_entities :: "(string \<rightharpoonup> raw) \<Rightarrow> sync_event list \<Rightarrow> (string \<rightharpoonup> raw)" where
  "replay_entities m [] = m"
| "replay_entities m (e # es) =
     replay_entities (if is_book_event e then m else apply_event m (event_key e) e) es"

lemma replay_books_append [simp]: "replay_books m (es @ fs) = replay_books (replay_books m es) fs"
  by (induction es arbitrary: m) auto

lemma replay_entities_append [simp]:
  "replay_entities m (es @ fs) = replay_entities (replay_entities m es) fs"
  by (induction es arbitrary: m) auto

text \<open>How many events of a log write a book, and how many write the entity with a key.\<close>

definition book_writes :: "string \<Rightarrow> sync_event list \<Rightarrow> int" where
  "book_writes u es = int (length (filter (\<lambda>e. is_book_event e \<and> ev_EntityID e = u) es))"

definition entity_writes :: "string \<Rightarrow> sync_event list \<Rightarrow> int" where
  "entity_writes k es = int (length (filter (\<lambda>e. \<not> is_book_event e \<and> event_key e = k) es))"

lemma book_writes_Nil [simp]: "book_writes u [] = 0"
  by (simp add: book_writes_def)

lemma entity_writes_Nil [simp]: "entity_writes k [] = 0"
  by (simp add: entity_writes_def)

lemma book_writes_snoc [simp]:
  "book_writes u (es @ [e]) = book_writes u es + (if is_book_event e \<and> ev_EntityID e = u then 1 else 0)"
  by (simp add: book_writes_def)

lemma entity_writes_snoc [simp]:
  "entity_writes k (es @ [e]) = entity_writes k es + (if \<not> is_book_event e \<and> event_key e = k then 1 else 0)"
  by (simp add: entity_writes_def)

lemma book_writes_nonneg [simp]: "0 \<le> book_writes u es"
  by (simp add: book_writes_def)

lemma entity_writes_nonneg [simp]: "0 \<le> entity_writes k es"
  by (simp add: entity_writes_def)

lemma book_writes_prefix: "es = fs @ gs \<Longrightarrow> book_writes u fs \<le> book_writes u es"
  by (simp add: book_writes_def)

lemma entity_writes_prefix: "es = fs @ gs \<Longrightarrow> entity_writes k fs \<le> entity_writes k es"
  by (simp add: entity_writes_def)

section \<open>The decision of the optimistic lock\<close>

text \<open>
  The rule that the PostgreSQL and the in-memory stores share: a change identifier seen before is a
  replay; deleting what does not exist is accepted and does nothing; what does not exist is created
  from base revision 0 only; what exists is changed from its current revision only.
\<close>

datatype verdict = VDuplicate | VNothing | VReject | VConflict int | VWrite int

definition lock_verdict :: "bool \<Rightarrow> int option \<Rightarrow> string \<Rightarrow> int \<Rightarrow> verdict" where
  "lock_verdict seen current opn base =
     (if seen then VDuplicate
      else case current of
        None \<Rightarrow> if opn = OpDelete then VNothing else if base \<noteq> 0 then VReject else VWrite 1
      | Some r \<Rightarrow> if base \<noteq> r then VConflict r else VWrite (r + 1))"

lemma lock_verdict_VWrite_iff:
  "lock_verdict seen current opn base = VWrite r \<longleftrightarrow>
     \<not> seen \<and> (case current of None \<Rightarrow> opn \<noteq> OpDelete \<and> base = 0 \<and> r = 1
                  | Some q \<Rightarrow> base = q \<and> r = q + 1)"
  by (auto simp: lock_verdict_def split: option.splits)

end
