(* ===== verification/MemInv.thy ===== *)
theory MemInv
  imports MemSync EventLog
begin

text \<open>
  The invariant of the in-memory store and its preservation by every method.  Two elementary writes
  carry all of them: a book or entity write followed by its \<open>done\<close> event, and a \<open>conflict\<close> event.
\<close>

section \<open>The invariant\<close>

definition deliverable :: "memory_event \<Rightarrow> bool" where
  "deliverable e \<longleftrightarrow> me_status e = StatusDone \<or> me_status e = StatusFailed"

text \<open>The events that a pull may hand out.\<close>

definition event_log :: "mem_sync \<Rightarrow> sync_event list" where
  "event_log s = map me_event (filter deliverable (ms_events s))"

definition live_library :: "mem_sync \<Rightarrow> (string \<rightharpoonup> raw)" where
  "live_library s u =
     (case map_of (ms_books s) u of
        None \<Rightarrow> None | Some b \<Rightarrow> if bk_deleted b then None else Some (bk_payload b))"

definition live_entities :: "mem_sync \<Rightarrow> (string \<rightharpoonup> raw)" where
  "live_entities s k =
     (case ms_entities s k of
        None \<Rightarrow> None | Some e \<Rightarrow> if en_deleted e then None else Some (en_payload e))"

definition book_revision :: "mem_sync \<Rightarrow> string \<Rightarrow> int" where
  "book_revision s u = (case map_of (ms_books s) u of None \<Rightarrow> 0 | Some b \<Rightarrow> bk_revision b)"

definition entity_revision :: "mem_sync \<Rightarrow> string \<Rightarrow> int" where
  "entity_revision s k = (case ms_entities s k of None \<Rightarrow> 0 | Some e \<Rightarrow> en_revision e)"

definition ids_ok :: "mem_sync \<Rightarrow> bool" where
  "ids_ok s \<longleftrightarrow>
     map (ev_ID \<circ> me_event) (ms_events s) = upto_ids (length (ms_events s)) \<and>
     ms_nextEventID s = int (length (ms_events s)) \<and>
     map (cf_ID \<circ> mc_Conflict) (ms_conflicts s) = upto_ids (length (ms_conflicts s)) \<and>
     ms_nextConflictID s = int (length (ms_conflicts s)) \<and>
     map bh_ID (ms_history s) = upto_ids (length (ms_history s)) \<and>
     ms_nextHistoryID s = int (length (ms_history s))"

definition status_ok :: "mem_sync \<Rightarrow> bool" where
  "status_ok s \<longleftrightarrow>
     (\<forall>e\<in>set (ms_events s). me_status e = StatusDone \<or> me_status e = StatusConflict) \<and>
     (\<forall>c\<in>set (ms_conflicts s). cf_Status (mc_Conflict c) = ConflictOpen \<or>
        cf_Status (mc_Conflict c) = ConflictResolved)"

definition seen_ok :: "mem_sync \<Rightarrow> bool" where
  "seen_ok s \<longleftrightarrow> dom (ms_changeIDs s) = me_changeID ` set (ms_events s)"

definition books_ok :: "mem_sync \<Rightarrow> bool" where
  "books_ok s \<longleftrightarrow> distinct (keys (ms_books s)) \<and>
     (\<forall>u b. map_of (ms_books s) u = Some b \<longrightarrow> 1 \<le> bk_revision b) \<and>
     (\<forall>k e. ms_entities s k = Some e \<longrightarrow> 1 \<le> en_revision e)"

definition log_ok :: "mem_sync \<Rightarrow> bool" where
  "log_ok s \<longleftrightarrow>
     replay_books (\<lambda>_. None) (event_log s) = live_library s \<and>
     replay_entities (\<lambda>_. None) (event_log s) = live_entities s \<and>
     (\<forall>u. book_revision s u = book_writes u (event_log s)) \<and>
     (\<forall>k. entity_revision s k = entity_writes k (event_log s))"

definition mem_inv :: "mem_sync \<Rightarrow> bool" where
  "mem_inv s \<longleftrightarrow> ids_ok s \<and> status_ok s \<and> seen_ok s \<and> books_ok s \<and> log_ok s"

lemmas mem_inv_defs = mem_inv_def ids_ok_def status_ok_def seen_ok_def books_ok_def log_ok_def

lemma mem_inv_init: "mem_inv NewMemorySyncStore"
  by (auto simp: mem_inv_defs NewMemorySyncStore_def event_log_def live_library_def live_entities_def
      book_revision_def entity_revision_def)

section \<open>The elementary writes\<close>

abbreviation with_event :: "clock \<Rightarrow> change \<Rightarrow> string \<Rightarrow> int \<Rightarrow> string \<Rightarrow> mem_sync \<Rightarrow> mem_sync" where
  "with_event clk c dev r st s \<equiv> snd (appendEventLocked clk c dev r st s)"

lemma append_event_fields [frame, simp]:
  "ms_entities (with_event clk c dev r st s) = ms_entities s"
  "ms_books (with_event clk c dev r st s) = ms_books s"
  "ms_history (with_event clk c dev r st s) = ms_history s"
  "ms_nextHistoryID (with_event clk c dev r st s) = ms_nextHistoryID s"
  "ms_cursors (with_event clk c dev r st s) = ms_cursors s"
  "ms_conflicts (with_event clk c dev r st s) = ms_conflicts s"
  "ms_nextConflictID (with_event clk c dev r st s) = ms_nextConflictID s"
  "ms_nextEventID (with_event clk c dev r st s) = ms_nextEventID s + 1"
  "ms_changeIDs (with_event clk c dev r st s) = (ms_changeIDs s)(c_ChangeID c \<mapsto> ms_nextEventID s + 1)"
  by (simp_all add: appendEventLocked_def Let_def)

lemma append_event_events:
  "ms_events (with_event clk c dev r st s) =
     ms_events s @ [\<lparr>me_changeID = c_ChangeID c, me_status = st,
       me_event = make_event clk c dev (ms_nextEventID s + 1)\<rparr>]"
  by (simp add: appendEventLocked_def Let_def)

lemma append_event_outcome [simp]:
  "fst (appendEventLocked clk c dev r st s) =
     no_outcome\<lparr>oc_Accepted := True, oc_Revision := r, oc_EventID := ms_nextEventID s + 1\<rparr>"
  by (simp add: appendEventLocked_def Let_def)

lemma put_book_fields [frame, simp]:
  "ms_entities (put_book u b s) = ms_entities s"
  "ms_books (put_book u b s) = AList.update u b (ms_books s)"
  "ms_history (put_book u b s) = ms_history s"
  "ms_nextHistoryID (put_book u b s) = ms_nextHistoryID s"
  "ms_events (put_book u b s) = ms_events s"
  "ms_changeIDs (put_book u b s) = ms_changeIDs s"
  "ms_nextEventID (put_book u b s) = ms_nextEventID s"
  "ms_cursors (put_book u b s) = ms_cursors s"
  "ms_conflicts (put_book u b s) = ms_conflicts s"
  "ms_nextConflictID (put_book u b s) = ms_nextConflictID s"
  by (simp_all add: put_book_def)

lemma put_entity_fields [frame, simp]:
  "ms_entities (put_entity k e s) = (ms_entities s)(k \<mapsto> e)"
  "ms_books (put_entity k e s) = ms_books s"
  "ms_history (put_entity k e s) = ms_history s"
  "ms_nextHistoryID (put_entity k e s) = ms_nextHistoryID s"
  "ms_events (put_entity k e s) = ms_events s"
  "ms_changeIDs (put_entity k e s) = ms_changeIDs s"
  "ms_nextEventID (put_entity k e s) = ms_nextEventID s"
  "ms_cursors (put_entity k e s) = ms_cursors s"
  "ms_conflicts (put_entity k e s) = ms_conflicts s"
  "ms_nextConflictID (put_entity k e s) = ms_nextConflictID s"
  by (simp_all add: put_entity_def)

lemma make_event_fields [simp]:
  "ev_ID (make_event clk c dev i) = i"
  "ev_EntityType (make_event clk c dev i) = c_EntityType c"
  "ev_EntityID (make_event clk c dev i) = c_EntityID c"
  "ev_Op (make_event clk c dev i) = c_Op c"
  "ev_Payload (make_event clk c dev i) = c_Payload c"
  "ev_Revision (make_event clk c dev i) = 0"
  "ev_DeviceID (make_event clk c dev i) = dev"
  by (simp_all add: make_event_def)

lemma event_key_make [simp]:
  "event_key (make_event clk c dev i) = entity_key (c_EntityType c) (c_EntityID c)"
  by (simp add: event_key_def entity_key_def)

lemma is_book_make [simp]: "is_book_event (make_event clk c dev i) \<longleftrightarrow> c_EntityType c = EntityBook"
  by (simp add: is_book_event_def)

lemma event_log_done [simp]:
  "event_log (with_event clk c dev r StatusDone s) =
     event_log s @ [make_event clk c dev (ms_nextEventID s + 1)]"
  by (simp add: event_log_def append_event_events deliverable_def)

lemma event_log_conflict [simp]: "event_log (with_event clk c dev r StatusConflict s) = event_log s"
  by (simp add: event_log_def append_event_events deliverable_def)

lemma event_log_put_book [simp]: "event_log (put_book u b s) = event_log s"
  by (simp add: event_log_def)

lemma event_log_put_entity [simp]: "event_log (put_entity k e s) = event_log s"
  by (simp add: event_log_def)

lemma ids_ok_append:
  assumes "ids_ok s" "ms_nextEventID t = ms_nextEventID s" "ms_events t = ms_events s"
    "ms_conflicts t = ms_conflicts s" "ms_nextConflictID t = ms_nextConflictID s"
    "ms_history t = ms_history s" "ms_nextHistoryID t = ms_nextHistoryID s"
  shows "ids_ok (with_event clk c dev r st t)"
  using assms by (auto simp: ids_ok_def append_event_events upto_ids_Suc)

lemma seen_ok_append:
  assumes "seen_ok s" "ms_events t = ms_events s" "ms_changeIDs t = ms_changeIDs s"
  shows "seen_ok (with_event clk c dev r st t)"
  using assms by (auto simp: seen_ok_def append_event_events)

lemma status_ok_append:
  assumes "status_ok s" "ms_events t = ms_events s" "ms_conflicts t = ms_conflicts s"
    "st = StatusDone \<or> st = StatusConflict"
  shows "status_ok (with_event clk c dev r st t)"
  using assms by (auto simp: status_ok_def append_event_events)

text \<open>A book write with its event: what the book becomes is what the event tells.\<close>

lemma book_write_inv:
  assumes inv: "mem_inv s" and book: "c_EntityType c = EntityBook" "c_EntityID c = u"
    and rev: "bk_revision b = book_revision s u + 1"
    and del: "bk_deleted b \<longleftrightarrow> c_Op c = OpDelete"
    and pay: "\<not> bk_deleted b \<Longrightarrow> bk_payload b = c_Payload c"
  shows "mem_inv (with_event clk c dev r StatusDone (put_book u b s))"
proof -
  let ?t = "put_book u b s" and ?s' = "with_event clk c dev r StatusDone (put_book u b s)"
  have "ids_ok ?s'" "seen_ok ?s'" "status_ok ?s'"
    using inv by (auto simp: mem_inv_def intro: ids_ok_append seen_ok_append status_ok_append)
  moreover have "books_ok ?s'"
  proof -
    have "0 \<le> book_revision s u" using inv by (simp add: mem_inv_def log_ok_def)
    then show ?thesis
      using inv rev distinct_keys_update by (auto simp: mem_inv_def books_ok_def)
  qed
  moreover have "log_ok ?s'"
  proof -
    have lib: "live_library ?s' = apply_event (live_library s) u (make_event clk c dev (ms_nextEventID s + 1))"
      using del pay by (auto simp: live_library_def apply_event_def fun_eq_iff)
    have ent: "live_entities ?s' = live_entities s"
      by (simp add: live_entities_def fun_eq_iff)
    have "book_revision ?s' v = book_revision s v + (if v = u then 1 else 0)" for v
      using rev by (auto simp: book_revision_def)
    moreover have "entity_revision ?s' k = entity_revision s k" for k
      by (simp add: entity_revision_def)
    ultimately show ?thesis
      using inv book lib ent by (auto simp: mem_inv_def log_ok_def)
  qed
  ultimately show ?thesis by (simp add: mem_inv_def)
qed

lemma entity_write_inv:
  assumes inv: "mem_inv s" and ent: "c_EntityType c \<noteq> EntityBook"
    and key: "k = entity_key (c_EntityType c) (c_EntityID c)"
    and rev: "en_revision e = entity_revision s k + 1"
    and del: "en_deleted e \<longleftrightarrow> c_Op c = OpDelete"
    and pay: "\<not> en_deleted e \<Longrightarrow> en_payload e = c_Payload c"
  shows "mem_inv (with_event clk c dev r StatusDone (put_entity k e s))"
proof -
  let ?s' = "with_event clk c dev r StatusDone (put_entity k e s)"
  have "ids_ok ?s'" "seen_ok ?s'" "status_ok ?s'"
    using inv by (auto simp: mem_inv_def intro: ids_ok_append seen_ok_append status_ok_append)
  moreover have "books_ok ?s'"
  proof -
    have "0 \<le> entity_revision s k" using inv by (simp add: mem_inv_def log_ok_def)
    then show ?thesis
      using inv rev by (auto simp: mem_inv_def books_ok_def)
  qed
  moreover have "log_ok ?s'"
  proof -
    have lib: "live_entities ?s' = apply_event (live_entities s) k (make_event clk c dev (ms_nextEventID s + 1))"
      using del pay by (auto simp: live_entities_def apply_event_def fun_eq_iff)
    have bks: "live_library ?s' = live_library s"
      by (simp add: live_library_def fun_eq_iff)
    have "entity_revision ?s' v = entity_revision s v + (if v = k then 1 else 0)" for v
      using rev by (auto simp: entity_revision_def)
    moreover have "book_revision ?s' u = book_revision s u" for u
      by (simp add: book_revision_def)
    ultimately show ?thesis
      using inv ent key lib bks by (auto simp: mem_inv_def log_ok_def)
  qed
  ultimately show ?thesis by (simp add: mem_inv_def)
qed

text \<open>A conflict event and its record change neither the library nor the log.\<close>

lemma conflict_write_inv:
  assumes inv: "mem_inv s"
  shows "mem_inv (with_event clk c dev r StatusConflict s
           \<lparr>ms_nextConflictID := ms_nextConflictID s + 1,
            ms_conflicts := ms_conflicts s @ [conflict_record clk (ms_nextConflictID s + 1) c p r']\<rparr>)"
    (is "mem_inv ?s'")
proof -
  have log: "event_log ?s' = event_log s"
    by (simp add: event_log_def append_event_events deliverable_def)
  have "ids_ok ?s'"
    using inv by (auto simp: mem_inv_def ids_ok_def append_event_events upto_ids_Suc conflict_record_def)
  moreover have "seen_ok ?s'"
    using inv by (auto simp: mem_inv_def seen_ok_def append_event_events)
  moreover have "status_ok ?s'"
    using inv by (auto simp: mem_inv_def status_ok_def append_event_events conflict_record_def)
  moreover have "books_ok ?s'"
    using inv by (auto simp: mem_inv_def books_ok_def)
  moreover have "log_ok ?s'"
    using inv log
    by (auto simp: mem_inv_def log_ok_def live_library_def live_entities_def book_revision_def
        entity_revision_def fun_eq_iff)
  ultimately show ?thesis by (simp add: mem_inv_def)
qed

end
