(* ===== verification/Stores.thy ===== *)
theory Stores
  imports SyncModel
begin

text \<open>
  The store interfaces of \<open>internal/store\<close> as records of operations over one state \<open>'s\<close>, which is
  whatever the implementations keep (memory, tables, caches).  A service is defined over such records
  and does not know the implementation, as in the code.
\<close>

record 's entity_store =
  es_ApplyChange :: "change \<Rightarrow> string \<Rightarrow> ('s, change_outcome) op"
  es_ForceUpsert :: "string \<Rightarrow> string \<Rightarrow> raw \<Rightarrow> string \<Rightarrow> ('s, change_outcome) op"

record 's book_store =
  bs_ApplyBookChange :: "change \<Rightarrow> string \<Rightarrow> string \<Rightarrow> ('s, change_outcome) op"
  bs_ForceUpsertBook :: "string \<Rightarrow> raw \<Rightarrow> string \<Rightarrow> ('s, change_outcome) op"
  bs_RestoreLibrary :: "raw \<Rightarrow> string \<Rightarrow> ('s, restore_result) op"
  bs_SnapshotLibrary :: "('s, raw) op"

record 's history_store =
  hs_InsertSnapshot :: "string \<Rightarrow> string \<Rightarrow> raw \<Rightarrow> ('s, int) op"
  hs_ListHistory :: "int \<Rightarrow> ('s, book_history list) op"
  hs_GetHistory :: "int \<Rightarrow> ('s, book_history) op"

record 's event_store =
  vs_ListAfterCursor :: "int \<Rightarrow> int \<Rightarrow> ('s, sync_event list \<times> bool) op"
  vs_CountByStatus :: "('s, int \<times> int \<times> int) op"

record 's cursor_store =
  cs_UpdateCursor :: "string \<Rightarrow> int \<Rightarrow> ('s, unit) op"
  cs_GetCursor :: "string \<Rightarrow> ('s, int) op"

record 's conflict_store =
  ks_ListOpen :: "('s, conflict list) op"
  ks_Get :: "int \<Rightarrow> ('s, conflict) op"
  ks_MarkResolved :: "int \<Rightarrow> string \<Rightarrow> ('s, unit) op"

record 's library_version_store =
  ls_GetBookVersion :: "('s, string) op"
  ls_SetBookVersion :: "string \<Rightarrow> ('s, unit) op"

text \<open>\<open>FileVerifier.AllFilesComplete\<close>.\<close>

type_synonym 's file_verifier = "book_file_meta list \<Rightarrow> ('s, bool) op"

text \<open>
  The commands of the Redis client that the code uses: \<open>Get\<close> answers \<open>None\<close> for \<open>redis.Nil\<close>; \<open>Set\<close> takes
  the time to live in nanoseconds (\<open>time.Duration\<close>).
\<close>

record ('s, 'v) redis_client =
  rc_Set :: "string \<Rightarrow> 'v \<Rightarrow> int \<Rightarrow> ('s, unit) op"
  rc_Get :: "string \<Rightarrow> ('s, 'v option) op"
  rc_Del :: "string \<Rightarrow> ('s, unit) op"

definition second :: int where "second = 1000000000"
definition hour :: int where "hour = 3600 * second"

end
