(* ===== verification/LibraryVersion.thy ===== *)
theory LibraryVersion
  imports SyncModel
begin

text \<open>
  \<open>ComputeLibraryVersion\<close> (\<open>internal/store/library_meta_store.go\<close>).  The hash of the text is SHA-256 in
  hexadecimal; it is the parameter \<open>sha\<close>.  Go compares strings byte by byte, which is the
  lexicographic order on \<open>char list\<close>.  \<open>sort.Slice\<close> is modelled by the stable sort of the library;
  \<open>sort_key_unique\<close> shows that any other sorting algorithm gives the same list when the sort keys
  are distinct, as they are for the books of a library and the files of a book.
\<close>

record library_book =
  lb_UUID :: string
  lb_Name :: string
  lb_Files :: "book_file_meta list"

record book_item =
  bi_uuid :: string
  bi_name :: string
  bi_count :: int
  bi_files :: "(string \<times> string) list"

abbreviation newline :: char where "newline \<equiv> CHR 0x0A"

definition file_items :: "book_file_meta list \<Rightarrow> (string \<times> string) list" where
  "file_items fs = sort_key fst (map (\<lambda>f. (fm_RelPath f, fm_Hash f)) fs)"

definition book_item_of :: "library_book \<Rightarrow> book_item" where
  "book_item_of b = \<lparr>bi_uuid = lb_UUID b, bi_name = lb_Name b, bi_count = int (length (lb_Files b)),
     bi_files = file_items (lb_Files b)\<rparr>"

definition file_line :: "string \<times> string \<Rightarrow> string" where
  "file_line f = fst f @ '':'' @ snd f @ [newline]"

definition item_text :: "book_item \<Rightarrow> string" where
  "item_text it = bi_uuid it @ ''|'' @ bi_name it @ ''|'' @ itoa (bi_count it) @ [newline]
     @ concat (map file_line (bi_files it))"

definition library_items :: "library_book list \<Rightarrow> book_item list" where
  "library_items books = sort_key bi_uuid (map book_item_of books)"

definition library_text :: "library_book list \<Rightarrow> string" where
  "library_text books = concat (map item_text (library_items books))"

definition ComputeLibraryVersion :: "(string \<Rightarrow> string) \<Rightarrow> library_book list \<Rightarrow> string" where
  "ComputeLibraryVersion sha books = sha (library_text books)"

section \<open>The text does not depend on the order of the input\<close>

lemma sort_key_unique:
  assumes "mset ys = mset xs" "sorted (map k ys)" "distinct (map k xs)"
  shows "sort_key k xs = ys"
proof -
  have dist: "distinct (map k ys)"
    using assms(1,3) by (metis mset_eq_imp_distinct_iff mset_map)
  have one: "filter (\<lambda>y. k x = k y) zs = [x]" if "distinct (map k zs)" "x \<in> set zs" for x zs
    using that
  proof (induction zs)
    case (Cons z zs)
    show ?case
    proof (cases "x = z")
      case True
      with Cons.prems have "filter (\<lambda>y. k x = k y) zs = []" by (force simp: filter_empty_conv)
      with True show ?thesis by simp
    next
      case False
      with Cons.prems have "x \<in> set zs" "k z \<noteq> k x" by auto
      with Cons show ?thesis by simp
    qed
  qed simp
  have "sort_key k ys = ys" using assms(2) by (rule sort_key_id_if_sorted)
  moreover have "sort_key k xs = sort_key k ys"
  proof (rule properties_for_sort_key)
    show "mset (sort_key k ys) = mset xs" by (simp add: assms(1))
    show "sorted (map k (sort_key k ys))" by simp
    fix y assume "y \<in> set (sort_key k ys)"
    then have "y \<in> set ys" "y \<in> set xs" using assms(1) by (auto dest: mset_eq_setD)
    then show "filter (\<lambda>x. k y = k x) (sort_key k ys) = filter (\<lambda>x. k y = k x) xs"
      using one [OF dist] one [OF assms(3)] \<open>sort_key k ys = ys\<close> by simp
  qed
  ultimately show ?thesis by simp
qed

lemma sort_key_mset_cong:
  "mset xs = mset ys \<Longrightarrow> distinct (map k xs) \<Longrightarrow> sort_key k xs = sort_key k ys"
  by (rule sort_key_unique) simp_all

text \<open>Two listings of the same books, each with the same files, in whatever order.\<close>

definition same_book :: "library_book \<Rightarrow> library_book \<Rightarrow> bool" where
  "same_book a b \<longleftrightarrow> lb_UUID a = lb_UUID b \<and> lb_Name a = lb_Name b \<and> mset (lb_Files a) = mset (lb_Files b)"

lemma book_item_same:
  assumes "same_book a b" "distinct (map fm_RelPath (lb_Files a))"
  shows "book_item_of a = book_item_of b"
proof -
  let ?f = "\<lambda>f. (fm_RelPath f, fm_Hash f)"
  have "mset (map ?f (lb_Files a)) = mset (map ?f (lb_Files b))"
    using assms(1) by (simp add: same_book_def)
  moreover have "distinct (map fst (map ?f (lb_Files a)))" using assms(2) by (simp add: comp_def)
  ultimately have "file_items (lb_Files a) = file_items (lb_Files b)"
    unfolding file_items_def by (rule sort_key_mset_cong)
  moreover have "length (lb_Files a) = length (lb_Files b)"
    using assms(1) by (metis same_book_def size_mset)
  ultimately show ?thesis using assms(1) by (simp add: book_item_of_def same_book_def)
qed

lemma library_text_order:
  assumes "mset as' = mset as" "list_all2 same_book as' bs"
    and "distinct (map lb_UUID as)" "\<forall>a\<in>set as. distinct (map fm_RelPath (lb_Files a))"
  shows "library_text as = library_text bs"
proof -
  have "\<forall>a\<in>set as'. distinct (map fm_RelPath (lb_Files a))"
    using assms(1,4) mset_eq_setD by blast
  with assms(2) have "map book_item_of as' = map book_item_of bs"
    by (induction rule: list_all2_induct) (auto intro: book_item_same)
  moreover have "mset (map book_item_of as') = mset (map book_item_of as)" using assms(1) by simp
  moreover have "map bi_uuid (map book_item_of as) = map lb_UUID as" by (simp add: book_item_of_def)
  then have "distinct (map bi_uuid (map book_item_of as))" using assms(3) by (simp only:)
  ultimately have "library_items as = library_items bs"
    unfolding library_items_def by (metis sort_key_mset_cong)
  then show ?thesis by (simp add: library_text_def)
qed

lemma library_text_items:
  assumes "mset (map book_item_of as) = mset (map book_item_of bs)" "distinct (map lb_UUID as)"
  shows "library_text as = library_text bs"
proof -
  have "map bi_uuid (map book_item_of as) = map lb_UUID as" by (simp add: book_item_of_def)
  then have "distinct (map bi_uuid (map book_item_of as))" using assms(2) by (simp only:)
  with assms(1) have "library_items as = library_items bs"
    unfolding library_items_def by (intro sort_key_mset_cong)
  then show ?thesis by (simp add: library_text_def)
qed

lemma library_text_mset: "mset as = mset bs \<Longrightarrow> distinct (map lb_UUID as) \<Longrightarrow> library_text as = library_text bs"
  by (rule library_text_items) simp_all

section \<open>Reading the text back\<close>

text \<open>
  The text determines the books when no identifier holds a bar or a line feed, no name and no path a
  line feed and no hash a colon or a line feed.  The identifier ends at the first bar of its line, the
  number of files starts after the last one, and a hash starts after the last colon.
\<close>

definition item_clean :: "book_item \<Rightarrow> bool" where
  "item_clean it \<longleftrightarrow> CHR ''|'' \<notin> set (bi_uuid it) \<and> newline \<notin> set (bi_uuid it) \<and> newline \<notin> set (bi_name it) \<and>
     bi_count it = int (length (bi_files it)) \<and>
     (\<forall>f\<in>set (bi_files it). newline \<notin> set (fst f) \<and> newline \<notin> set (snd f) \<and> CHR '':'' \<notin> set (snd f))"

lemma split_first:
  "xs @ c # ys = xs' @ c # ys' \<Longrightarrow> c \<notin> set xs \<Longrightarrow> c \<notin> set xs' \<Longrightarrow> xs = xs' \<and> ys = ys'"
proof (induction xs arbitrary: xs')
  case Nil
  then show ?case by (cases xs') auto
next
  case (Cons x xs)
  then show ?case by (cases xs') auto
qed

lemma split_last:
  assumes "xs @ c # ys = xs' @ c # ys'" "c \<notin> set ys" "c \<notin> set ys'"
  shows "xs = xs' \<and> ys = ys'"
proof -
  have "rev ys @ c # rev xs = rev ys' @ c # rev xs'"
    using assms(1) by (metis append.assoc append_Cons append_Nil rev.simps(2) rev_append)
  from split_first [OF this] assms(2,3) show ?thesis by simp
qed

lemma itoa_clean: "0 \<le> n \<Longrightarrow> newline \<notin> set (itoa n) \<and> CHR ''|'' \<notin> set (itoa n)"
  by (simp add: itoa_def itoa_nat_no_separator)

lemma file_line_inj:
  assumes "file_line f @ xs = file_line g @ ys"
    and "newline \<notin> set (fst f)" "newline \<notin> set (snd f)" "CHR '':'' \<notin> set (snd f)"
    and "newline \<notin> set (fst g)" "newline \<notin> set (snd g)" "CHR '':'' \<notin> set (snd g)"
  shows "f = g \<and> xs = ys"
proof -
  have "(fst f @ '':'' @ snd f) @ newline # xs = (fst g @ '':'' @ snd g) @ newline # ys"
    using assms(1) by (simp add: file_line_def)
  from split_first [OF this] have "fst f @ '':'' @ snd f = fst g @ '':'' @ snd g" "xs = ys"
    using assms by auto
  with split_last [of "fst f" "CHR '':''" "snd f" "fst g" "snd g"] assms show ?thesis
    by (simp add: prod_eq_iff)
qed

lemma file_lines_inj:
  assumes "concat (map file_line fs) @ xs = concat (map file_line gs) @ ys" "length fs = length gs"
    and "\<forall>f\<in>set fs. newline \<notin> set (fst f) \<and> newline \<notin> set (snd f) \<and> CHR '':'' \<notin> set (snd f)"
    and "\<forall>f\<in>set gs. newline \<notin> set (fst f) \<and> newline \<notin> set (snd f) \<and> CHR '':'' \<notin> set (snd f)"
  shows "fs = gs \<and> xs = ys"
  using assms(2,1,3,4)
proof (induction fs gs rule: list_induct2)
  case (Cons f fs g gs)
  from Cons.prems(1) have "file_line f @ concat (map file_line fs) @ xs = file_line g @ concat (map file_line gs) @ ys"
    by simp
  from file_line_inj [OF this] Cons.prems(2,3)
  have "f = g" "concat (map file_line fs) @ xs = concat (map file_line gs) @ ys" by auto
  with Cons.IH Cons.prems(2,3) show ?case by simp
qed simp

lemma item_text_inj:
  assumes "item_text a @ xs = item_text b @ ys" "item_clean a" "item_clean b"
  shows "a = b \<and> xs = ys"
proof -
  let ?h = "\<lambda>a. bi_uuid a @ CHR ''|'' # bi_name a @ CHR ''|'' # itoa (bi_count a)"
  have "?h a @ newline # (concat (map file_line (bi_files a)) @ xs) =
      ?h b @ newline # (concat (map file_line (bi_files b)) @ ys)"
    using assms(1) by (simp add: item_text_def)
  moreover have clean: "newline \<notin> set (itoa (bi_count a))" "newline \<notin> set (itoa (bi_count b))"
      "CHR ''|'' \<notin> set (itoa (bi_count a))" "CHR ''|'' \<notin> set (itoa (bi_count b))"
    using assms(2,3) itoa_clean by (simp_all add: item_clean_def)
  moreover have "newline \<notin> set (?h a)" "newline \<notin> set (?h b)"
    using assms(2,3) clean by (simp_all add: item_clean_def)
  ultimately have h: "?h a = ?h b"
    and files: "concat (map file_line (bi_files a)) @ xs = concat (map file_line (bi_files b)) @ ys"
    using split_first [of "?h a" newline _ "?h b"] by blast+
  have u: "bi_uuid a = bi_uuid b" "bi_name a @ CHR ''|'' # itoa (bi_count a) = bi_name b @ CHR ''|'' # itoa (bi_count b)"
    using split_first [OF h] assms(2,3) by (simp_all add: item_clean_def)
  have n: "bi_name a = bi_name b" "itoa (bi_count a) = itoa (bi_count b)"
    using split_last [OF u(2)] clean by simp_all
  have pos: "0 \<le> bi_count a" "0 \<le> bi_count b" using assms(2,3) by (simp_all add: item_clean_def)
  then have c: "bi_count a = bi_count b"
    using n(2) by (auto simp: itoa_def dest!: itoa_nat_inj)
  with assms(2,3) have "length (bi_files a) = length (bi_files b)" by (simp add: item_clean_def)
  from file_lines_inj [OF files this] assms(2,3) have "bi_files a = bi_files b" "xs = ys"
    by (simp_all add: item_clean_def)
  with u n c show ?thesis by simp
qed

lemma item_text_nonempty [simp]: "item_text a \<noteq> []"
  by (simp add: item_text_def)

lemma items_text_inj:
  "concat (map item_text as) = concat (map item_text bs) \<Longrightarrow> \<forall>a\<in>set as. item_clean a \<Longrightarrow>
     \<forall>b\<in>set bs. item_clean b \<Longrightarrow> as = bs"
proof (induction as arbitrary: bs)
  case Nil
  then show ?case by (cases bs) auto
next
  case (Cons a as)
  then obtain b bs' where bs: "bs = b # bs'" by (cases bs) auto
  with Cons.prems item_text_inj [of a "concat (map item_text as)" b "concat (map item_text bs')"]
  have "a = b" "concat (map item_text as) = concat (map item_text bs')" by auto
  with Cons bs show ?case by simp
qed

definition book_clean :: "library_book \<Rightarrow> bool" where
  "book_clean b \<longleftrightarrow> CHR ''|'' \<notin> set (lb_UUID b) \<and> newline \<notin> set (lb_UUID b) \<and> newline \<notin> set (lb_Name b) \<and>
     (\<forall>f\<in>set (lb_Files b). newline \<notin> set (fm_RelPath f) \<and> newline \<notin> set (fm_Hash f) \<and> CHR '':'' \<notin> set (fm_Hash f))"

lemma book_clean_item: "book_clean b \<Longrightarrow> item_clean (book_item_of b)"
  by (auto simp: book_clean_def item_clean_def book_item_of_def file_items_def)

lemma library_text_inj:
  assumes "library_text as = library_text bs" "\<forall>a\<in>set as. book_clean a" "\<forall>b\<in>set bs. book_clean b"
  shows "mset (map book_item_of as) = mset (map book_item_of bs)"
proof -
  have "\<forall>i\<in>set (library_items as). item_clean i" "\<forall>i\<in>set (library_items bs). item_clean i"
    using assms(2,3) by (auto simp: library_items_def intro: book_clean_item)
  with assms(1) have "library_items as = library_items bs"
    unfolding library_text_def by (intro items_text_inj)
  then show ?thesis by (metis library_items_def mset_sort)
qed

end
