(* ===== verification/SyncService.thy ===== *)
theory SyncService
  imports Stores LibraryVersion
begin

text \<open>
  \<open>SyncService\<close> (\<open>internal/service/sync_service.go\<close>): push, pull, status, conflicts, history and the
  library version, over the store interfaces.  A \<open>nil\<close> interface is \<open>None\<close>.  The service holds no lock
  of its own: what it does between two store operations can interleave with other requests.
\<close>

record 's sync_service =
  ss_entities :: "'s entity_store"
  ss_books :: "'s book_store"
  ss_history :: "'s history_store"
  ss_events :: "'s event_store"
  ss_cursors :: "'s cursor_store"
  ss_conflicts :: "'s conflict_store"
  ss_fileVerifier :: "'s file_verifier option"
  ss_libVersion :: "'s library_version_store option"

record library_status =
  ly_BookCount :: int
  ly_BookVersion :: string

section \<open>Library version\<close>

definition decode_items :: "raw \<Rightarrow> ('s, book_snapshot_item list option) op" where
  "decode_items snapshot =
     (case json_Unmarshal dec_items None snapshot of (items, ok) \<Rightarrow> if ok then ret items else throw ErrJSON)"

text \<open>A book's files from its snapshot item; what does not decode counts as no files.\<close>

definition library_book_of :: "book_snapshot_item \<Rightarrow> library_book" where
  "library_book_of it =
     (let (files, ok) = json_Unmarshal dec_files None (it_Files it) in
      \<lparr>lb_UUID = it_UUID it, lb_Name = it_Name it, lb_Files = (if ok then slice_list files else [])\<rparr>)"

definition RefreshLibraryVersion :: "(string \<Rightarrow> string) \<Rightarrow> 's sync_service \<Rightarrow> ('s, unit) op" where
  "RefreshLibraryVersion sha svc =
     (case ss_libVersion svc of
        None \<Rightarrow> ret ()
      | Some lib \<Rightarrow>
          bindE (bs_SnapshotLibrary (ss_books svc)) (\<lambda>snapshot.
          bindE (decode_items snapshot) (\<lambda>items.
            ls_SetBookVersion lib (ComputeLibraryVersion sha (map library_book_of (slice_list items))))))"

definition GetLibraryStatus :: "'s sync_service \<Rightarrow> ('s, library_status) op" where
  "GetLibraryStatus svc =
     bindE (bs_SnapshotLibrary (ss_books svc)) (\<lambda>snapshot.
     bindE (decode_items snapshot) (\<lambda>items.
     bindE (case ss_libVersion svc of None \<Rightarrow> ret [] | Some lib \<Rightarrow> ls_GetBookVersion lib) (\<lambda>version.
       ret \<lparr>ly_BookCount = int (length (slice_list items)), ly_BookVersion = version\<rparr>)))"

section \<open>History\<close>

definition svc_ListHistory :: "'s sync_service \<Rightarrow> int \<Rightarrow> ('s, book_history list) op" where
  "svc_ListHistory svc limit = hs_ListHistory (ss_history svc) limit"

definition RecordHistory :: "'s sync_service \<Rightarrow> string \<Rightarrow> string \<Rightarrow> raw \<Rightarrow> ('s, int) op" where
  "RecordHistory svc opType tag snapshot = hs_InsertSnapshot (ss_history svc) opType tag snapshot"

text \<open>Failing to take or to record the new snapshot is ignored.\<close>

definition RestoreBook :: "'s sync_service \<Rightarrow> string \<Rightarrow> int \<Rightarrow> ('s, restore_result) op" where
  "RestoreBook svc deviceID historyID =
     bindE (hs_GetHistory (ss_history svc) historyID) (\<lambda>h.
     bindE (bs_RestoreLibrary (ss_books svc) (bh_Payload h) deviceID) (\<lambda>result.
     bindE (attempt (bs_SnapshotLibrary (ss_books svc))) (\<lambda>snap.
     bindE (case snap of
              Inl e \<Rightarrow> ret ()
            | Inr payload \<Rightarrow> bindE (attempt (hs_InsertSnapshot (ss_history svc) OpRestore TagManual payload))
                (\<lambda>_. ret ())) (\<lambda>_.
       ret result))))"

section \<open>Push\<close>

text \<open>The check before a book's change: whether to go on and apply it.\<close>

definition verify_change :: "'s sync_service \<Rightarrow> change \<Rightarrow> ('s, bool) op" where
  "verify_change svc c =
     (case ss_fileVerifier svc of
        None \<Rightarrow> ret True
      | Some verifier \<Rightarrow>
          if c_EntityType c = EntityBook \<and> c_Op c \<noteq> OpDelete \<and> c_Payload c \<noteq> None
          then (case json_Unmarshal dec_payload zero_payload (c_Payload c) of (p, ok) \<Rightarrow>
                  if ok \<and> slice_list (bp_Files p) \<noteq> []
                  then wrapE ''verify files'' (verifier (slice_list (bp_Files p)))
                  else ret True)
          else ret True)"

definition apply_one :: "'s sync_service \<Rightarrow> string \<Rightarrow> string \<Rightarrow> change \<Rightarrow> ('s, change_outcome) op" where
  "apply_one svc deviceID source c =
     wrapE ''apply change''
       (if c_EntityType c = EntityBook then bs_ApplyBookChange (ss_books svc) c source deviceID
        else es_ApplyChange (ss_entities svc) c deviceID)"

definition incomplete_result :: "change \<Rightarrow> change_result" where
  "incomplete_result c = \<lparr>cr_EntityType = c_EntityType c, cr_EntityID = c_EntityID c, cr_Accepted = False,
     cr_Revision = 0, cr_EventID = 0, cr_Reason = ReasonFilesIncomplete, cr_ConflictID = 0\<rparr>"

definition outcome_result :: "change \<Rightarrow> change_outcome \<Rightarrow> change_result" where
  "outcome_result c o1 = \<lparr>cr_EntityType = c_EntityType c, cr_EntityID = c_EntityID c,
     cr_Accepted = oc_Accepted o1, cr_Revision = oc_Revision o1, cr_EventID = oc_EventID o1,
     cr_Reason = oc_Reason o1, cr_ConflictID = oc_ConflictID o1\<rparr>"

fun push_loop ::
  "'s sync_service \<Rightarrow> string \<Rightarrow> string \<Rightarrow> change list \<Rightarrow> change_result list \<Rightarrow> ('s, change_result list) op"
where
  "push_loop svc deviceID source [] results = ret results"
| "push_loop svc deviceID source (c # cs) results =
     bindE (verify_change svc c) (\<lambda>ok.
       if \<not> ok then push_loop svc deviceID source cs (results @ [incomplete_result c])
       else bindE (apply_one svc deviceID source c) (\<lambda>outcome.
              push_loop svc deviceID source cs (results @ [outcome_result c outcome])))"

text \<open>Failing to refresh the library version is ignored.\<close>

definition Push ::
  "(string \<Rightarrow> string) \<Rightarrow> 's sync_service \<Rightarrow> string \<Rightarrow> string \<Rightarrow> change list \<Rightarrow> ('s, change_result list) op"
where
  "Push sha svc deviceID source changes =
     bindE (push_loop svc deviceID source changes []) (\<lambda>results.
     bindE (if 0 < length results then attempt (RefreshLibraryVersion sha svc) else ret (Inr ())) (\<lambda>_.
       ret results))"

section \<open>Pull and status\<close>

definition Pull :: "'s sync_service \<Rightarrow> string \<Rightarrow> int \<Rightarrow> int \<Rightarrow> ('s, pull_result) op" where
  "Pull svc deviceID cursor limit =
     bindE (vs_ListAfterCursor (ss_events svc) cursor limit) (\<lambda>(events, hasMore).
       let lst = (if 0 < length events then ev_ID (last events) else cursor) in
       bindE (wrapE ''update cursor'' (cs_UpdateCursor (ss_cursors svc) deviceID lst)) (\<lambda>_.
         ret \<lparr>pr_Cursor = lst, pr_HasMore = hasMore, pr_Events = events\<rparr>))"

definition Status :: "'s sync_service \<Rightarrow> string \<Rightarrow> ('s, sync_status) op" where
  "Status svc deviceID =
     bindE (cs_GetCursor (ss_cursors svc) deviceID) (\<lambda>cursor.
     bindE (vs_CountByStatus (ss_events svc)) (\<lambda>(pending, conflicts, failed).
     bindE (ks_ListOpen (ss_conflicts svc)) (\<lambda>opens.
       ret \<lparr>st_Cursor = cursor, st_PendingCount = pending, st_ConflictCount = int (length opens),
            st_FailedCount = failed\<rparr>)))"

section \<open>Conflicts\<close>

definition ListConflicts :: "'s sync_service \<Rightarrow> ('s, conflict list) op" where
  "ListConflicts svc = ks_ListOpen (ss_conflicts svc)"

definition forceUpsert :: "'s sync_service \<Rightarrow> conflict \<Rightarrow> raw \<Rightarrow> string \<Rightarrow> ('s, unit) op" where
  "forceUpsert svc cf payload deviceID =
     (if cf_EntityType cf = EntityBook
      then bindE (bs_ForceUpsertBook (ss_books svc) (cf_EntityID cf) payload deviceID) (\<lambda>_. ret ())
      else bindE (es_ForceUpsert (ss_entities svc) (cf_EntityType cf) (cf_EntityID cf) payload deviceID)
             (\<lambda>_. ret ()))"

definition resolve_write :: "'s sync_service \<Rightarrow> string \<Rightarrow> conflict \<Rightarrow> resolve_request \<Rightarrow> ('s, unit) op" where
  "resolve_write svc deviceID cf req =
     (if rq_Strategy req = StrategyKeepServer then ret ()
      else if rq_Strategy req = StrategyKeepLocal then
        (if cf_LocalPayload cf = None then throw ErrNoLocalPayload
         else forceUpsert svc cf (cf_LocalPayload cf) deviceID)
      else if rq_Strategy req = StrategyManual then
        (if rq_Payload req = None then throw ErrPayloadRequired
         else forceUpsert svc cf (rq_Payload req) deviceID)
      else throw ErrInvalidStrategy)"

definition ResolveConflict :: "'s sync_service \<Rightarrow> string \<Rightarrow> int \<Rightarrow> resolve_request \<Rightarrow> ('s, unit) op" where
  "ResolveConflict svc deviceID conflictID req =
     bindE (ks_Get (ss_conflicts svc) conflictID) (\<lambda>cf.
       if cf_Status cf \<noteq> ConflictOpen then throw ErrConflictResolved
       else bindE (resolve_write svc deviceID cf req) (\<lambda>_.
              ks_MarkResolved (ss_conflicts svc) conflictID deviceID))"

definition GetLibraryBooks :: "'s sync_service \<Rightarrow> ('s, raw) op" where
  "GetLibraryBooks svc = bs_SnapshotLibrary (ss_books svc)"

end
