(* ===== verification/Contracts.thy ===== *)
theory Contracts
  imports SyncService EventLog
begin

text \<open>
  The contracts that the services rely on, as locales: the optimistic lock, the event feed and the
  conflict register.  Each fixes the operations that a client calls and assumes the laws that the
  provider promises; what follows for every provider is proved here once.  The laws are discharged
  for the stores of the model where these are defined.
\<close>

section \<open>Outcomes of a change\<close>

definition written :: "change_outcome \<Rightarrow> bool" where
  "written w \<longleftrightarrow> oc_Accepted w \<and> oc_Revision w \<noteq> 0"

definition conflicting :: "change_outcome \<Rightarrow> bool" where
  "conflicting w \<longleftrightarrow> \<not> oc_Accepted w \<and> oc_Reason w = ReasonConflict \<and> oc_ConflictID w \<noteq> 0"

definition accepted_outcome :: change_outcome where
  "accepted_outcome = no_outcome\<lparr>oc_Accepted := True\<rparr>"

definition duplicate_outcome :: change_outcome where
  "duplicate_outcome = no_outcome\<lparr>oc_Accepted := True, oc_Reason := ReasonDuplicate\<rparr>"

definition reject_outcome :: change_outcome where
  "reject_outcome = no_outcome\<lparr>oc_Reason := ReasonConflict\<rparr>"

lemma outcome_kinds [simp]:
  "\<not> written accepted_outcome" "\<not> written duplicate_outcome" "\<not> written reject_outcome"
  "\<not> conflicting accepted_outcome" "\<not> conflicting duplicate_outcome" "\<not> conflicting reject_outcome"
  "oc_Accepted duplicate_outcome" "oc_Accepted accepted_outcome" "\<not> oc_Accepted reject_outcome"
  by (simp_all add: written_def conflicting_def accepted_outcome_def duplicate_outcome_def
      reject_outcome_def no_outcome_def)

section \<open>The optimistic lock\<close>

text \<open>
  \<open>apply_ch env c\<close> applies a change; \<open>env\<close> is what else the call is given (device, source, clock).
  \<open>seen\<close> are the change identifiers used up, \<open>rev c\<close> the revision of the entry that a change names,
  \<open>mine env c\<close> says which calls the contract is about,
  \<open>step\<close> is anything the store may do between two changes and \<open>same\<close> says that two states hold the
  same data.  A provider may fail; then it must have left the data as it was.
\<close>

locale lock_store =
  fixes inv :: "'s \<Rightarrow> bool"
    and step :: "'s \<Rightarrow> 's \<Rightarrow> bool"
    and same :: "'s \<Rightarrow> 's \<Rightarrow> bool"
    and mine :: "'e \<Rightarrow> change \<Rightarrow> bool"
    and apply_ch :: "'e \<Rightarrow> change \<Rightarrow> ('s, change_outcome) op"
    and seen :: "'s \<Rightarrow> string set"
    and rev :: "change \<Rightarrow> 's \<Rightarrow> int option"
  assumes step_inv: "inv s \<Longrightarrow> step s t \<Longrightarrow> inv t"
    and step_seen: "inv s \<Longrightarrow> step s t \<Longrightarrow> seen s \<subseteq> seen t"
    and step_rev: "inv s \<Longrightarrow> step s t \<Longrightarrow> rev c s = Some r \<Longrightarrow> \<exists>q\<ge>r. rev c t = Some q"
    and rev_pos: "inv s \<Longrightarrow> rev c s = Some r \<Longrightarrow> 0 < r"
    and apply_step: "mine env c \<Longrightarrow> step s (snd (apply_ch env c s))"
    and apply_verdict: "inv s \<Longrightarrow> mine env c \<Longrightarrow> apply_ch env c s = (res, t) \<Longrightarrow>
      (\<exists>e. res = Inl e \<and> same s t) \<or>
      (case lock_verdict (c_ChangeID c \<in> seen s) (rev c s) (c_Op c) (c_BaseRevision c) of
         VDuplicate \<Rightarrow> res = Inr duplicate_outcome \<and> same s t
       | VNothing \<Rightarrow> res = Inr accepted_outcome \<and> same s t
       | VReject \<Rightarrow> res = Inr reject_outcome \<and> same s t
       | VConflict r \<Rightarrow> \<exists>w. res = Inr w \<and> conflicting w \<and> c_ChangeID c \<in> seen t \<and> rev c t = Some r
       | VWrite r \<Rightarrow> \<exists>w. res = Inr w \<and> written w \<and> oc_Revision w = r \<and>
           c_ChangeID c \<in> seen t \<and> rev c t = Some r)"
begin

lemma steps_keep:
  assumes "step\<^sup>*\<^sup>* s t" "inv s"
  shows "inv t \<and> seen s \<subseteq> seen t \<and> (\<forall>c r. rev c s = Some r \<longrightarrow> (\<exists>q\<ge>r. rev c t = Some q))"
  using assms
proof (induction rule: rtranclp_induct)
  case (step y z)
  then have "inv y" by simp
  with step step_inv step_seen show ?case by (meson order_trans step_rev)
qed auto

lemma written_iff:
  assumes "inv s" "mine env c" "apply_ch env c s = (Inr w, t)"
  shows "written w \<longleftrightarrow> c_ChangeID c \<notin> seen s \<and>
    (case rev c s of None \<Rightarrow> c_Op c \<noteq> OpDelete \<and> c_BaseRevision c = 0
       | Some r \<Rightarrow> c_BaseRevision c = r)"
  using apply_verdict [OF assms(1-3)]
  by (auto simp: lock_verdict_def conflicting_def written_def duplicate_outcome_def
      accepted_outcome_def reject_outcome_def no_outcome_def
      split: verdict.splits option.splits if_splits)

lemma written_rev:
  assumes "inv s" "mine env c" "apply_ch env c s = (Inr w, t)" "written w"
  shows "oc_Revision w = c_BaseRevision c + 1 \<and> rev c t = Some (oc_Revision w)"
  using apply_verdict [OF assms(1-3)] assms(4)
  by (auto simp: lock_verdict_def conflicting_def written_def duplicate_outcome_def
      accepted_outcome_def reject_outcome_def no_outcome_def
      split: verdict.splits option.splits if_splits)

text \<open>A change that was written or recorded as a conflict is a replay for ever after.\<close>

lemma replay:
  assumes "inv s" "mine env c" "apply_ch env c s = (Inr w, t)" "written w \<or> conflicting w"
    and "step\<^sup>*\<^sup>* t u" "mine env' d" "c_ChangeID d = c_ChangeID c" "apply_ch env' d u = (res, v)"
  shows "same u v \<and> (res = Inr duplicate_outcome \<or> (\<exists>e. res = Inl e))"
proof -
  have "c_ChangeID c \<in> seen t"
    using apply_verdict [OF assms(1-3)] assms(4)
    by (auto split: verdict.splits simp: lock_verdict_def)
  moreover have "inv t" using apply_step [OF assms(2), of s] assms(1,3) step_inv by auto
  ultimately have "inv u" "c_ChangeID d \<in> seen u" using steps_keep [OF assms(5)] assms(7) by auto
  then show ?thesis using apply_verdict [OF \<open>inv u\<close> assms(6,8)] by (auto simp: lock_verdict_def)
qed

text \<open>Of two changes made from the same base revision at most one is written.\<close>

lemma same_base:
  assumes "inv s" "mine env c" "apply_ch env c s = (Inr w, t)" "written w"
    and "step\<^sup>*\<^sup>* t u" "mine env' d" "rev d = rev c" "c_BaseRevision d = c_BaseRevision c"
    and "apply_ch env' d u = (Inr w', v)"
  shows "\<not> written w'"
proof
  assume wr: "written w'"
  have "inv t" using apply_step [OF assms(2), of s] assms(1,3) step_inv by auto
  moreover have r: "rev c t = Some (c_BaseRevision c + 1)"
    using written_rev [OF assms(1-4)] by simp
  ultimately obtain q where "inv u" "rev d u = Some q" "c_BaseRevision c + 1 \<le> q"
    using steps_keep [OF assms(5)] assms(7) by metis
  with written_iff [OF \<open>inv u\<close> assms(6,9)] wr assms(8) show False by simp
qed

text \<open>Each write of an entry gets a larger revision than all earlier ones.\<close>

lemma revisions_increase:
  assumes "inv s" "mine env c" "apply_ch env c s = (Inr w, t)" "written w"
    and "step\<^sup>*\<^sup>* t u" "mine env' d" "rev d = rev c" "apply_ch env' d u = (Inr w', v)" "written w'"
  shows "oc_Revision w < oc_Revision w'"
proof -
  have "inv t" using apply_step [OF assms(2), of s] assms(1,3) step_inv by auto
  then obtain q where q: "inv u" "rev d u = Some q" "oc_Revision w \<le> q"
    using steps_keep [OF assms(5)] written_rev [OF assms(1-4)] assms(7) by metis
  with written_iff [OF q(1) assms(6,8)] written_rev [OF q(1) assms(6,8,9)] assms(9) show ?thesis by simp
qed

end

section \<open>The event feed\<close>

definition after :: "int \<Rightarrow> sync_event list \<Rightarrow> sync_event list" where
  "after c es = filter (\<lambda>e. c < ev_ID e) es"

definition up_to :: "int \<Rightarrow> sync_event list \<Rightarrow> sync_event list" where
  "up_to c es = filter (\<lambda>e. ev_ID e \<le> c) es"

definition page :: "int \<Rightarrow> int \<Rightarrow> sync_event list \<Rightarrow> sync_event list" where
  "page c limit es = take (nat limit) (after c es)"

definition page_end :: "int \<Rightarrow> sync_event list \<Rightarrow> int" where
  "page_end c es = (if es = [] then c else ev_ID (last es))"

abbreviation in_order :: "sync_event list \<Rightarrow> bool" where
  "in_order es \<equiv> sorted_wrt (\<lambda>d e. ev_ID d < ev_ID e) es"

lemma after_append [simp]: "after c (es @ fs) = after c es @ after c fs"
  by (simp add: after_def)

lemma up_to_after: "in_order es \<Longrightarrow> up_to c es @ after c es = es"
proof (induction es)
  case (Cons e es)
  show ?case
  proof (cases "ev_ID e \<le> c")
    case True
    with Cons show ?thesis by (simp add: up_to_def after_def)
  next
    case False
    with Cons.prems have "\<forall>d\<in>set (e # es). c < ev_ID d" by force
    then have "filter (\<lambda>d. ev_ID d \<le> c) (e # es) = []" "filter (\<lambda>d. c < ev_ID d) (e # es) = e # es"
      by (fastforce simp: filter_empty_conv filter_id_conv)+
    then show ?thesis by (simp only: up_to_def after_def append_Nil)
  qed
qed (simp add: up_to_def after_def)

lemma up_to_split:
  "\<forall>e\<in>set xs. ev_ID e \<le> m \<Longrightarrow> \<forall>e\<in>set ys. m < ev_ID e \<Longrightarrow>
     up_to m (xs @ ys) = xs \<and> after m (xs @ ys) = ys"
  by (fastforce simp: up_to_def after_def filter_empty_conv filter_id_conv)

lemma up_to_page_end:
  assumes "in_order es"
  shows "up_to (page_end c (page c limit es)) es = up_to c es @ page c limit es"
    and "after (page_end c (page c limit es)) es = drop (nat limit) (after c es)"
proof -
  let ?p = "page c limit es" and ?q = "drop (nat limit) (after c es)"
  have split: "es = up_to c es @ ?p @ ?q"
    using up_to_after [OF assms, of c] by (simp add: page_def)
  have ord: "in_order (up_to c es @ ?p @ ?q)" using assms split by simp
  have "c \<le> page_end c ?p"
  proof (cases "?p = []")
    case False
    then have "last ?p \<in> set (after c es)" by (metis last_in_set page_def in_set_takeD)
    then show ?thesis using False by (simp add: page_end_def after_def)
  qed (simp add: page_end_def)
  then have lo: "\<forall>e\<in>set (up_to c es). ev_ID e \<le> page_end c ?p"
    by (auto simp: up_to_def)
  have mid: "\<forall>e\<in>set ?p. ev_ID e \<le> page_end c ?p"
  proof (cases "?p = []")
    case False
    then obtain xs x where p: "?p = xs @ [x]" by (metis rev_exhaust)
    with ord show ?thesis by (auto simp: page_end_def sorted_wrt_append)
  qed simp
  have hi: "\<forall>e\<in>set ?q. page_end c ?p < ev_ID e"
  proof (cases "?p = []")
    case True
    then show ?thesis by (auto simp: page_end_def after_def dest!: in_set_dropD)
  next
    case False
    then show ?thesis using ord by (auto simp: page_end_def sorted_wrt_append)
  qed
  have "\<forall>e\<in>set (up_to c es @ ?p). ev_ID e \<le> page_end c ?p" using lo mid by auto
  from up_to_split [OF this hi] split
  show "up_to (page_end c ?p) es = up_to c es @ ?p" "after (page_end c ?p) es = ?q"
    by (simp_all only: append_assoc [symmetric])
qed

lemma page_end_trans: "page_end (page_end c es) fs = page_end c (es @ fs)"
  by (simp add: page_end_def)

text \<open>
  A device that catches up: it pulls pages from its cursor until the server reports that there is no
  more.  The number of pulls is bounded by the fuel; \<open>None\<close> is running out of it.
\<close>

fun pull_all ::
  "nat \<Rightarrow> 's sync_service \<Rightarrow> string \<Rightarrow> int \<Rightarrow> int \<Rightarrow> ('s, (sync_event list \<times> int) option) op"
where
  "pull_all 0 svc dev limit cursor = ret None"
| "pull_all (Suc n) svc dev limit cursor =
     bindE (Pull svc dev cursor limit) (\<lambda>r.
       if pr_HasMore r
       then bindE (pull_all n svc dev limit (pr_Cursor r)) (\<lambda>rest.
              ret (map_option (\<lambda>(es, c). (pr_Events r @ es, c)) rest))
       else ret (Some (pr_Events r, pr_Cursor r)))"

locale event_feed =
  fixes svc :: "'s sync_service"
    and inv :: "'s \<Rightarrow> bool"
    and log :: "'s \<Rightarrow> sync_event list"
  assumes feed_order: "inv s \<Longrightarrow> in_order (log s)"
    and feed_list: "inv s \<Longrightarrow> 0 \<le> limit \<Longrightarrow> vs_ListAfterCursor (ss_events svc) c limit s =
      (Inr (page c limit (log s), nat limit < length (after c (log s))), s)"
    and feed_cursor: "inv s \<Longrightarrow>
      \<exists>t. cs_UpdateCursor (ss_cursors svc) dev c s = (Inr (), t) \<and> inv t \<and> log t = log s"
begin

lemma Pull_page:
  assumes "inv s" "0 \<le> limit"
  shows "\<exists>t. Pull svc dev c limit s =
      (Inr \<lparr>pr_Cursor = page_end c (page c limit (log s)),
            pr_HasMore = (nat limit < length (after c (log s))),
            pr_Events = page c limit (log s)\<rparr>, t) \<and> inv t \<and> log t = log s"
proof -
  obtain t where "cs_UpdateCursor (ss_cursors svc) dev (page_end c (page c limit (log s))) s = (Inr (), t)"
      "inv t" "log t = log s"
    using feed_cursor [OF assms(1)] by blast
  then show ?thesis
    by (auto simp: Pull_def feed_list [OF assms] page_end_def wrapE_def bindE_def Let_def)
qed

lemma pull_all_after:
  assumes "inv s" "0 < limit" "length (after c (log s)) \<le> n * nat limit" "0 < n"
  shows "\<exists>t. pull_all n svc dev limit c s = (Inr (Some (after c (log s), page_end c (after c (log s)))), t)
    \<and> inv t \<and> log t = log s"
  using assms
proof (induction n arbitrary: s c)
  case (Suc n)
  let ?p = "page c limit (log s)" and ?c = "page_end c (page c limit (log s))"
  from Suc.prems Pull_page [of s limit dev c] obtain t where
    pull: "Pull svc dev c limit s = (Inr \<lparr>pr_Cursor = ?c,
      pr_HasMore = (nat limit < length (after c (log s))), pr_Events = ?p\<rparr>, t)"
    and t: "inv t" "log t = log s" by auto
  show ?case
  proof (cases "nat limit < length (after c (log s))")
    case False
    then have "?p = after c (log s)" by (simp add: page_def)
    with False pull t show ?thesis by (simp add: bindE_def)
  next
    case True
    have rest: "after ?c (log s) = drop (nat limit) (after c (log s))"
      using up_to_page_end(2) [OF feed_order [OF Suc.prems(1)]] .
    have "0 < n" using True Suc.prems(3) by (cases n) auto
    moreover have "length (after ?c (log t)) \<le> n * nat limit"
      using Suc.prems(3) rest t by simp
    ultimately obtain u where
      u: "pull_all n svc dev limit ?c t = (Inr (Some (after ?c (log t), page_end ?c (after ?c (log t)))), u)"
        "inv u" "log u = log t"
      using Suc.IH [OF t(1) Suc.prems(2), of ?c] by blast
    have "?p @ after ?c (log s) = after c (log s)"
      by (simp add: page_def rest [unfolded page_def])
    with True pull t u page_end_trans [of c ?p "after ?c (log s)"] show ?thesis
      by (simp add: bindE_def)
  qed
qed simp

end

section \<open>The conflict register\<close>

definition request_ok :: "conflict \<Rightarrow> resolve_request \<Rightarrow> bool" where
  "request_ok cf req \<longleftrightarrow>
     rq_Strategy req = StrategyKeepServer \<or>
     rq_Strategy req = StrategyKeepLocal \<and> cf_LocalPayload cf \<noteq> None \<or>
     rq_Strategy req = StrategyManual \<and> rq_Payload req \<noteq> None"

definition request_error :: "resolve_request \<Rightarrow> error" where
  "request_error req =
     (if rq_Strategy req = StrategyKeepLocal then ErrNoLocalPayload
      else if rq_Strategy req = StrategyManual then ErrPayloadRequired else ErrInvalidStrategy)"

text \<open>\<open>entry s i\<close> is the record of conflict \<open>i\<close>.\<close>

locale conflict_register =
  fixes svc :: "'s sync_service"
    and inv :: "'s \<Rightarrow> bool"
    and entry :: "'s \<Rightarrow> int \<Rightarrow> conflict option"
  assumes reg_get: "inv s \<Longrightarrow> ks_Get (ss_conflicts svc) i s =
      (case entry s i of None \<Rightarrow> (Inl ErrConflictNotFound, s) | Some cf \<Rightarrow> (Inr cf, s))"
    and reg_mark: "inv s \<Longrightarrow> entry s i = Some cf \<Longrightarrow> cf_Status cf = ConflictOpen \<Longrightarrow>
      \<exists>t. ks_MarkResolved (ss_conflicts svc) i dev s = (Inr (), t) \<and> inv t \<and>
          entry t = (entry s)(i \<mapsto> cf\<lparr>cf_Status := ConflictResolved\<rparr>)"
    and reg_force: "inv s \<Longrightarrow>
      \<exists>t. forceUpsert svc cf p dev s = (Inr (), t) \<and> inv t \<and> entry t = entry s"
begin

lemma resolve_unknown:
  "inv s \<Longrightarrow> entry s i = None \<Longrightarrow> ResolveConflict svc dev i req s = (Inl ErrConflictNotFound, s)"
  by (simp add: ResolveConflict_def bindE_def reg_get)

lemma resolve_closed:
  "inv s \<Longrightarrow> entry s i = Some cf \<Longrightarrow> cf_Status cf \<noteq> ConflictOpen \<Longrightarrow>
     ResolveConflict svc dev i req s = (Inl ErrConflictResolved, s)"
  by (simp add: ResolveConflict_def bindE_def reg_get)

lemma resolve_refused:
  "inv s \<Longrightarrow> entry s i = Some cf \<Longrightarrow> cf_Status cf = ConflictOpen \<Longrightarrow> \<not> request_ok cf req \<Longrightarrow>
     ResolveConflict svc dev i req s = (Inl (request_error req), s)"
  by (auto simp: ResolveConflict_def resolve_write_def request_ok_def request_error_def bindE_def reg_get)

lemma resolve_accepted:
  assumes "inv s" "entry s i = Some cf" "cf_Status cf = ConflictOpen" "request_ok cf req"
  shows "\<exists>t. ResolveConflict svc dev i req s = (Inr (), t) \<and> inv t \<and>
    entry t = (entry s)(i \<mapsto> cf\<lparr>cf_Status := ConflictResolved\<rparr>)"
proof -
  have "\<exists>t. resolve_write svc dev cf req s = (Inr (), t) \<and> inv t \<and> entry t = entry s"
    using assms(1,4) reg_force by (auto simp: resolve_write_def request_ok_def)
  then obtain t where t: "resolve_write svc dev cf req s = (Inr (), t)" "inv t" "entry t = entry s"
    by blast
  with reg_mark [of t i cf dev] assms(2,3) obtain u where
    "ks_MarkResolved (ss_conflicts svc) i dev t = (Inr (), u)" "inv u"
    "entry u = (entry s)(i \<mapsto> cf\<lparr>cf_Status := ConflictResolved\<rparr>)" by auto
  with t assms(1-3) show ?thesis by (simp add: ResolveConflict_def bindE_def reg_get)
qed

text \<open>However the resolution ends, a second one of the same conflict changes nothing if it succeeded.\<close>

lemma resolve_once:
  assumes "inv s" "ResolveConflict svc dev i req s = (Inr (), t)"
  shows "ResolveConflict svc dev' i req' t = (Inl ErrConflictResolved, t)"
proof (cases "entry s i")
  case None
  with assms resolve_unknown show ?thesis by simp
next
  case (Some cf)
  with assms resolve_closed resolve_refused
  have "cf_Status cf = ConflictOpen" "request_ok cf req" by fastforce+
  with resolve_accepted [OF assms(1) Some, of req dev] assms(2)
  have "inv t" "entry t i = Some (cf\<lparr>cf_Status := ConflictResolved\<rparr>)" by auto
  then show ?thesis using resolve_closed by simp
qed

end

end
