(* ===== verification/MemSteps.thy ===== *)
theory MemSteps
  imports MemInv Contracts
begin

text \<open>
  What each method of the in-memory store does, in terms of the lock's decision and of the two
  elementary writes; the step relation of the store and its reachable states.
\<close>

section \<open>The methods against the lock's decision\<close>

definition written_book :: "change \<Rightarrow> memory_book option \<Rightarrow> int \<Rightarrow> memory_book" where
  "written_book c old r =
     \<lparr>bk_revision = r, bk_deleted = (c_Op c = OpDelete),
      bk_payload = (if c_Op c = OpDelete then (case old of None \<Rightarrow> None | Some b \<Rightarrow> bk_payload b)
                    else c_Payload c)\<rparr>"

definition written_entity :: "change \<Rightarrow> memory_entity option \<Rightarrow> int \<Rightarrow> memory_entity" where
  "written_entity c old r =
     \<lparr>en_revision = r, en_deleted = (c_Op c = OpDelete),
      en_payload = (if c_Op c = OpDelete then (case old of None \<Rightarrow> None | Some e \<Rightarrow> en_payload e)
                    else c_Payload c)\<rparr>"

definition with_conflict :: "clock \<Rightarrow> change \<Rightarrow> string \<Rightarrow> raw \<Rightarrow> int \<Rightarrow> mem_sync \<Rightarrow> mem_sync" where
  "with_conflict clk c dev p r s =
     with_event clk c dev r StatusConflict s
       \<lparr>ms_nextConflictID := ms_nextConflictID s + 1,
        ms_conflicts := ms_conflicts s @ [conflict_record clk (ms_nextConflictID s + 1) c p r]\<rparr>"

definition conflict_outcome :: "mem_sync \<Rightarrow> change_outcome" where
  "conflict_outcome s = no_outcome\<lparr>oc_Reason := ReasonConflict, oc_EventID := ms_nextEventID s + 1,
     oc_ConflictID := ms_nextConflictID s + 1\<rparr>"

definition written_outcome :: "int \<Rightarrow> mem_sync \<Rightarrow> change_outcome" where
  "written_outcome r s = no_outcome\<lparr>oc_Accepted := True, oc_Revision := r, oc_EventID := ms_nextEventID s + 1\<rparr>"

definition book_verdict :: "mem_sync \<Rightarrow> change \<Rightarrow> verdict" where
  "book_verdict s c = lock_verdict (ms_changeIDs s (c_ChangeID c) \<noteq> None)
     (map_option bk_revision (map_of (ms_books s) (c_EntityID c))) (c_Op c) (c_BaseRevision c)"

definition entity_verdict :: "mem_sync \<Rightarrow> change \<Rightarrow> verdict" where
  "entity_verdict s c = lock_verdict (ms_changeIDs s (c_ChangeID c) \<noteq> None)
     (map_option en_revision (ms_entities s (entity_key (c_EntityType c) (c_EntityID c))))
     (c_Op c) (c_BaseRevision c)"

lemma full_updates:
  "b\<lparr>bk_deleted := d, bk_payload := p, bk_revision := r\<rparr> = \<lparr>bk_revision = r, bk_deleted = d, bk_payload = p\<rparr>"
  "b\<lparr>bk_deleted := d, bk_revision := r\<rparr> = \<lparr>bk_revision = r, bk_deleted = d, bk_payload = bk_payload b\<rparr>"
  "b\<lparr>bk_revision := r, bk_deleted := d, bk_payload := p\<rparr> = \<lparr>bk_revision = r, bk_deleted = d, bk_payload = p\<rparr>"
  "e\<lparr>en_deleted := d, en_payload := p, en_revision := r\<rparr> = \<lparr>en_revision = r, en_deleted = d, en_payload = p\<rparr>"
  "e\<lparr>en_deleted := d, en_revision := r\<rparr> = \<lparr>en_revision = r, en_deleted = d, en_payload = en_payload e\<rparr>"
  "e\<lparr>en_revision := r, en_deleted := d, en_payload := p\<rparr> = \<lparr>en_revision = r, en_deleted = d, en_payload = p\<rparr>"
  by (cases b; cases e; simp)+

lemma conflict_helpers:
  "appendBookConflictLocked clk c dev r s =
     (conflict_outcome s, with_conflict clk c dev
        (case map_of (ms_books s) (c_EntityID c) of None \<Rightarrow> None | Some b \<Rightarrow> bk_payload b) r s)"
  "appendConflictLocked clk c dev r s =
     (conflict_outcome s, with_conflict clk c dev
        (case ms_entities s (entity_key (c_EntityType c) (c_EntityID c)) of
           None \<Rightarrow> None | Some e \<Rightarrow> en_payload e) r s)"
  by (simp_all add: appendBookConflictLocked_def appendConflictLocked_def with_conflict_def
      conflict_outcome_def case_prod_beta Let_def no_outcome_def split: option.splits)

lemma mem_ApplyBookChange_eq:
  "mem_ApplyBookChange clk c src dev s =
     (let old = map_of (ms_books s) (c_EntityID c) in
      case book_verdict s c of
        VDuplicate \<Rightarrow> (Inr duplicate_outcome, s)
      | VNothing \<Rightarrow> (Inr accepted_outcome, s)
      | VReject \<Rightarrow> (Inr reject_outcome, s)
      | VConflict r \<Rightarrow> (Inr (conflict_outcome s),
          with_conflict clk c dev (case old of None \<Rightarrow> None | Some b \<Rightarrow> bk_payload b) r s)
      | VWrite r \<Rightarrow> (Inr (written_outcome r s),
          with_event clk c dev r StatusDone (put_book (c_EntityID c) (written_book c old r) s)))"
  by (auto simp: mem_ApplyBookChange_def book_verdict_def lock_verdict_def conflict_helpers
      written_book_def duplicate_outcome_def accepted_outcome_def reject_outcome_def
      written_outcome_def case_prod_beta full_updates Let_def split: option.splits)

lemma mem_ApplyChange_eq:
  "mem_ApplyChange clk c dev s =
     (let key = entity_key (c_EntityType c) (c_EntityID c); old = ms_entities s key in
      case entity_verdict s c of
        VDuplicate \<Rightarrow> (Inr duplicate_outcome, s)
      | VNothing \<Rightarrow> (Inr accepted_outcome, s)
      | VReject \<Rightarrow> (Inr reject_outcome, s)
      | VConflict r \<Rightarrow> (Inr (conflict_outcome s),
          with_conflict clk c dev (case old of None \<Rightarrow> None | Some e \<Rightarrow> en_payload e) r s)
      | VWrite r \<Rightarrow> (Inr (written_outcome r s),
          with_event clk c dev r StatusDone (put_entity key (written_entity c old r) s)))"
  by (auto simp: mem_ApplyChange_def entity_verdict_def lock_verdict_def conflict_helpers
      written_entity_def duplicate_outcome_def accepted_outcome_def reject_outcome_def
      written_outcome_def case_prod_beta full_updates Let_def split: option.splits)

lemma overwrite_book_eq:
  "overwrite_book u p s =
     (book_revision s u + 1,
      put_book u \<lparr>bk_revision = book_revision s u + 1, bk_deleted = False, bk_payload = p\<rparr> s)"
  by (auto simp: overwrite_book_def book_revision_def full_updates split: option.splits)

lemma mem_ForceUpsertBook_eq:
  "mem_ForceUpsertBook clk u p dev s =
     (Inr (written_outcome (book_revision s u + 1) s),
      with_event clk (book_change (''force-'' @ u) u OpUpsert p) dev (book_revision s u + 1) StatusDone
        (put_book u \<lparr>bk_revision = book_revision s u + 1, bk_deleted = False, bk_payload = p\<rparr> s))"
  by (simp add: mem_ForceUpsertBook_def overwrite_book_eq case_prod_beta full_updates written_outcome_def)

lemma mem_ForceUpsert_eq:
  "mem_ForceUpsert clk t i p dev s =
     (let k = entity_key t i; r = entity_revision s k + 1 in
      (Inr (written_outcome r s),
       with_event clk \<lparr>c_ChangeID = [], c_EntityType = t, c_EntityID = i, c_Op = OpUpsert,
           c_BaseRevision = 0, c_Payload = p\<rparr> dev r StatusDone
         (put_entity k \<lparr>en_revision = r, en_deleted = False, en_payload = p\<rparr> s)))"
  by (auto simp: mem_ForceUpsert_def entity_revision_def case_prod_beta full_updates written_outcome_def Let_def
      split: option.splits)

section \<open>Preservation of the invariant\<close>

lemma book_verdict_write_rev:
  "book_verdict s c = VWrite r \<Longrightarrow> r = book_revision s (c_EntityID c) + 1"
  by (auto simp: book_verdict_def lock_verdict_VWrite_iff book_revision_def split: option.splits)

lemma entity_verdict_write_rev:
  "entity_verdict s c = VWrite r \<Longrightarrow>
     r = entity_revision s (entity_key (c_EntityType c) (c_EntityID c)) + 1"
  by (auto simp: entity_verdict_def lock_verdict_VWrite_iff entity_revision_def split: option.splits)

lemma with_conflict_inv: "mem_inv s \<Longrightarrow> mem_inv (with_conflict clk c dev p r s)"
  unfolding with_conflict_def by (rule conflict_write_inv)

lemma mem_ApplyBookChange_inv:
  assumes "mem_inv s" "c_EntityType c = EntityBook"
  shows "mem_inv (snd (mem_ApplyBookChange clk c src dev s))"
proof (cases "book_verdict s c")
  case (VWrite r)
  then show ?thesis
    using assms by (auto simp: mem_ApplyBookChange_eq Let_def written_book_def
        dest: book_verdict_write_rev intro!: book_write_inv)
qed (use assms in \<open>simp_all add: mem_ApplyBookChange_eq Let_def with_conflict_inv\<close>)

lemma mem_ApplyChange_inv:
  assumes "mem_inv s" "c_EntityType c \<noteq> EntityBook"
  shows "mem_inv (snd (mem_ApplyChange clk c dev s))"
proof (cases "entity_verdict s c")
  case (VWrite r)
  then show ?thesis
    using assms by (auto simp: mem_ApplyChange_eq Let_def written_entity_def
        dest: entity_verdict_write_rev intro!: entity_write_inv)
qed (use assms in \<open>simp_all add: mem_ApplyChange_eq Let_def with_conflict_inv\<close>)

lemma book_change_fields [simp]:
  "c_EntityType (book_change i u opn p) = EntityBook" "c_EntityID (book_change i u opn p) = u"
  "c_Op (book_change i u opn p) = opn" "c_Payload (book_change i u opn p) = p"
  "c_ChangeID (book_change i u opn p) = i"
  by (simp_all add: book_change_def)

lemma mem_ForceUpsertBook_inv: "mem_inv s \<Longrightarrow> mem_inv (snd (mem_ForceUpsertBook clk u p dev s))"
  by (auto simp: mem_ForceUpsertBook_eq intro!: book_write_inv)

lemma mem_ForceUpsert_inv:
  "mem_inv s \<Longrightarrow> t \<noteq> EntityBook \<Longrightarrow> mem_inv (snd (mem_ForceUpsert clk t i p dev s))"
  by (auto simp: mem_ForceUpsert_eq Let_def intro!: entity_write_inv)

lemma restore_item_eq:
  "restore_item clk dev item (m, s) =
     (max (book_revision s (it_UUID item) + 1) m,
      with_event clk (book_change (''restore-'' @ it_UUID item) (it_UUID item) OpUpsert (snapshotItemPayload item))
        dev (book_revision s (it_UUID item) + 1) StatusDone
        (put_book (it_UUID item) \<lparr>bk_revision = book_revision s (it_UUID item) + 1, bk_deleted = False,
           bk_payload = snapshotItemPayload item\<rparr> s))"
  by (simp add: restore_item_def overwrite_book_eq case_prod_beta Let_def max_def)

lemma restore_delete_eq:
  "restore_delete clk dev u (m, s) =
     (case map_of (ms_books s) u of
        None \<Rightarrow> (m, s)
      | Some b \<Rightarrow>
          (max (bk_revision b + 1) m,
           with_event clk (book_change (''restore-del-'' @ u) u OpDelete None) dev (bk_revision b + 1) StatusDone
             (put_book u (b\<lparr>bk_revision := bk_revision b + 1, bk_deleted := True\<rparr>) s)))"
  by (simp add: restore_delete_def case_prod_beta Let_def max_def split: option.splits)

lemma restore_item_inv: "mem_inv s \<Longrightarrow> mem_inv (snd (restore_item clk dev item (m, s)))"
  by (auto simp: restore_item_eq intro!: book_write_inv)

lemma restore_delete_inv: "mem_inv s \<Longrightarrow> mem_inv (snd (restore_delete clk dev u (m, s)))"
  by (auto simp: restore_delete_eq book_revision_def intro!: book_write_inv split: option.splits)

lemma fold_restore_item_inv: "mem_inv (snd ms) \<Longrightarrow> mem_inv (snd (fold (restore_item clk dev) its ms))"
  by (induction its arbitrary: ms) (simp_all, metis restore_item_inv prod.collapse)

lemma fold_restore_delete_inv: "mem_inv (snd ms) \<Longrightarrow> mem_inv (snd (fold (restore_delete clk dev) us ms))"
  by (induction us arbitrary: ms) (simp_all, metis restore_delete_inv prod.collapse)

text \<open>The two folds of a restore, as one pair.\<close>

definition restore_first ::
  "clock \<Rightarrow> string \<Rightarrow> book_snapshot_item list \<Rightarrow> mem_sync \<Rightarrow> int \<times> mem_sync" where
  "restore_first clk dev its s = fold (restore_item clk dev) its (0, s)"

definition restore_rest :: "book_snapshot_item list \<Rightarrow> mem_sync \<Rightarrow> string list" where
  "restore_rest its s = filter (\<lambda>u. u \<notin> set (map it_UUID its)) (live_uuids (ms_books s))"

lemma mem_RestoreLibrary_eq:
  "mem_RestoreLibrary clk iter snap dev s =
     (if \<not> snd (json_Unmarshal dec_items None snap) then (Inl ErrJSON, s)
      else let its = slice_list (fst (json_Unmarshal dec_items None snap));
               final = fold (restore_delete clk dev) (iter (restore_rest its s)) (restore_first clk dev its s)
           in (Inr \<lparr>rr_Restored = int (length its), rr_Revision = fst final\<rparr>, snd final))"
  by (simp add: mem_RestoreLibrary_def restore_first_def restore_rest_def case_prod_beta Let_def)

lemma mem_RestoreLibrary_inv: "mem_inv s \<Longrightarrow> mem_inv (snd (mem_RestoreLibrary clk iter snap dev s))"
  by (auto simp: mem_RestoreLibrary_eq Let_def restore_first_def
      intro!: fold_restore_delete_inv fold_restore_item_inv)

lemma mem_InsertSnapshot_inv: "mem_inv s \<Longrightarrow> mem_inv (snd (mem_InsertSnapshot clk t g p s))"
  by (auto simp: mem_InsertSnapshot_def Let_def mem_inv_defs upto_ids_Suc event_log_def
      live_library_def live_entities_def book_revision_def entity_revision_def fun_eq_iff)

lemma mem_UpdateCursor_inv: "mem_inv s \<Longrightarrow> mem_inv (snd (mem_UpdateCursor d i s))"
  by (auto simp: mem_UpdateCursor_def mem_inv_defs event_log_def
      live_library_def live_entities_def book_revision_def entity_revision_def fun_eq_iff)

lemma mark_resolved_loop_shape:
  "mark_resolved_loop i cs = Inr ds \<Longrightarrow>
     map (cf_ID \<circ> mc_Conflict) ds = map (cf_ID \<circ> mc_Conflict) cs \<and> length ds = length cs \<and>
     (\<forall>d\<in>set ds. d \<in> set cs \<or> cf_Status (mc_Conflict d) = ConflictResolved)"
proof (induction cs arbitrary: ds)
  case (Cons c cs)
  then show ?case
    by (cases "mark_resolved_loop i cs") (auto split: if_splits)
qed simp

lemma mem_MarkResolved_inv: "mem_inv s \<Longrightarrow> mem_inv (snd (mem_MarkResolved i dev s))"
proof (cases "mark_resolved_loop i (ms_conflicts s)")
  case (Inr cs)
  assume "mem_inv s"
  with mark_resolved_loop_shape [OF Inr] Inr show ?thesis
    by (auto simp: mem_MarkResolved_def mem_inv_defs event_log_def
      live_library_def live_entities_def book_revision_def entity_revision_def fun_eq_iff)
qed (simp add: mem_MarkResolved_def)

end
