(* ===== verification/MemReach.thy ===== *)
theory MemReach
  imports MemSteps
begin

text \<open>
  The in-memory store as a transition system: one step is one call of a method of the store by anyone,
  in any order; the clock and the range order may differ from call to call.  Its reachable states
  satisfy the invariant; the log only grows; what a pull lists; the contract of the optimistic
  lock, for books and for entities.
\<close>

section \<open>Steps\<close>

text \<open>
  \<open>SyncService\<close> sends every change of type \<open>book\<close> to the book methods and every other one to the
  entity methods (\<open>Push\<close>, \<open>forceUpsert\<close>), which the premises on the type record.
\<close>

inductive mem_step :: "mem_sync \<Rightarrow> mem_sync \<Rightarrow> bool" where
  step_entity: "c_EntityType c \<noteq> EntityBook \<Longrightarrow> mem_step s (snd (mem_ApplyChange clk c dev s))"
| step_book: "c_EntityType c = EntityBook \<Longrightarrow> mem_step s (snd (mem_ApplyBookChange clk c src dev s))"
| step_force: "t \<noteq> EntityBook \<Longrightarrow> mem_step s (snd (mem_ForceUpsert clk t i p dev s))"
| step_force_book: "mem_step s (snd (mem_ForceUpsertBook clk u p dev s))"
| step_restore: "range_order iter \<Longrightarrow> mem_step s (snd (mem_RestoreLibrary clk iter p dev s))"
| step_history: "mem_step s (snd (mem_InsertSnapshot clk opType tag p s))"
| step_cursor: "mem_step s (snd (mem_UpdateCursor dev i s))"
| step_resolved: "mem_step s (snd (mem_MarkResolved i dev s))"

inductive mem_reach :: "mem_sync \<Rightarrow> bool" where
  reach_init: "mem_reach NewMemorySyncStore"
| reach_step: "mem_reach s \<Longrightarrow> mem_step s t \<Longrightarrow> mem_reach t"

lemma mem_step_inv: "mem_step s t \<Longrightarrow> mem_inv s \<Longrightarrow> mem_inv t"
  by (induction rule: mem_step.induct)
    (simp_all add: mem_ApplyChange_inv mem_ApplyBookChange_inv mem_ForceUpsert_inv mem_ForceUpsertBook_inv
      mem_RestoreLibrary_inv mem_InsertSnapshot_inv mem_UpdateCursor_inv mem_MarkResolved_inv)

lemma mem_reach_inv: "mem_reach s \<Longrightarrow> mem_inv s"
  by (induction rule: mem_reach.induct) (auto intro: mem_inv_init mem_step_inv)

lemma mem_steps_reach: "mem_step\<^sup>*\<^sup>* s t \<Longrightarrow> mem_reach s \<Longrightarrow> mem_reach t"
  by (induction rule: rtranclp_induct) (auto intro: reach_step)

section \<open>The log only grows\<close>

text \<open>
  What may become of the store: events, used change identifiers and history records are only added,
  and books and entities are never dropped (a deletion leaves a tombstone).
\<close>

definition grows :: "mem_sync \<Rightarrow> mem_sync \<Rightarrow> bool" where
  "grows s t \<longleftrightarrow> (\<exists>es. ms_events t = ms_events s @ es) \<and>
     dom (ms_changeIDs s) \<subseteq> dom (ms_changeIDs t) \<and>
     (\<exists>hs. ms_history t = ms_history s @ hs) \<and>
     dom (map_of (ms_books s)) \<subseteq> dom (map_of (ms_books t)) \<and>
     dom (ms_entities s) \<subseteq> dom (ms_entities t)"

lemma grows_refl [simp, intro]: "grows s s"
  by (simp add: grows_def)

lemma grows_trans [trans]: "grows s t \<Longrightarrow> grows t u \<Longrightarrow> grows s u"
  unfolding grows_def by (metis append_assoc subset_trans)

lemma grows_with_event [intro]: "grows s t \<Longrightarrow> grows s (with_event clk c dev r st t)"
  by (auto simp: grows_def append_event_events)

lemma grows_put [intro]: "grows s t \<Longrightarrow> grows s (put_book u b t)" "grows s t \<Longrightarrow> grows s (put_entity k e t)"
  by (auto simp: grows_def subset_insertI2)

lemma grows_with_conflict [intro]: "grows s t \<Longrightarrow> grows s (with_conflict clk c dev p r t)"
  by (auto simp: grows_def with_conflict_def append_event_events)

lemma grows_restore_item: "grows s (snd ms) \<Longrightarrow> grows s (snd (restore_item clk dev item ms))"
  by (cases ms) (auto simp: restore_item_eq)

lemma grows_restore_delete: "grows s (snd ms) \<Longrightarrow> grows s (snd (restore_delete clk dev u ms))"
  by (cases ms) (auto simp: restore_delete_eq split: option.splits)

lemma grows_fold_item: "grows s (snd ms) \<Longrightarrow> grows s (snd (fold (restore_item clk dev) its ms))"
  by (induction its arbitrary: ms) (simp_all add: grows_restore_item)

lemma grows_fold_delete: "grows s (snd ms) \<Longrightarrow> grows s (snd (fold (restore_delete clk dev) us ms))"
  by (induction us arbitrary: ms) (simp_all add: grows_restore_delete)

lemma mem_step_grows: "mem_step s t \<Longrightarrow> grows s t"
proof (induction rule: mem_step.induct)
  case (step_entity c s clk dev)
  then show ?case by (auto simp: mem_ApplyChange_eq Let_def split: verdict.splits)
next
  case (step_book c s clk src dev)
  then show ?case by (auto simp: mem_ApplyBookChange_eq Let_def split: verdict.splits)
next
  case (step_restore iter s clk p dev)
  then show ?case by (auto simp: mem_RestoreLibrary_eq Let_def restore_first_def intro!: grows_fold_item grows_fold_delete)
next
  case (step_resolved s i dev)
  then show ?case by (auto simp: mem_MarkResolved_def grows_def split: sum.splits)
qed (auto simp: mem_ForceUpsert_eq mem_ForceUpsertBook_eq Let_def mem_InsertSnapshot_def
       mem_UpdateCursor_def grows_def append_event_events)

lemma mem_steps_grow: "mem_step\<^sup>*\<^sup>* s t \<Longrightarrow> grows s t"
  by (induction rule: rtranclp_induct) (auto intro: grows_trans mem_step_grows)

lemma grows_log: "grows s t \<Longrightarrow> \<exists>es. event_log t = event_log s @ es"
  by (auto simp: grows_def event_log_def)

lemma grows_revisions:
  assumes "grows s t" "mem_inv s" "mem_inv t"
  shows "book_revision s u \<le> book_revision t u" "entity_revision s k \<le> entity_revision t k"
  using grows_log [OF assms(1)] assms(2,3)
  by (auto simp: mem_inv_def log_ok_def intro: book_writes_prefix entity_writes_prefix)

section \<open>What a pull lists\<close>

lemma list_after_loop_eq:
  assumes "0 \<le> limit" "int (length acc) \<le> limit"
  shows "list_after_loop c limit es acc =
    (acc @ take (nat limit - length acc) (after c (map me_event (filter deliverable es))),
     nat limit - length acc < length (after c (map me_event (filter deliverable es))))"
  using assms(2)
proof (induction es arbitrary: acc)
  case (Cons e es)
  show ?case
  proof (cases "c < ev_ID (me_event e) \<and> deliverable e")
    case False
    with Cons show ?thesis by (auto simp: after_def deliverable_def)
  next
    case True
    show ?thesis
    proof (cases "int (length acc) = limit")
      case full: True
      then have "nat limit - length acc = 0" by simp
      with full True show ?thesis by (auto simp: after_def deliverable_def)
    next
      case False
      with Cons.prems obtain m where m: "nat limit - length acc = Suc m"
        by (metis Suc_diff_Suc assms(1) int_nat_eq le_neq_implies_less nat_int nat_less_iff of_nat_le_iff)
      then have "nat limit - length (acc @ [me_event e]) = m" by simp
      with m True False Cons.prems Cons.IH [of "acc @ [me_event e]"] show ?thesis
        by (auto simp: after_def deliverable_def)
    qed
  qed
qed (simp add: after_def)

lemma mem_ListAfterCursor_eq:
  "mem_ListAfterCursor c limit s =
     (if limit < 0 then (Inl ErrPanic, s)
      else (Inr (page c limit (event_log s), nat limit < length (after c (event_log s))), s))"
  by (simp add: mem_ListAfterCursor_def list_after_loop_eq page_def event_log_def)

lemma event_log_in_order: "mem_inv s \<Longrightarrow> in_order (event_log s)"
proof -
  assume "mem_inv s"
  then have "sorted_wrt (<) (map (ev_ID \<circ> me_event) (ms_events s))"
    by (simp add: mem_inv_def ids_ok_def sorted_upto_ids)
  then have "sorted_wrt (\<lambda>d e. ev_ID (me_event d) < ev_ID (me_event e)) (filter deliverable (ms_events s))"
    by (simp add: sorted_wrt_map sorted_wrt_filter)
  then show ?thesis by (simp add: event_log_def sorted_wrt_map)
qed

section \<open>The lock contract\<close>

definition book_rev :: "change \<Rightarrow> mem_sync \<Rightarrow> int option" where
  "book_rev c s = map_option bk_revision (map_of (ms_books s) (c_EntityID c))"

definition entity_rev :: "change \<Rightarrow> mem_sync \<Rightarrow> int option" where
  "entity_rev c s = map_option en_revision (ms_entities s (entity_key (c_EntityType c) (c_EntityID c)))"

lemma rev_mono:
  assumes "grows s t" "mem_inv s" "mem_inv t"
  shows "book_rev c s = Some r \<Longrightarrow> \<exists>q\<ge>r. book_rev c t = Some q"
    and "entity_rev c s = Some r \<Longrightarrow> \<exists>q\<ge>r. entity_rev c t = Some q"
proof -
  note up = grows_revisions [OF assms]
  show "\<exists>q\<ge>r. book_rev c t = Some q" if "book_rev c s = Some r"
  proof -
    have "c_EntityID c \<in> dom (map_of (ms_books s))" using that by (auto simp: book_rev_def)
    then have "c_EntityID c \<in> dom (map_of (ms_books t))" using assms(1) by (auto simp only: grows_def)
    then obtain b where "map_of (ms_books t) (c_EntityID c) = Some b" by blast
    then show ?thesis using that up(1) [of "c_EntityID c"] by (auto simp: book_rev_def book_revision_def)
  qed
  show "\<exists>q\<ge>r. entity_rev c t = Some q" if "entity_rev c s = Some r"
  proof -
    let ?k = "entity_key (c_EntityType c) (c_EntityID c)"
    have "?k \<in> dom (ms_entities s)" using that by (auto simp: entity_rev_def)
    then have "?k \<in> dom (ms_entities t)" using assms(1) by (auto simp only: grows_def)
    then obtain e where "ms_entities t ?k = Some e" by blast
    then show ?thesis using that up(2) [of ?k] by (auto simp: entity_rev_def entity_revision_def)
  qed
qed

interpretation mem_books: lock_store mem_inv mem_step "(=)" "\<lambda>_ c. c_EntityType c = EntityBook"
  "\<lambda>(clk, src, dev) c. mem_ApplyBookChange clk c src dev" "\<lambda>s. dom (ms_changeIDs s)" book_rev
proof (unfold_locales, goal_cases)
  case (1 s t) then show ?case by (rule mem_step_inv [rotated])
next
  case (2 s t) then show ?case using mem_step_grows by (auto simp: grows_def)
next
  case (3 s t c r) then show ?case using mem_step_grows mem_step_inv rev_mono(1) by blast
next
  case (4 s c r) then show ?case by (fastforce simp: mem_inv_def books_ok_def book_rev_def)
next
  case (5 env c s) then show ?case by (cases env) (simp add: step_book)
next
  case (6 s env c res t)
  have "ms_nextConflictID s + 1 \<noteq> 0" using 6 by (simp add: mem_inv_def ids_ok_def)
  moreover have "\<forall>b. map_of (ms_books s) (c_EntityID c) = Some b \<longrightarrow> bk_revision b + 1 \<noteq> 0"
    using 6 by (fastforce simp: mem_inv_def books_ok_def)
  moreover have v: "book_verdict s c = lock_verdict (c_ChangeID c \<in> dom (ms_changeIDs s)) (book_rev c s) (c_Op c) (c_BaseRevision c)"
    by (simp add: book_verdict_def book_rev_def domIff)
  ultimately show ?case
    unfolding v [symmetric] using 6
    by (cases env; cases "book_verdict s c"; intro disjI2)
      (auto simp: mem_ApplyBookChange_eq Let_def conflicting_def written_def conflict_outcome_def written_outcome_def
        no_outcome_def with_conflict_def written_book_def book_verdict_def book_rev_def lock_verdict_def split: option.splits if_splits)
qed

interpretation mem_entities: lock_store mem_inv mem_step "(=)" "\<lambda>_ c. c_EntityType c \<noteq> EntityBook"
  "\<lambda>(clk, dev) c. mem_ApplyChange clk c dev" "\<lambda>s. dom (ms_changeIDs s)" entity_rev
proof (unfold_locales, goal_cases)
  case (1 s t) then show ?case by (rule mem_step_inv [rotated])
next
  case (2 s t) then show ?case using mem_step_grows by (auto simp: grows_def)
next
  case (3 s t c r) then show ?case using mem_step_grows mem_step_inv rev_mono(2) by blast
next
  case (4 s c r) then show ?case by (fastforce simp: mem_inv_def books_ok_def entity_rev_def)
next
  case (5 env c s) then show ?case by (cases env) (simp add: step_entity)
next
  case (6 s env c res t)
  have "ms_nextConflictID s + 1 \<noteq> 0" using 6 by (simp add: mem_inv_def ids_ok_def)
  moreover have "\<forall>k e. ms_entities s k = Some e \<longrightarrow> en_revision e + 1 \<noteq> 0"
    using 6 by (fastforce simp: mem_inv_def books_ok_def)
  moreover have v: "entity_verdict s c = lock_verdict (c_ChangeID c \<in> dom (ms_changeIDs s)) (entity_rev c s) (c_Op c) (c_BaseRevision c)"
    by (simp add: entity_verdict_def entity_rev_def domIff)
  ultimately show ?case
    unfolding v [symmetric] using 6
    by (cases env; cases "entity_verdict s c"; intro disjI2)
      (auto simp: mem_ApplyChange_eq Let_def conflicting_def written_def conflict_outcome_def written_outcome_def
        no_outcome_def with_conflict_def written_entity_def entity_verdict_def entity_rev_def lock_verdict_def split: option.splits if_splits)
qed

text \<open>
  The dispatch of \<open>Push\<close>: changes of books go to the book store, all others to the entity store.  The
  two parts share the change identifiers, so they satisfy the contract together.
\<close>

definition mem_apply :: "clock \<times> string \<times> string \<Rightarrow> change \<Rightarrow> (mem_sync, change_outcome) op" where
  "mem_apply env c =
     (case env of (clk, source, deviceID) \<Rightarrow>
        if c_EntityType c = EntityBook then mem_ApplyBookChange clk c source deviceID
        else mem_ApplyChange clk c deviceID)"

definition current_rev :: "change \<Rightarrow> mem_sync \<Rightarrow> int option" where
  "current_rev c = (if c_EntityType c = EntityBook then book_rev c else entity_rev c)"

lemma current_rev_same:
  "c_EntityType d = c_EntityType c \<Longrightarrow> c_EntityID d = c_EntityID c \<Longrightarrow> current_rev d = current_rev c"
  by (auto simp: current_rev_def book_rev_def entity_rev_def fun_eq_iff)

interpretation mem_lock: lock_store mem_inv mem_step "(=)" "\<lambda>_ _. True" mem_apply
  "\<lambda>s. dom (ms_changeIDs s)" current_rev
proof (unfold_locales, goal_cases)
  case (1 s t) then show ?case by (rule mem_books.step_inv)
next
  case (2 s t) then show ?case by (rule mem_books.step_seen)
next
  case (3 s t c r)
  then show ?case using mem_books.step_rev mem_entities.step_rev by (simp add: current_rev_def split: if_splits)
next
  case (4 s c r)
  then show ?case using mem_books.rev_pos mem_entities.rev_pos by (simp add: current_rev_def split: if_splits)
next
  case (5 env c s) then show ?case by (cases env) (auto simp: mem_apply_def step_book step_entity)
next
  case (6 s env c res t)
  obtain clk src dev where env: "env = (clk, src, dev)" by (cases env)
  show ?case
  proof (cases "c_EntityType c = EntityBook")
    case True
    then have "mem_apply env c = mem_ApplyBookChange clk c src dev" "current_rev c = book_rev c"
      by (simp_all add: env mem_apply_def current_rev_def fun_eq_iff)
    with mem_books.apply_verdict [OF 6(1) True, of env res t] 6(3) show ?thesis by (simp only: env prod.case)
  next
    case False
    then have "mem_apply env c = mem_ApplyChange clk c dev" "current_rev c = entity_rev c"
      by (simp_all add: env mem_apply_def current_rev_def fun_eq_iff)
    with mem_entities.apply_verdict [OF 6(1) False, of "(clk, dev)" res t] 6(3) show ?thesis by (simp only: prod.case)
  qed
qed

lemma mem_apply_total: "\<exists>w t. mem_apply env c s = (Inr w, t)"
  by (cases env) (auto simp: mem_apply_def mem_ApplyBookChange_eq mem_ApplyChange_eq Let_def split: verdict.splits)

end
