(* ===== verification/Database.thy ===== *)
theory Database
  imports SyncModel
begin

text \<open>
  The PostgreSQL database that the server runs on: the tables of \<open>schema\<close> in \<open>internal/store/db.go\<close>,
  statements and transactions.  A statement may fail for reasons of its own: \<open>db_faults\<close> says for each
  statement sent, in order, whether it does (past the end none does).  A transaction runs alone and is
  undone as a whole when it does not commit, except for the sequences behind \<open>BIGSERIAL\<close>, which
  PostgreSQL does not take back.  A table whose rows are enumerated is an association list from its
  primary key or a list in the order of its sequence; the time columns that no query reads are left out.
  \<open>db_random\<close> is what the process's \<open>crypto/rand\<close> delivers next, \<open>None\<close> a failure to deliver.
\<close>

section \<open>Tables\<close>

record device_row =
  dr_name :: string
  dr_platform :: string
  dr_key_hash :: string
  dr_created_at :: time
  dr_last_seen_at :: time

record book_row =
  br_name :: string
  br_current_page :: int
  br_cover_hash :: "string option"
  br_files :: json
  br_revision :: int
  br_progress_revision :: int
  br_deleted :: bool

record entity_row =
  er_revision :: int
  er_deleted :: bool
  er_payload :: raw

record event_row =
  vr_id :: int
  vr_change_id :: string
  vr_entity_type :: string
  vr_entity_id :: string
  vr_revision :: int
  vr_device_id :: string
  vr_op :: string
  vr_payload :: raw
  vr_status :: string
  vr_created_at :: time

record conflict_row =
  kr_id :: int
  kr_event_id :: int
  kr_entity_type :: string
  kr_entity_id :: string
  kr_base_revision :: int
  kr_current_revision :: int
  kr_status :: string
  kr_resolved_by :: "string option"
  kr_created_at :: time

record upload_row =
  ur_name :: string
  ur_status :: string
  ur_total_files :: int
  ur_done_files :: int
  ur_data_version :: string
  ur_device_id :: string

record upload_file_row =
  uf_rel_path :: string
  uf_hash :: string
  uf_size :: int
  uf_status :: string

record pg =
  db_faults :: "bool list"
  db_devices :: "string \<rightharpoonup> device_row"
  db_current_book :: "(string \<times> book_row) list"
  db_entities :: "string \<times> string \<rightharpoonup> entity_row"
  db_sync_events :: "event_row list"
  db_event_seq :: int
  db_sync_cursors :: "string \<rightharpoonup> int"
  db_conflicts :: "conflict_row list"
  db_conflict_seq :: int
  db_book_history :: "book_history list"
  db_history_seq :: int
  db_library_meta :: "string option"
  db_book_upload :: "string \<rightharpoonup> upload_row"
  db_book_upload_file :: "string \<Rightarrow> upload_file_row list"
  db_file_meta :: "string \<rightharpoonup> int \<times> string"
  db_random :: "string option list"

text \<open>What \<open>EnsureSchema\<close> leaves in a fresh database.\<close>

definition empty_db :: "bool list \<Rightarrow> pg" where
  "empty_db faults = \<lparr>db_faults = faults, db_devices = (\<lambda>_. None), db_current_book = [],
     db_entities = (\<lambda>_. None), db_sync_events = [], db_event_seq = 0, db_sync_cursors = (\<lambda>_. None),
     db_conflicts = [], db_conflict_seq = 0, db_book_history = [], db_history_seq = 0,
     db_library_meta = None, db_book_upload = (\<lambda>_. None), db_book_upload_file = (\<lambda>_. []),
     db_file_meta = (\<lambda>_. None), db_random = []\<rparr>"

section \<open>Statements and transactions\<close>

definition ErrDatabase :: error where
  "ErrDatabase = ErrExternal ''database''"

definition stmt :: "(pg, 'a) op \<Rightarrow> (pg, 'a) op" where
  "stmt f s =
     (case db_faults s of
        [] \<Rightarrow> f s
      | fault # faults \<Rightarrow>
          (let s' = s\<lparr>db_faults := faults\<rparr> in if fault then (Inl ErrDatabase, s') else f s'))"

definition query :: "(pg \<Rightarrow> 'a) \<Rightarrow> (pg, 'a) op" where
  "query f = stmt (\<lambda>s. (Inr (f s), s))"

definition exec :: "(pg \<Rightarrow> pg) \<Rightarrow> (pg, unit) op" where
  "exec f = stmt (\<lambda>s. (Inr (), f s))"

text \<open>How a transaction's body ends without an error: with a commit, or by leaving it to \<open>Rollback\<close>.\<close>

datatype 'a tx_end = Commit 'a | Leave 'a

definition rollback :: "pg \<Rightarrow> pg \<Rightarrow> pg" where
  "rollback s0 s = s0\<lparr>db_faults := db_faults s, db_event_seq := db_event_seq s,
     db_conflict_seq := db_conflict_seq s, db_history_seq := db_history_seq s, db_random := db_random s\<rparr>"

definition in_tx :: "error \<Rightarrow> (pg, 'a tx_end) op \<Rightarrow> (pg, 'a) op" where
  "in_tx begin_error body s0 =
     (case stmt (\<lambda>s. (Inr (), s)) s0 of
        (Inl e, s) \<Rightarrow> (Inl begin_error, s)
      | (Inr _, s1) \<Rightarrow>
          (case body s1 of
             (Inl e, s) \<Rightarrow> (Inl e, rollback s1 s)
           | (Inr (Leave a), s) \<Rightarrow> (Inr a, rollback s1 s)
           | (Inr (Commit a), s) \<Rightarrow>
               (case stmt (\<lambda>s. (Inr (), s)) s of
                  (Inl e, s') \<Rightarrow> (Inl e, rollback s1 s')
                | (Inr _, s') \<Rightarrow> (Inr a, s'))))"

lemma stmt_no_faults [simp]: "db_faults s = [] \<Longrightarrow> stmt f s = f s"
  by (simp add: stmt_def)

lemma query_no_faults [simp]: "db_faults s = [] \<Longrightarrow> query f s = (Inr (f s), s)"
  by (simp add: query_def)

lemma exec_no_faults [simp]: "db_faults s = [] \<Longrightarrow> exec f s = (Inr (), f s)"
  by (simp add: exec_def)

lemma stmt_cases:
  obtains fs where "stmt f s = (Inl ErrDatabase, s\<lparr>db_faults := fs\<rparr>)"
        | fs where "stmt f s = f (s\<lparr>db_faults := fs\<rparr>)"
proof (cases "db_faults s")
  case Nil
  then have "s\<lparr>db_faults := []\<rparr> = s" by (cases s) simp
  then have "f (s\<lparr>db_faults := []\<rparr>) = f s" by (rule arg_cong)
  with Nil have "stmt f s = f (s\<lparr>db_faults := []\<rparr>)" by (simp only: stmt_no_faults)
  then show ?thesis using that(2) by blast
next
  case (Cons a fs)
  then show ?thesis using that by (cases a) (auto simp: stmt_def Let_def)
qed

section \<open>Randomness\<close>

text \<open>\<open>rand.Read\<close> of a buffer: the bytes drawn, \<open>None\<close> when it fails or nothing is left.\<close>

definition rand_read :: "(pg, string option) op" where
  "rand_read s =
     (case db_random s of [] \<Rightarrow> (Inr None, s) | r # rs \<Rightarrow> (Inr r, s\<lparr>db_random := rs\<rparr>))"

text \<open>The buffer of \<open>n\<close> bytes that was to be filled.\<close>

definition read_buffer :: "nat \<Rightarrow> string option \<Rightarrow> string" where
  "read_buffer n r = take n ((case r of None \<Rightarrow> [] | Some b \<Rightarrow> b) @ replicate n (CHR 0x00))"

definition hex_digit :: "nat \<Rightarrow> char" where
  "hex_digit d = (if d < 10 then char_of (48 + d) else char_of (87 + d))"

definition hex :: "string \<Rightarrow> string" where
  "hex b = concat (map (\<lambda>c. [hex_digit (of_char c div 16), hex_digit (of_char c mod 16)]) b)"

section \<open>\<open>PGLibraryVersionStore\<close>\<close>

definition pg_GetBookVersion :: "(pg, string) op" where
  "pg_GetBookVersion = query (\<lambda>s. case db_library_meta s of None \<Rightarrow> [] | Some v \<Rightarrow> v)"

definition pg_SetBookVersion :: "string \<Rightarrow> (pg, unit) op" where
  "pg_SetBookVersion version = exec (\<lambda>s. s\<lparr>db_library_meta := Some version\<rparr>)"

end
