(* ===== verification/ObjectStore.thy ===== *)
theory ObjectStore
  imports GoBase
begin

text \<open>
  Object storage (\<open>internal/store/object_store.go\<close>) and file metadata (\<open>internal/store/file_store.go\<close>):
  the interfaces as records of operations, and their in-memory implementations.  Content is a byte
  string.  An \<open>io.Reader\<close> is what it delivers before it ends, and whether it then fails instead of
  reporting the end.
\<close>

type_synonym bytes = string

record upload_part_meta =
  pm_PartNumber :: int
  pm_ETag :: string

record reader =
  rd_data :: bytes
  rd_fails :: bool

section \<open>Interfaces\<close>

record 's object_store =
  os_EnsureBucket :: "('s, unit) op"
  os_HasObject :: "string \<Rightarrow> ('s, bool) op"
  os_InitUpload :: "string \<Rightarrow> ('s, string) op"
  os_UploadPart :: "string \<Rightarrow> string \<Rightarrow> int \<Rightarrow> bytes \<Rightarrow> ('s, string) op"
  os_CompleteUpload :: "string \<Rightarrow> string \<Rightarrow> upload_part_meta list \<Rightarrow> ('s, unit) op"
  os_PresignDownload :: "string \<Rightarrow> string \<Rightarrow> ('s, string) op"
  os_GetObject :: "string \<Rightarrow> ('s, bytes \<times> int) op"
  os_ObjectSize :: "string \<Rightarrow> ('s, int) op"
  os_PutObject :: "string \<Rightarrow> int \<Rightarrow> reader \<Rightarrow> ('s, unit) op"

record 's file_store =
  fl_UpsertMeta :: "string \<Rightarrow> int \<Rightarrow> string \<Rightarrow> ('s, unit) op"
  fl_HasHashes :: "string list \<Rightarrow> ('s, string \<rightharpoonup> bool) op"

section \<open>MemoryObjectStore\<close>

record mem_objects =
  mo_objects :: "string \<rightharpoonup> bytes"
  mo_uploads :: "string \<rightharpoonup> (int \<rightharpoonup> bytes)"
  mo_seq :: int

definition NewMemoryObjectStore :: mem_objects where
  "NewMemoryObjectStore = \<lparr>mo_objects = (\<lambda>_. None), mo_uploads = (\<lambda>_. None), mo_seq = 0\<rparr>"

definition mem_EnsureBucket :: "(mem_objects, unit) op" where
  "mem_EnsureBucket s = (Inr (), s)"

definition mem_HasObject :: "string \<Rightarrow> (mem_objects, bool) op" where
  "mem_HasObject key s = (Inr (mo_objects s key \<noteq> None), s)"

definition mem_upload_id :: "int \<Rightarrow> string" where
  "mem_upload_id n = ''mem-upload-'' @ itoa n"

definition mem_InitUpload :: "string \<Rightarrow> (mem_objects, string) op" where
  "mem_InitUpload key s =
     (let n = mo_seq s + 1; ident = mem_upload_id n in
      (Inr ident, s\<lparr>mo_seq := n, mo_uploads := (mo_uploads s)(ident \<mapsto> (\<lambda>_. None))\<rparr>))"

definition mem_UploadPart :: "string \<Rightarrow> string \<Rightarrow> int \<Rightarrow> bytes \<Rightarrow> (mem_objects, string) op" where
  "mem_UploadPart key uploadID partNumber data s =
     (case mo_uploads s uploadID of
        None \<Rightarrow> (Inl ErrUnknownUploadID, s)
      | Some parts \<Rightarrow>
          (Inr (''etag-'' @ itoa partNumber),
           s\<lparr>mo_uploads := (mo_uploads s)(uploadID \<mapsto> parts(partNumber \<mapsto> data))\<rparr>))"

fun assemble :: "(int \<rightharpoonup> bytes) \<Rightarrow> upload_part_meta list \<Rightarrow> bytes \<Rightarrow> error + bytes" where
  "assemble partData [] buf = Inr buf"
| "assemble partData (p # ps) buf =
     (case partData (pm_PartNumber p) of
        None \<Rightarrow> Inl (ErrMissingPart (pm_PartNumber p))
      | Some data \<Rightarrow> assemble partData ps (buf @ data))"

definition mem_CompleteUpload :: "string \<Rightarrow> string \<Rightarrow> upload_part_meta list \<Rightarrow> (mem_objects, unit) op" where
  "mem_CompleteUpload key uploadID parts s =
     (case mo_uploads s uploadID of
        None \<Rightarrow> (Inl ErrUnknownUploadID, s)
      | Some partData \<Rightarrow>
          (case assemble partData parts [] of
             Inl e \<Rightarrow> (Inl e, s)
           | Inr buf \<Rightarrow> (Inr (), s\<lparr>mo_objects := (mo_objects s)(key \<mapsto> buf),
                              mo_uploads := (mo_uploads s)(uploadID := None)\<rparr>)))"

definition mem_PresignDownload :: "string \<Rightarrow> string \<Rightarrow> (mem_objects, string) op" where
  "mem_PresignDownload key host s =
     (case mo_objects s key of
        None \<Rightarrow> (Inl ErrObjectNotFound, s) | Some _ \<Rightarrow> (Inr (''memory://'' @ key), s))"

definition mem_GetObject :: "string \<Rightarrow> (mem_objects, bytes \<times> int) op" where
  "mem_GetObject key s =
     (case mo_objects s key of
        None \<Rightarrow> (Inl ErrObjectNotFound, s) | Some data \<Rightarrow> (Inr (data, int (length data)), s))"

definition mem_ObjectSize :: "string \<Rightarrow> (mem_objects, int) op" where
  "mem_ObjectSize key s =
     (case mo_objects s key of
        None \<Rightarrow> (Inl ErrObjectNotFound, s) | Some data \<Rightarrow> (Inr (int (length data)), s))"

text \<open>\<open>io.ReadAll(io.LimitReader(reader, size))\<close>: a failure past the limit is not reached.\<close>

definition read_limited :: "reader \<Rightarrow> int \<Rightarrow> error + bytes" where
  "read_limited r sz =
     (if rd_fails r \<and> int (length (rd_data r)) < sz then Inl (ErrExternal ''read'')
      else Inr (take (nat sz) (rd_data r)))"

definition mem_PutObject :: "string \<Rightarrow> int \<Rightarrow> reader \<Rightarrow> (mem_objects, unit) op" where
  "mem_PutObject key sz r s =
     (case read_limited r sz of
        Inl e \<Rightarrow> (Inl e, s)
      | Inr data \<Rightarrow>
          if int (length data) \<noteq> sz then (Inl (ErrSizeMismatch (int (length data)) sz), s)
          else (Inr (), s\<lparr>mo_objects := (mo_objects s)(key \<mapsto> data)\<rparr>))"

definition mem_object_store :: "mem_objects object_store" where
  "mem_object_store = \<lparr>os_EnsureBucket = mem_EnsureBucket, os_HasObject = mem_HasObject,
     os_InitUpload = mem_InitUpload, os_UploadPart = mem_UploadPart,
     os_CompleteUpload = mem_CompleteUpload, os_PresignDownload = mem_PresignDownload,
     os_GetObject = mem_GetObject, os_ObjectSize = mem_ObjectSize, os_PutObject = mem_PutObject\<rparr>"

section \<open>MemoryFileStore\<close>

type_synonym mem_files = "string \<rightharpoonup> int"

definition mem_UpsertMeta :: "string \<Rightarrow> int \<Rightarrow> string \<Rightarrow> (mem_files, unit) op" where
  "mem_UpsertMeta hash sz mimeType s =
     (Inr (), if s hash = None then s(hash \<mapsto> sz) else s)"

fun has_hashes_loop :: "mem_files \<Rightarrow> string list \<Rightarrow> (string \<rightharpoonup> bool) \<Rightarrow> (string \<rightharpoonup> bool)" where
  "has_hashes_loop s [] found = found"
| "has_hashes_loop s (h # hs) found =
     has_hashes_loop s hs (if s h \<noteq> None then found(h \<mapsto> True) else found)"

definition mem_HasHashes :: "string list \<Rightarrow> (mem_files, string \<rightharpoonup> bool) op" where
  "mem_HasHashes hashes s = (Inr (has_hashes_loop s hashes (\<lambda>_. None)), s)"

definition mem_file_store :: "mem_files file_store" where
  "mem_file_store = \<lparr>fl_UpsertMeta = mem_UpsertMeta, fl_HasHashes = mem_HasHashes\<rparr>"

record file_check_item =
  fc_Hash :: string
  fc_Size :: int

text \<open>A key that is not in the Go map reads as \<open>false\<close>.\<close>

definition MissingHashes :: "file_check_item list \<Rightarrow> (string \<rightharpoonup> bool) \<Rightarrow> file_check_item list" where
  "MissingHashes all found = filter (\<lambda>item. found (fc_Hash item) \<noteq> Some True) all"

section \<open>Facts\<close>

lemma assemble_eq:
  "assemble partData ps buf =
     (case find (\<lambda>p. partData (pm_PartNumber p) = None) ps of
        Some p \<Rightarrow> Inl (ErrMissingPart (pm_PartNumber p))
      | None \<Rightarrow> Inr (buf @ concat (map (\<lambda>p. the (partData (pm_PartNumber p))) ps)))"
  by (induction ps arbitrary: buf) (auto split: option.splits)

lemma has_hashes_loop_eq:
  "has_hashes_loop s hs found h = (if h \<in> set hs \<and> s h \<noteq> None then Some True else found h)"
  by (induction hs arbitrary: found) auto

lemma itoa_inj_pos: "0 \<le> m \<Longrightarrow> 0 \<le> n \<Longrightarrow> itoa m = itoa n \<Longrightarrow> m = n"
  by (auto simp: itoa_def dest!: itoa_nat_inj)

text \<open>Upload identifiers handed out so far are at most \<open>seq\<close>, so the next one is new.\<close>

definition objects_ok :: "mem_objects \<Rightarrow> bool" where
  "objects_ok s \<longleftrightarrow> 0 \<le> mo_seq s \<and>
     (\<forall>ident ps. mo_uploads s ident = Some ps \<longrightarrow> (\<exists>n. 0 \<le> n \<and> n \<le> mo_seq s \<and> ident = mem_upload_id n))"

lemma objects_ok_init: "objects_ok NewMemoryObjectStore"
  by (simp add: objects_ok_def NewMemoryObjectStore_def)

lemma objects_ok_fresh: "objects_ok s \<Longrightarrow> mo_uploads s (mem_upload_id (mo_seq s + 1)) = None"
proof (rule ccontr)
  assume ok: "objects_ok s" and "mo_uploads s (mem_upload_id (mo_seq s + 1)) \<noteq> None"
  then obtain n where "0 \<le> n" "n \<le> mo_seq s" "mem_upload_id (mo_seq s + 1) = mem_upload_id n"
    unfolding objects_ok_def by blast
  with ok show False
    by (auto simp: mem_upload_id_def objects_ok_def dest!: itoa_inj_pos [rotated 2])
qed

lemma objects_ok_known:
  "objects_ok s \<Longrightarrow> mo_uploads s ident = Some ps \<Longrightarrow> mo_seq s \<le> m \<Longrightarrow>
     \<exists>n. 0 \<le> n \<and> n \<le> m \<and> ident = mem_upload_id n"
  unfolding objects_ok_def by (meson order_trans)

lemma objects_ok_InitUpload: "objects_ok s \<Longrightarrow> objects_ok (snd (mem_InitUpload k s))"
proof -
  assume ok: "objects_ok s"
  have "\<exists>n. 0 \<le> n \<and> n \<le> mo_seq s + 1 \<and> ident = mem_upload_id n"
    if "((mo_uploads s)(mem_upload_id (mo_seq s + 1) \<mapsto> (\<lambda>_. None))) ident = Some ps" for ident ps
  proof (cases "ident = mem_upload_id (mo_seq s + 1)")
    case True
    then show ?thesis using ok by (auto simp: objects_ok_def intro!: exI [where x = "mo_seq s + 1"])
  next
    case False
    then show ?thesis using that objects_ok_known [OF ok] by simp
  qed
  then show ?thesis
    using ok by (simp add: mem_InitUpload_def Let_def objects_ok_def)
qed

lemma objects_ok_rest:
  assumes "objects_ok s"
  shows "objects_ok (snd (mem_UploadPart k u n d s))" "objects_ok (snd (mem_CompleteUpload k u ps s))"
    "objects_ok (snd (mem_PutObject k sz r s))"
  using assms by (auto simp: objects_ok_def mem_UploadPart_def mem_CompleteUpload_def mem_PutObject_def
    split: option.splits sum.splits)

end
