(* ===== verification/FileService.thy ===== *)
theory FileService
  imports ObjectStore SyncModel
begin

text \<open>
  \<open>FileService\<close> (\<open>internal/service/file_service.go\<close>) over the object and file metadata interfaces.
\<close>

record 's file_service =
  fs_objects :: "'s object_store"
  fs_files :: "'s file_store"

record file_init_response =
  fi_UploadID :: string
  fi_Complete :: bool

definition objectKey :: "string \<Rightarrow> string" where
  "objectKey hash = ''files/'' @ hash"

text \<open>The loops inspect the error of \<open>ObjectSize\<close> themselves.\<close>

fun AllFilesComplete :: "'s file_service \<Rightarrow> book_file_meta list \<Rightarrow> ('s, bool) op" where
  "AllFilesComplete fs [] = ret True"
| "AllFilesComplete fs (f # rest) =
     (if fm_Hash f = [] then AllFilesComplete fs rest
      else bindE (attempt (os_ObjectSize (fs_objects fs) (objectKey (fm_Hash f)))) (\<lambda>r.
        case r of
          Inl e \<Rightarrow> if errors_Is e ErrObjectNotFound then ret False else throw e
        | Inr sz \<Rightarrow> if sz \<noteq> fm_Size f then ret False else AllFilesComplete fs rest))"

fun check_files_loop ::
  "'s file_service \<Rightarrow> file_check_item list \<Rightarrow> file_check_item list \<Rightarrow> ('s, file_check_item list) op"
where
  "check_files_loop fs [] missing = ret missing"
| "check_files_loop fs (it # items) missing =
     bindE (attempt (os_ObjectSize (fs_objects fs) (objectKey (fc_Hash it)))) (\<lambda>r.
       case r of
         Inl e \<Rightarrow> check_files_loop fs items (missing @ [it])
       | Inr sz \<Rightarrow> check_files_loop fs items (if sz \<noteq> fc_Size it then missing @ [it] else missing))"

definition CheckFiles :: "'s file_service \<Rightarrow> file_check_item list \<Rightarrow> ('s, file_check_item list) op" where
  "CheckFiles fs items = check_files_loop fs items []"

definition FileInitUpload :: "'s file_service \<Rightarrow> string \<Rightarrow> int \<Rightarrow> ('s, file_init_response) op" where
  "FileInitUpload fs hash sz =
     (if sz < 0 then throw ErrInvalidSize
      else bindE (os_HasObject (fs_objects fs) (objectKey hash)) (\<lambda>exists.
        if exists then ret \<lparr>fi_UploadID = [], fi_Complete = True\<rparr>
        else bindE (os_InitUpload (fs_objects fs) (objectKey hash)) (\<lambda>uploadID.
          ret \<lparr>fi_UploadID = uploadID, fi_Complete = False\<rparr>)))"

definition UploadPart :: "'s file_service \<Rightarrow> string \<Rightarrow> string \<Rightarrow> int \<Rightarrow> bytes \<Rightarrow> ('s, string) op" where
  "UploadPart fs hash uploadID partNumber data =
     (if partNumber < 1 \<or> length data = 0 then throw ErrInvalidPart
      else bindE (os_HasObject (fs_objects fs) (objectKey hash)) (\<lambda>exists.
        if exists then throw ErrFileExists
        else os_UploadPart (fs_objects fs) (objectKey hash) uploadID partNumber data))"

definition CompleteUpload ::
  "'s file_service \<Rightarrow> string \<Rightarrow> string \<Rightarrow> int \<Rightarrow> upload_part_meta list \<Rightarrow> ('s, unit) op" where
  "CompleteUpload fs hash uploadID sz parts =
     (if length parts = 0 then throw ErrUploadNotComplete
      else bindE (wrapE ''complete upload'' (os_CompleteUpload (fs_objects fs) (objectKey hash) uploadID parts))
        (\<lambda>_. fl_UpsertMeta (fs_files fs) hash sz []))"

definition DirectUpload :: "'s file_service \<Rightarrow> string \<Rightarrow> int \<Rightarrow> reader \<Rightarrow> ('s, unit) op" where
  "DirectUpload fs hash sz r =
     (if hash = [] \<or> sz < 0 then throw ErrInvalidDirectUpload
      else bindE (attempt (os_ObjectSize (fs_objects fs) (objectKey hash))) (\<lambda>r1.
        if r1 = Inr sz then ret ()
        else bindE (wrapE ''direct upload'' (os_PutObject (fs_objects fs) (objectKey hash) sz r))
          (\<lambda>_. fl_UpsertMeta (fs_files fs) hash sz [])))"

definition PresignDownload :: "'s file_service \<Rightarrow> string \<Rightarrow> string \<Rightarrow> ('s, string) op" where
  "PresignDownload fs hash host = os_PresignDownload (fs_objects fs) (objectKey hash) host"

definition Download :: "'s file_service \<Rightarrow> string \<Rightarrow> ('s, bytes \<times> int) op" where
  "Download fs hash = os_GetObject (fs_objects fs) (objectKey hash)"

end
