(* ===== verification/MemServer.thy ===== *)
theory MemServer
  imports MemReach Database FileService
begin

text \<open>
  The server assembled from the in-memory stores, as in the tests of \<open>internal/service\<close> and
  \<open>internal/api\<close>: one \<open>MemorySyncStore\<close> behind all six interfaces of \<open>SyncService\<close>, the in-memory
  object and file stores behind \<open>FileService\<close>, which is the file verifier, and the library version
  in the one-row table \<open>library_meta\<close>.  The contracts of the event feed and of the conflict
  register hold of it.
\<close>

section \<open>State and stores\<close>

record server =
  sv_sync :: mem_sync
  sv_objects :: mem_objects
  sv_files :: mem_files
  sv_db :: pg

definition on_sync :: "(mem_sync, 'a) op \<Rightarrow> (server, 'a) op" where
  "on_sync = zoom sv_sync (\<lambda>t s. s\<lparr>sv_sync := t\<rparr>)"

definition on_objects :: "(mem_objects, 'a) op \<Rightarrow> (server, 'a) op" where
  "on_objects = zoom sv_objects (\<lambda>t s. s\<lparr>sv_objects := t\<rparr>)"

definition on_files :: "(mem_files, 'a) op \<Rightarrow> (server, 'a) op" where
  "on_files = zoom sv_files (\<lambda>t s. s\<lparr>sv_files := t\<rparr>)"

definition on_db :: "(pg, 'a) op \<Rightarrow> (server, 'a) op" where
  "on_db = zoom sv_db (\<lambda>t s. s\<lparr>sv_db := t\<rparr>)"

definition server_object_store :: "server object_store" where
  "server_object_store = \<lparr>os_EnsureBucket = on_objects mem_EnsureBucket,
     os_HasObject = (\<lambda>k. on_objects (mem_HasObject k)),
     os_InitUpload = (\<lambda>k. on_objects (mem_InitUpload k)),
     os_UploadPart = (\<lambda>k u n d. on_objects (mem_UploadPart k u n d)),
     os_CompleteUpload = (\<lambda>k u ps. on_objects (mem_CompleteUpload k u ps)),
     os_PresignDownload = (\<lambda>k h. on_objects (mem_PresignDownload k h)),
     os_GetObject = (\<lambda>k. on_objects (mem_GetObject k)),
     os_ObjectSize = (\<lambda>k. on_objects (mem_ObjectSize k)),
     os_PutObject = (\<lambda>k sz r. on_objects (mem_PutObject k sz r))\<rparr>"

definition server_file_store :: "server file_store" where
  "server_file_store = \<lparr>fl_UpsertMeta = (\<lambda>h sz m. on_files (mem_UpsertMeta h sz m)),
     fl_HasHashes = (\<lambda>hs. on_files (mem_HasHashes hs))\<rparr>"

definition server_files :: "server file_service" where
  "server_files = \<lparr>fs_objects = server_object_store, fs_files = server_file_store\<rparr>"

definition mem_service :: "clock \<Rightarrow> iteration \<Rightarrow> server sync_service" where
  "mem_service clk iter =
     \<lparr>ss_entities = \<lparr>es_ApplyChange = (\<lambda>c dev. on_sync (mem_ApplyChange clk c dev)),
        es_ForceUpsert = (\<lambda>t i p dev. on_sync (mem_ForceUpsert clk t i p dev))\<rparr>,
      ss_books = \<lparr>bs_ApplyBookChange = (\<lambda>c src dev. on_sync (mem_ApplyBookChange clk c src dev)),
        bs_ForceUpsertBook = (\<lambda>u p dev. on_sync (mem_ForceUpsertBook clk u p dev)),
        bs_RestoreLibrary = (\<lambda>p dev. on_sync (mem_RestoreLibrary clk iter p dev)),
        bs_SnapshotLibrary = on_sync (mem_SnapshotLibrary iter)\<rparr>,
      ss_history = \<lparr>hs_InsertSnapshot = (\<lambda>opType tag p. on_sync (mem_InsertSnapshot clk opType tag p)),
        hs_ListHistory = (\<lambda>n. on_sync (mem_ListHistory n)),
        hs_GetHistory = (\<lambda>i. on_sync (mem_GetHistory i))\<rparr>,
      ss_events = \<lparr>vs_ListAfterCursor = (\<lambda>c n. on_sync (mem_ListAfterCursor c n)),
        vs_CountByStatus = on_sync mem_CountByStatus\<rparr>,
      ss_cursors = \<lparr>cs_UpdateCursor = (\<lambda>d i. on_sync (mem_UpdateCursor d i)),
        cs_GetCursor = (\<lambda>d. on_sync (mem_GetCursor d))\<rparr>,
      ss_conflicts = \<lparr>ks_ListOpen = on_sync mem_ListOpen, ks_Get = (\<lambda>i. on_sync (mem_GetConflict i)),
        ks_MarkResolved = (\<lambda>i d. on_sync (mem_MarkResolved i d))\<rparr>,
      ss_fileVerifier = Some (AllFilesComplete server_files),
      ss_libVersion = Some \<lparr>ls_GetBookVersion = on_db pg_GetBookVersion,
        ls_SetBookVersion = (\<lambda>v. on_db (pg_SetBookVersion v))\<rparr>\<rparr>"

definition NewServer :: "bool list \<Rightarrow> server" where
  "NewServer faults = \<lparr>sv_sync = NewMemorySyncStore, sv_objects = NewMemoryObjectStore,
     sv_files = (\<lambda>_. None), sv_db = empty_db faults\<rparr>"

lemmas on_defs = on_sync_def on_objects_def on_files_def on_db_def

lemma on_sync_apply: "on_sync m s = (fst (m (sv_sync s)), s\<lparr>sv_sync := snd (m (sv_sync s))\<rparr>)"
  by (simp add: on_sync_def zoom_apply)

lemma on_objects_apply: "on_objects m s = (fst (m (sv_objects s)), s\<lparr>sv_objects := snd (m (sv_objects s))\<rparr>)"
  by (simp add: on_objects_def zoom_apply)

lemma on_files_apply: "on_files m s = (fst (m (sv_files s)), s\<lparr>sv_files := snd (m (sv_files s))\<rparr>)"
  by (simp add: on_files_def zoom_apply)

lemma on_db_apply: "on_db m s = (fst (m (sv_db s)), s\<lparr>sv_db := snd (m (sv_db s))\<rparr>)"
  by (simp add: on_db_def zoom_apply)

lemmas on_apply = on_sync_apply on_objects_apply on_files_apply on_db_apply

section \<open>The event feed\<close>

interpretation mem_feed: event_feed "mem_service clk iter" "\<lambda>s. mem_inv (sv_sync s)" "\<lambda>s. event_log (sv_sync s)"
proof (unfold_locales, goal_cases)
  case (1 s) then show ?case by (simp add: event_log_in_order)
next
  case (2 s limit c) then show ?case by (simp add: mem_service_def on_apply mem_ListAfterCursor_eq)
next
  case (3 s dev c)
  then show ?case
    using mem_UpdateCursor_inv [of "sv_sync s" dev c]
    by (simp add: mem_service_def on_apply mem_UpdateCursor_def event_log_def)
qed

section \<open>The conflict register\<close>

definition conflict_entry :: "mem_sync \<Rightarrow> int \<Rightarrow> conflict option" where
  "conflict_entry s i = map_option mc_Conflict (find (\<lambda>c. cf_ID (mc_Conflict c) = i) (ms_conflicts s))"

lemma mark_resolved_loop_find:
  "mark_resolved_loop i cs =
     (case find (\<lambda>c. cf_ID (mc_Conflict c) = i) cs of
        None \<Rightarrow> Inl ErrConflictNotFound
      | Some c \<Rightarrow> if cf_Status (mc_Conflict c) \<noteq> ConflictOpen then Inl ErrConflictResolved
                  else mark_resolved_loop i cs)"
  by (induction cs) (auto split: option.splits)

lemma mark_resolved_loop_open:
  "find (\<lambda>c. cf_ID (mc_Conflict c) = i) cs = Some c \<Longrightarrow> cf_Status (mc_Conflict c) = ConflictOpen \<Longrightarrow>
     \<exists>ds. mark_resolved_loop i cs = Inr ds \<and>
       (\<forall>j. map_option mc_Conflict (find (\<lambda>c. cf_ID (mc_Conflict c) = j) ds) =
         ((\<lambda>j. map_option mc_Conflict (find (\<lambda>c. cf_ID (mc_Conflict c) = j) cs))
           (i \<mapsto> (mc_Conflict c)\<lparr>cf_Status := ConflictResolved\<rparr>)) j)"
  by (induction cs) (auto split: if_splits)

lemma conflict_entry_frame:
  "ms_conflicts t = ms_conflicts s \<Longrightarrow> conflict_entry t = conflict_entry s"
  by (simp add: conflict_entry_def fun_eq_iff)

interpretation mem_register: conflict_register "mem_service clk iter" "\<lambda>s. mem_inv (sv_sync s)"
  "\<lambda>s. conflict_entry (sv_sync s)"
proof (unfold_locales, goal_cases)
  case (1 s i)
  then show ?case
    by (simp add: mem_service_def on_apply mem_GetConflict_def conflict_entry_def split: option.splits)
next
  case (2 s i cf dev)
  then obtain c where c: "find (\<lambda>c. cf_ID (mc_Conflict c) = i) (ms_conflicts (sv_sync s)) = Some c"
      "mc_Conflict c = cf" by (auto simp: conflict_entry_def)
  with mark_resolved_loop_open [OF c(1)] 2 obtain ds where
    "mark_resolved_loop i (ms_conflicts (sv_sync s)) = Inr ds"
    "\<forall>j. map_option mc_Conflict (find (\<lambda>c. cf_ID (mc_Conflict c) = j) ds) =
       ((conflict_entry (sv_sync s))(i \<mapsto> cf\<lparr>cf_Status := ConflictResolved\<rparr>)) j"
    by (auto simp: conflict_entry_def)
  moreover from this 2 mem_MarkResolved_inv [of "sv_sync s" i dev]
  have "mem_inv (sv_sync s\<lparr>ms_conflicts := ds\<rparr>)"
    by (simp add: mem_MarkResolved_def)
  ultimately show ?case using 2
    by (auto simp: mem_service_def on_apply mem_MarkResolved_def conflict_entry_def fun_eq_iff)
next
  case (3 s cf p dev)
  then have "mem_inv (snd (mem_ForceUpsertBook clk (cf_EntityID cf) p dev (sv_sync s)))"
    "cf_EntityType cf \<noteq> EntityBook \<Longrightarrow>
      mem_inv (snd (mem_ForceUpsert clk (cf_EntityType cf) (cf_EntityID cf) p dev (sv_sync s)))"
    by (auto simp: mem_ForceUpsertBook_inv mem_ForceUpsert_inv)
  with 3 show ?case
    by (auto simp: forceUpsert_def mem_service_def on_apply bindE_def mem_ForceUpsertBook_eq
        mem_ForceUpsert_eq Let_def intro!: conflict_entry_frame)
qed

end
