(* ===== verification/Device.thy ===== *)
theory Device
  imports MemServer
begin

text \<open>
  What the devices see of the in-memory server: a device that pulls while anything else happens to the
  store, and the service's operations as sequences of store steps.
\<close>

section \<open>Service operations as store steps\<close>

text \<open>
  An operation of the server that changes the synchronised data only through the methods of the
  store.  As the service holds no lock, steps of other requests can come between any two of them.
\<close>

definition store_steps :: "(server, 'a) op \<Rightarrow> bool" where
  "store_steps m \<longleftrightarrow> (\<forall>s. mem_step\<^sup>*\<^sup>* (sv_sync s) (sv_sync (snd (m s))))"

lemma store_steps_ret [intro]: "store_steps (ret a)"
  by (simp add: store_steps_def)

lemma store_steps_throw [intro]: "store_steps (throw e)"
  by (simp add: store_steps_def)

lemma store_steps_bindE [intro]:
  assumes "store_steps m" "\<And>a. store_steps (f a)"
  shows "store_steps (bindE m f)"
proof (unfold store_steps_def, intro allI)
  fix s
  show "mem_step\<^sup>*\<^sup>* (sv_sync s) (sv_sync (snd (bindE m f s)))"
  proof (cases "m s")
    case (Pair r t)
    then have m: "mem_step\<^sup>*\<^sup>* (sv_sync s) (sv_sync t)"
      using assms(1) by (metis snd_conv store_steps_def)
    show ?thesis
    proof (cases r)
      case (Inl e)
      with Pair m show ?thesis by simp
    next
      case (Inr a)
      with Pair m assms(2) [of a] show ?thesis
        by (auto simp: store_steps_def intro: rtranclp_trans)
    qed
  qed
qed

lemma store_steps_attempt [intro]: "store_steps m \<Longrightarrow> store_steps (attempt m)"
  by (simp add: store_steps_def attempt_apply)

lemma store_steps_wrapE [intro]: "store_steps m \<Longrightarrow> store_steps (wrapE w m)"
  by (simp add: store_steps_def)

lemma store_steps_sync: "(\<And>s. mem_step s (snd (m s))) \<Longrightarrow> store_steps (on_sync m)"
  by (auto simp: store_steps_def on_apply)

lemma store_steps_read: "(\<And>s. snd (m s) = s) \<Longrightarrow> store_steps (on_sync m)"
  by (auto simp: store_steps_def on_apply)

lemma store_steps_elsewhere [intro]:
  "store_steps (on_objects m)" "store_steps (on_files n)" "store_steps (on_db k)"
  by (simp_all add: store_steps_def on_apply)

lemma AllFilesComplete_objects:
  "sv_sync (snd (AllFilesComplete server_files fs s)) = sv_sync s"
proof (induction fs arbitrary: s)
  case (Cons f fs)
  show ?case
    by (auto simp: bindE_def attempt_apply server_files_def server_object_store_def on_apply
        Cons [unfolded server_files_def server_object_store_def] split: sum.splits)
qed simp

lemma store_steps_service:
  "store_steps (vs_ListAfterCursor (ss_events (mem_service clk iter)) c n)"
  "store_steps (vs_CountByStatus (ss_events (mem_service clk iter)))"
  "store_steps (cs_UpdateCursor (ss_cursors (mem_service clk iter)) d i)"
  "store_steps (cs_GetCursor (ss_cursors (mem_service clk iter)) d)"
  "store_steps (ks_ListOpen (ss_conflicts (mem_service clk iter)))"
  "store_steps (ks_Get (ss_conflicts (mem_service clk iter)) i)"
  "store_steps (ks_MarkResolved (ss_conflicts (mem_service clk iter)) i d)"
  "store_steps (hs_InsertSnapshot (ss_history (mem_service clk iter)) op1 tag p)"
  "store_steps (hs_ListHistory (ss_history (mem_service clk iter)) n)"
  "store_steps (hs_GetHistory (ss_history (mem_service clk iter)) i)"
  "store_steps (bs_SnapshotLibrary (ss_books (mem_service clk iter)))"
  "range_order iter \<Longrightarrow> store_steps (bs_RestoreLibrary (ss_books (mem_service clk iter)) p d)"
  "store_steps (bs_ForceUpsertBook (ss_books (mem_service clk iter)) u p d)"
  "t \<noteq> EntityBook \<Longrightarrow> store_steps (es_ForceUpsert (ss_entities (mem_service clk iter)) t u p d)"
  by (simp_all add: mem_service_def store_steps_sync mem_step.intros)
    (auto simp: mem_ListAfterCursor_eq mem_CountByStatus_def mem_GetCursor_def mem_ListOpen_def
      mem_GetConflict_def mem_ListHistory_def mem_GetHistory_def mem_SnapshotLibrary_def
      intro!: store_steps_read split: option.splits)

lemma store_steps_refresh: "store_steps (RefreshLibraryVersion sha (mem_service clk iter))"
  by (auto simp: RefreshLibraryVersion_def decode_items_def split: option.splits prod.splits
      intro!: store_steps_bindE store_steps_service) (auto simp: mem_service_def)

lemma store_steps_verify: "store_steps (verify_change (mem_service clk iter) c)"
  by (auto simp: verify_change_def store_steps_def mem_service_def AllFilesComplete_objects
      split: prod.splits)

lemma store_steps_apply: "store_steps (apply_one (mem_service clk iter) dev src c)"
  by (auto simp: apply_one_def mem_service_def intro!: store_steps_wrapE store_steps_sync
      intro: step_book step_entity)

lemma store_steps_push_loop: "store_steps (push_loop (mem_service clk iter) dev src cs rs)"
  by (induction cs arbitrary: rs)
    (auto intro!: store_steps_bindE store_steps_verify store_steps_apply)

lemma store_steps_Push: "store_steps (Push sha (mem_service clk iter) dev src cs)"
  by (auto simp: Push_def intro!: store_steps_bindE store_steps_push_loop store_steps_refresh)

lemma store_steps_Pull: "store_steps (Pull (mem_service clk iter) dev c n)"
  by (auto simp: Pull_def Let_def intro!: store_steps_bindE store_steps_wrapE store_steps_service
      split: prod.splits)

lemma store_steps_Resolve: "store_steps (ResolveConflict (mem_service clk iter) dev i req)"
  by (auto simp: ResolveConflict_def resolve_write_def forceUpsert_def
      intro!: store_steps_bindE store_steps_service)

lemma store_steps_Restore: "range_order iter \<Longrightarrow> store_steps (RestoreBook (mem_service clk iter) dev i)"
  by (auto simp: RestoreBook_def intro!: store_steps_bindE store_steps_service store_steps_attempt
      split: sum.splits)

section \<open>A device among others\<close>

text \<open>
  \<open>dv_more\<close> records whether the device has reason to pull again: the last answer said so, or the store
  may have changed since.
\<close>

record device =
  dv_cursor :: int
  dv_books :: "string \<rightharpoonup> raw"
  dv_entities :: "string \<rightharpoonup> raw"
  dv_more :: bool

definition new_device :: device where
  "new_device = \<lparr>dv_cursor = 0, dv_books = (\<lambda>_. None), dv_entities = (\<lambda>_. None), dv_more = True\<rparr>"

definition device_pulls :: "pull_result \<Rightarrow> device \<Rightarrow> device" where
  "device_pulls r d = \<lparr>dv_cursor = pr_Cursor r, dv_books = replay_books (dv_books d) (pr_Events r),
     dv_entities = replay_entities (dv_entities d) (pr_Events r), dv_more = pr_HasMore r\<rparr>"

inductive session :: "server \<Rightarrow> device \<Rightarrow> bool" where
  session_start: "session (NewServer faults) new_device"
| session_server: "session s d \<Longrightarrow> mem_step (sv_sync s) (sv_sync t) \<Longrightarrow> session t (d\<lparr>dv_more := True\<rparr>)"
| session_pull: "session s d \<Longrightarrow> 0 \<le> limit \<Longrightarrow>
     Pull (mem_service clk iter) dev (dv_cursor d) limit s = (Inr r, t) \<Longrightarrow> session t (device_pulls r d)"

lemma grows_new_events:
  assumes "grows s t" "mem_inv s" "mem_inv t"
  obtains es where "event_log t = event_log s @ es" "\<forall>e\<in>set es. ms_nextEventID s < ev_ID e"
    "ms_nextEventID s \<le> ms_nextEventID t"
proof -
  obtain new where new: "ms_events t = ms_events s @ new" using assms(1) by (auto simp: grows_def)
  let ?n = "length (ms_events s)"
  have ids: "map (ev_ID \<circ> me_event) (ms_events s @ new) = upto_ids (?n + length new)"
    using assms(3) new by (simp add: mem_inv_def ids_ok_def)
  have "\<forall>e\<in>set new. int ?n < ev_ID (me_event e)"
  proof
    fix e assume "e \<in> set new"
    then obtain j where j: "j < length new" "new ! j = e" by (auto simp: in_set_conv_nth)
    then have "ev_ID (me_event e) = map (ev_ID \<circ> me_event) (ms_events s @ new) ! (?n + j)"
      by (simp add: nth_append)
    with j ids show "int ?n < ev_ID (me_event e)" by (simp add: nth_upto_ids)
  qed
  then show ?thesis
    using that [of "map me_event (filter deliverable new)"] new assms(2,3)
    by (auto simp: event_log_def mem_inv_def ids_ok_def)
qed

lemma event_log_ids: "mem_inv s \<Longrightarrow> e \<in> set (event_log s) \<Longrightarrow> 1 \<le> ev_ID e \<and> ev_ID e \<le> ms_nextEventID s"
proof -
  assume "mem_inv s" "e \<in> set (event_log s)"
  then obtain m where "m \<in> set (ms_events s)" "e = me_event m"
    "map (ev_ID \<circ> me_event) (ms_events s) = upto_ids (length (ms_events s))"
    "ms_nextEventID s = int (length (ms_events s))"
    by (auto simp: event_log_def mem_inv_def ids_ok_def)
  then have "ev_ID e \<in> set (upto_ids (length (ms_events s)))"
    by (metis comp_apply image_eqI list.set_map)
  with \<open>ms_nextEventID s = _\<close> show ?thesis by simp
qed

definition caught_up_to :: "server \<Rightarrow> device \<Rightarrow> bool" where
  "caught_up_to s d \<longleftrightarrow> mem_inv (sv_sync s) \<and> dv_cursor d \<le> ms_nextEventID (sv_sync s) \<and>
     dv_books d = replay_books (\<lambda>_. None) (up_to (dv_cursor d) (event_log (sv_sync s))) \<and>
     dv_entities d = replay_entities (\<lambda>_. None) (up_to (dv_cursor d) (event_log (sv_sync s))) \<and>
     (\<not> dv_more d \<longrightarrow> after (dv_cursor d) (event_log (sv_sync s)) = [])"

lemma caught_up_server:
  assumes "caught_up_to s d" "mem_step (sv_sync s) (sv_sync t)"
  shows "caught_up_to t (d\<lparr>dv_more := True\<rparr>)"
proof -
  have inv: "mem_inv (sv_sync s)" "mem_inv (sv_sync t)"
    using assms mem_step_inv by (auto simp: caught_up_to_def)
  obtain es where es: "event_log (sv_sync t) = event_log (sv_sync s) @ es"
      "\<forall>e\<in>set es. ms_nextEventID (sv_sync s) < ev_ID e"
      "ms_nextEventID (sv_sync s) \<le> ms_nextEventID (sv_sync t)"
    using grows_new_events [OF mem_step_grows [OF assms(2)] inv] by blast
  then have "up_to (dv_cursor d) (event_log (sv_sync t)) = up_to (dv_cursor d) (event_log (sv_sync s))"
    using assms(1) by (fastforce simp: caught_up_to_def up_to_def filter_empty_conv)
  with es(3) assms inv show ?thesis by (auto simp: caught_up_to_def)
qed

lemma caught_up_pull:
  assumes "caught_up_to s d" "0 \<le> limit"
    and "Pull (mem_service clk iter) dev (dv_cursor d) limit s = (Inr r, t)"
  shows "caught_up_to t (device_pulls r d)"
proof -
  let ?log = "event_log (sv_sync s)" and ?c = "dv_cursor d"
  let ?p = "page ?c limit ?log"
  have inv: "mem_inv (sv_sync s)" using assms(1) by (auto simp: caught_up_to_def)
  from mem_feed.Pull_page [OF inv assms(2), of clk iter dev ?c] assms(3)
  have r: "r = \<lparr>pr_Cursor = page_end ?c ?p, pr_HasMore = (nat limit < length (after ?c ?log)), pr_Events = ?p\<rparr>"
    and t: "mem_inv (sv_sync t)" "event_log (sv_sync t) = ?log" by auto
  have "mem_step\<^sup>*\<^sup>* (sv_sync s) (sv_sync t)"
    using store_steps_Pull assms(3) by (metis snd_conv store_steps_def)
  then have "ms_nextEventID (sv_sync s) \<le> ms_nextEventID (sv_sync t)"
    using grows_new_events [OF mem_steps_grow inv] t(1) by metis
  moreover have "page_end ?c ?p \<le> ms_nextEventID (sv_sync s)"
  proof (cases "?p = []")
    case False
    then have "last ?p \<in> set ?log"
      using in_set_takeD [of "last ?p" "nat limit" "after ?c ?log"] last_in_set [OF False]
      by (simp add: page_def) (simp add: after_def)
    then show ?thesis using event_log_ids [OF inv] False by (simp add: page_end_def)
  qed (use assms(1) in \<open>simp add: page_end_def caught_up_to_def\<close>)
  moreover note up_to_page_end [OF event_log_in_order [OF inv], of ?c limit]
  ultimately show ?thesis
    using assms(1) t by (auto simp: caught_up_to_def device_pulls_def r)
qed

lemma session_caught_up: "session s d \<Longrightarrow> caught_up_to s d"
proof (induction rule: session.induct)
  case (session_start faults)
  then show ?case
    by (simp add: caught_up_to_def NewServer_def mem_inv_init)
      (simp add: NewServer_def new_device_def NewMemorySyncStore_def event_log_def up_to_def after_def)
qed (auto intro: caught_up_server caught_up_pull)

lemma caught_up_end:
  assumes "caught_up_to s d" "\<not> dv_more d"
  shows "dv_books d = live_library (sv_sync s)" "dv_entities d = live_entities (sv_sync s)"
proof -
  have inv: "mem_inv (sv_sync s)" using assms(1) by (simp add: caught_up_to_def)
  then have "up_to (dv_cursor d) (event_log (sv_sync s)) = event_log (sv_sync s)"
    using up_to_after [OF event_log_in_order [OF inv], of "dv_cursor d"] assms by (simp add: caught_up_to_def)
  then show "dv_books d = live_library (sv_sync s)" "dv_entities d = live_entities (sv_sync s)"
    using assms(1) inv by (auto simp: caught_up_to_def mem_inv_def log_ok_def)
qed

end
