(* ===== verification/Restore.thy ===== *)
theory Restore
  imports MemReach
begin

text \<open>
  What \<open>RestoreLibrary\<close> and \<open>SnapshotLibrary\<close> of the in-memory store do to the library as a whole, and
  that restoring a snapshot brings the library back.
\<close>

section \<open>The effect of the two loops\<close>

lemma live_put_book [simp]:
  "live_library (with_event clk c dev r st (put_book u b s)) =
     (live_library s)(u := (if bk_deleted b then None else Some (bk_payload b)))"
  by (auto simp: live_library_def fun_eq_iff)

lemma revision_put_book [simp]:
  "book_revision (with_event clk c dev r st (put_book u b s)) = (book_revision s)(u := bk_revision b)"
  by (auto simp: book_revision_def fun_eq_iff)

definition restored_library :: "book_snapshot_item list \<Rightarrow> (string \<rightharpoonup> raw)" where
  "restored_library its u = map_of (rev (map (\<lambda>it. (it_UUID it, snapshotItemPayload it)) its)) u"

lemma restored_library_Nil [simp]: "restored_library [] u = None"
  by (simp add: restored_library_def)

lemma restored_library_Cons:
  "restored_library (it # its) u =
     (case restored_library its u of Some p \<Rightarrow> Some p
      | None \<Rightarrow> if u = it_UUID it then Some (snapshotItemPayload it) else None)"
  by (simp add: restored_library_def map_add_def split: option.splits)

lemma restored_library_None: "restored_library its u = None \<longleftrightarrow> u \<notin> it_UUID ` set its"
  by (auto simp: restored_library_def map_of_eq_None_iff image_image)

definition mentions :: "string \<Rightarrow> book_snapshot_item list \<Rightarrow> int" where
  "mentions u its = int (length (filter (\<lambda>it. it_UUID it = u) its))"

lemma mentions_simps [simp]:
  "mentions u [] = 0" "mentions u (it # its) = mentions u its + (if it_UUID it = u then 1 else 0)"
  by (simp_all add: mentions_def)

lemma mentions_nonneg [simp]: "0 \<le> mentions u its"
  by (simp add: mentions_def)

text \<open>The largest revision a run of writes assigns, starting from \<open>m\<close>.\<close>

definition largest :: "int \<Rightarrow> (string \<Rightarrow> int) \<Rightarrow> string set \<Rightarrow> int \<Rightarrow> bool" where
  "largest m f us m' \<longleftrightarrow> m \<le> m' \<and> (\<forall>u\<in>us. f u \<le> m') \<and> (m' = m \<or> (\<exists>u\<in>us. m' = f u))"

lemma largest_insert: "largest (max (f u) m) f us m' \<Longrightarrow> largest m f (insert u us) m'"
  by (auto simp: largest_def)

lemma largest_trans:
  assumes "largest m f us m1" "largest m1 g vs m2" "\<And>u. u \<in> us \<Longrightarrow> g u = f u"
  shows "largest m g (us \<union> vs) m2"
proof -
  have "m \<le> m2" using assms(1,2) by (simp add: largest_def)
  moreover have "g u \<le> m2" if "u \<in> us \<union> vs" for u
    using that assms unfolding largest_def by (metis UnE order_trans)
  moreover have "m2 = m \<or> (\<exists>u\<in>us \<union> vs. m2 = g u)"
    using assms unfolding largest_def by (metis UnCI)
  ultimately show ?thesis by (simp add: largest_def)
qed

lemma fold_restore_item_effect:
  "fold (restore_item clk dev) its (m, s) = (m', t) \<Longrightarrow>
     (\<forall>u. live_library t u = (case restored_library its u of Some p \<Rightarrow> Some p | None \<Rightarrow> live_library s u)) \<and>
     (\<forall>u. book_revision t u = book_revision s u + mentions u its)"
proof (induction its arbitrary: m s)
  case (Cons it its)
  then show ?case
    by (auto simp: restore_item_eq restored_library_Cons split: option.splits dest!: Cons.IH)
qed simp

lemma fold_restore_item_max:
  "fold (restore_item clk dev) its (m, s) = (m', t) \<Longrightarrow>
     largest m (book_revision t) (it_UUID ` set its) m'"
proof (induction its arbitrary: m' t rule: rev_induct)
  case (snoc it its)
  obtain m1 s1 where one: "fold (restore_item clk dev) its (m, s) = (m1, s1)" by fastforce
  from snoc.IH [OF this] have "largest m (book_revision s1) (it_UUID ` set its) m1" .
  moreover from snoc.prems one have "m' = max (book_revision s1 (it_UUID it) + 1) m1"
    "book_revision t = (book_revision s1)(it_UUID it := book_revision s1 (it_UUID it) + 1)"
    by (auto simp: restore_item_eq)
  ultimately show ?case by (auto simp: largest_def max_def) (fastforce+)?
qed (simp add: largest_def)

lemma restore_delete_known:
  "map_of (ms_books s) u = Some b \<Longrightarrow>
     restore_delete clk dev u (m, s) = (max (book_revision s u + 1) m,
       with_event clk (book_change (''restore-del-'' @ u) u OpDelete None) dev (book_revision s u + 1) StatusDone
         (put_book u (b\<lparr>bk_revision := book_revision s u + 1, bk_deleted := True\<rparr>) s))"
  by (simp add: restore_delete_eq book_revision_def)

lemma fold_restore_delete_effect:
  "fold (restore_delete clk dev) us (m, s) = (m', t) \<Longrightarrow> distinct us \<Longrightarrow>
     set us \<subseteq> dom (map_of (ms_books s)) \<Longrightarrow>
     (\<forall>u. live_library t u = (if u \<in> set us then None else live_library s u)) \<and>
     (\<forall>u. book_revision t u = book_revision s u + (if u \<in> set us then 1 else 0)) \<and>
     largest m (book_revision t) (set us) m'"
proof (induction us arbitrary: m s)
  case (Cons u us)
  then obtain b where b: "map_of (ms_books s) u = Some b" by auto
  let ?m = "max (book_revision s u + 1) m"
  obtain s1 where s1: "restore_delete clk dev u (m, s) = (?m, s1)"
    "live_library s1 = (live_library s)(u := None)"
    "book_revision s1 = (book_revision s)(u := book_revision s u + 1)"
    "dom (map_of (ms_books s1)) = insert u (dom (map_of (ms_books s)))"
    by (simp add: restore_delete_known [OF b])
  have "fold (restore_delete clk dev) us (?m, s1) = (m', t)"
    using Cons.prems(1) s1 by simp
  moreover have "set us \<subseteq> dom (map_of (ms_books s1))" "distinct us" "u \<notin> set us"
    using Cons.prems(2,3) s1(4) by auto
  ultimately have "\<forall>v. live_library t v = (if v \<in> set us then None else live_library s1 v)"
    "\<forall>v. book_revision t v = book_revision s1 v + (if v \<in> set us then 1 else 0)"
    "largest ?m (book_revision t) (set us) m'" and u: "u \<notin> set us"
    using Cons.IH by blast+
  moreover from this(2) u s1(3) have "book_revision t u = book_revision s u + 1" by simp
  ultimately have "largest m (book_revision t) (set (u # us)) m'"
    "\<forall>v. live_library t v = (if v \<in> set (u # us) then None else live_library s v)"
    "\<forall>v. book_revision t v = book_revision s v + (if v \<in> set (u # us) then 1 else 0)"
    using s1(2,3) u largest_insert [of "book_revision t" u m "set us" m'] by simp_all
  then show ?case by (intro conjI)
qed (simp add: largest_def)

section \<open>The library after a restore\<close>

lemma live_uuids_set: "distinct (keys bs) \<Longrightarrow>
  set (live_uuids bs) = {u. \<exists>b. map_of bs u = Some b \<and> \<not> bk_deleted b} \<and> distinct (live_uuids bs)"
  by (auto simp: live_uuids_def map_of_eq_Some_iff intro!: distinct_map_filter rev_image_eqI)

lemma restore_rest_set:
  assumes "mem_inv s"
  shows "set (restore_rest its s) = dom (live_library s) - it_UUID ` set its" "distinct (restore_rest its s)"
  using live_uuids_set [of "ms_books s"] assms
  by (auto simp: restore_rest_def mem_inv_def books_ok_def live_library_def split: option.splits if_splits)

lemma restore_library:
  assumes inv: "mem_inv s" and iter: "range_order iter"
    and dec: "json_Unmarshal dec_items None snap = (items, True)"
    and run: "mem_RestoreLibrary clk iter snap dev s = (r, t)"
  defines "its \<equiv> slice_list items"
  shows "live_library t = restored_library its"
    and "book_revision t u = book_revision s u +
      (if u \<in> it_UUID ` set its then mentions u its else if u \<in> dom (live_library s) then 1 else 0)"
    and "\<exists>m. r = Inr \<lparr>rr_Restored = int (length its), rr_Revision = m\<rparr> \<and>
      largest 0 (book_revision t) (it_UUID ` set its \<union> dom (live_library s)) m"
proof -
  obtain m1 s1 where one: "fold (restore_item clk dev) its (0, s) = (m1, s1)" by fastforce
  define us where "us = iter (restore_rest its s)"
  obtain m2 where two: "fold (restore_delete clk dev) us (m1, s1) = (m2, t)"
    and r: "r = Inr \<lparr>rr_Restored = int (length its), rr_Revision = m2\<rparr>"
    using run dec one by (auto simp: mem_RestoreLibrary_eq Let_def restore_first_def its_def us_def prod_eq_iff)
  note e1 = fold_restore_item_effect [OF one] fold_restore_item_max [OF one]
  have us: "set us = dom (live_library s) - it_UUID ` set its" "distinct us"
    using restore_rest_set [OF inv, of its] iter by (simp_all add: us_def range_order_set range_order_distinct)
  have "grows s s1"
    using grows_fold_item [of s "(0, s)" clk dev its] one by simp
  then have sub: "set us \<subseteq> dom (map_of (ms_books s1))"
  proof -
    have "dom (live_library s) \<subseteq> dom (map_of (ms_books s))"
      by (auto simp: live_library_def split: option.splits)
    also have "\<dots> \<subseteq> dom (map_of (ms_books s1))" using \<open>grows s s1\<close> by (simp add: grows_def)
    finally show ?thesis using us by blast
  qed
  note e2 = fold_restore_delete_effect [OF two us(2) sub]
  show "live_library t = restored_library its"
  proof
    fix u
    show "live_library t u = restored_library its u"
      using e1(1) e2 us(1) restored_library_None [of its u]
      by (cases "restored_library its u") (auto simp: domIff)
  qed
  show "book_revision t u = book_revision s u +
      (if u \<in> it_UUID ` set its then mentions u its else if u \<in> dom (live_library s) then 1 else 0)"
    using e1 e2 us(1) by (auto simp: mentions_def filter_empty_conv)
  have "book_revision t u = book_revision s1 u" if "u \<in> it_UUID ` set its" for u
    using e2 us(1) that by simp
  then have "largest 0 (book_revision t) (it_UUID ` set its \<union> set us) m2"
    using largest_trans [OF e1(2)] e2 by blast
  then have "largest 0 (book_revision t) (it_UUID ` set its \<union> dom (live_library s)) m2"
    using us(1) by (simp add: Un_Diff_cancel)
  with r show "\<exists>m. r = Inr \<lparr>rr_Restored = int (length its), rr_Revision = m\<rparr> \<and>
      largest 0 (book_revision t) (it_UUID ` set its \<union> dom (live_library s)) m" by blast
qed

section \<open>Snapshots\<close>

text \<open>What decoding keeps: the numbers of a decoded payload fit their type.\<close>

lemma dec_members_keeps:
  assumes "\<And>k d v j. field k = Some d \<Longrightarrow> P v \<Longrightarrow> P (fst (d v j))"
  shows "P v \<Longrightarrow> P (fst (dec_members field v ms))"
proof (induction ms arbitrary: v)
  case (Cons m ms)
  obtain k j where m: "m = (k, j)" by (cases m)
  show ?case
  proof (cases "field (fold_name k)")
    case None
    with Cons m show ?thesis by simp
  next
    case (Some d)
    with assms Cons.prems have "P (fst (d v j))" by blast
    with Cons.IH m Some show ?thesis by (simp add: case_prod_beta)
  qed
qed simp

lemma dec_struct_keeps:
  assumes "\<And>k d v j. field k = Some d \<Longrightarrow> P v \<Longrightarrow> P (fst (d v j))" "P v"
  shows "P (fst (dec_struct field v j))"
  using assms dec_members_keeps [of field P] by (auto simp: dec_struct_def split: json.splits)

lemma dec_elems_keeps:
  assumes "\<And>v j. P v \<Longrightarrow> P (fst (d v j))" "P zero"
  shows "list_all P old \<Longrightarrow> list_all P (fst (dec_elems d zero old js))"
proof (induction js arbitrary: old)
  case (Cons j js)
  then have "list_all P (tl old)" by (cases old) auto
  with Cons assms show ?case by (auto simp: case_prod_beta split: list.splits)
qed simp

lemma dec_slice_keeps:
  assumes "\<And>v j. P v \<Longrightarrow> P (fst (d v j))" "P zero" "list_all P (slice_list old)"
  shows "list_all P (slice_list (fst (dec_slice d zero old j)))"
  using assms dec_elems_keeps [of P d zero]
  by (auto simp: dec_slice_def case_prod_beta split: json.splits option.splits)

lemma dec_int64_keeps: "in_int64 v \<Longrightarrow> in_int64 (fst (dec_int64 v j))"
  by (auto simp: dec_int64_def split: json.splits)

lemma dec_file_keeps: "file_ok v \<Longrightarrow> file_ok (fst (dec_file v j))"
  unfolding dec_file_def
  by (rule dec_struct_keeps)
    (auto simp: file_ok_def dec_field_def case_prod_beta dec_int64_keeps split: if_splits)

lemma dec_payload_keeps: "payload_ok v \<Longrightarrow> payload_ok (fst (dec_payload v j))"
  unfolding dec_payload_def
  by (rule dec_struct_keeps)
    (auto simp: payload_ok_def dec_field_def case_prod_beta dec_int64_keeps file_ok_def zero_file_def
      intro!: dec_slice_keeps dec_file_keeps split: if_splits)

lemma parse_ok: "payload_ok (parseBookPayload r)"
proof -
  have "payload_ok zero_payload" by (simp add: payload_ok_def zero_payload_def)
  then show ?thesis
    by (auto simp: parseBookPayload_def json_Unmarshal_def intro: dec_payload_keeps split: option.splits)
qed

lemma snapshot_item_eq:
  "snapshot_item u b = \<lparr>it_UUID = u, it_Name = bp_Name (parseBookPayload (bk_payload b)),
     it_CurrentPage = bp_CurrentPage (parseBookPayload (bk_payload b)),
     it_CoverHash = bp_CoverHash (parseBookPayload (bk_payload b)),
     it_Files = (if bk_payload b = None then Some (JArr [])
                 else Some (enc_files (bp_Files (parseBookPayload (bk_payload b))))),
     it_Revision = bk_revision b\<rparr>"
  by (auto simp: snapshot_item_def parseBookPayload_def Let_def json_Unmarshal_def dec_payload_def
      dec_struct_def)

lemma snapshot_item_ok: "in_int64 (bk_revision b) \<Longrightarrow> item_ok (snapshot_item u b)"
  using parse_ok [of "bk_payload b"] by (simp add: item_ok_def snapshot_item_eq payload_ok_def)

lemma parse_snapshot_payload:
  assumes "in_int64 (it_CurrentPage i)" "list_all file_ok fs"
    and "it_Files i = Some JNull \<and> fs = [] \<or> it_Files i = Some (enc_files (Some fs))"
  shows "parseBookPayload (snapshotItemPayload i) =
    \<lparr>bp_Name = it_Name i, bp_CurrentPage = it_CurrentPage i, bp_CoverHash = it_CoverHash i, bp_Files = Some fs\<rparr>"
proof -
  have files: "dec_files None (enc_files (Some fs)) = (Some fs, True)"
    using dec_files_enc [of "Some fs"] assms(2) by simp
  have "enc_raw (if it_Files i = None \<or> it_Files i = Some JNull then Some (JArr []) else it_Files i)
      = enc_files (Some fs)"
    using assms(3) by (auto simp: enc_raw_def enc_files_def enc_slice_def)
  then have "snapshotItemPayload i = Some (JObj [(''cover_hash'', nilOrString (it_CoverHash i)),
      (''current_page'', JInt (it_CurrentPage i)), (''files'', enc_files (Some fs)), (''name'', JStr (it_Name i))])"
    by (simp only: snapshotItemPayload_def Let_def)
  then show ?thesis
    using assms(1) files
    by (auto simp: parseBookPayload_def json_Unmarshal_def dec_payload_def zero_payload_def dec_files_def
        dec_field_def nilOrString_def dec_string_def)
qed

lemma content_of_snapshot:
  "parseBookPayload (snapshotItemPayload (snapshot_item u b)) = book_content (bk_payload b)"
proof -
  let ?p = "parseBookPayload (bk_payload b)"
  have "parseBookPayload (snapshotItemPayload (snapshot_item u b)) =
    \<lparr>bp_Name = it_Name (snapshot_item u b), bp_CurrentPage = it_CurrentPage (snapshot_item u b),
     bp_CoverHash = it_CoverHash (snapshot_item u b), bp_Files = Some (slice_list (bp_Files ?p))\<rparr>"
  proof (rule parse_snapshot_payload)
    show "in_int64 (it_CurrentPage (snapshot_item u b))" "list_all file_ok (slice_list (bp_Files ?p))"
      using parse_ok [of "bk_payload b"] by (simp_all add: snapshot_item_eq payload_ok_def)
    show "it_Files (snapshot_item u b) = Some JNull \<and> slice_list (bp_Files ?p) = [] \<or>
        it_Files (snapshot_item u b) = Some (enc_files (Some (slice_list (bp_Files ?p))))"
      by (cases "bp_Files ?p")
        (auto simp: snapshot_item_eq enc_files_def enc_slice_def parseBookPayload_def zero_payload_def)
  qed
  then show ?thesis by (simp add: snapshot_item_eq book_content_def Let_def)
qed

lemma snapshot_items_set:
  "set (snapshot_items bs us) =
     {snapshot_item u b |u b. u \<in> set us \<and> map_of bs u = Some b \<and> \<not> bk_deleted b}"
  by (induction bs us rule: snapshot_items.induct) (auto split: option.splits)

lemma snapshot_item_uuid [simp]: "it_UUID (snapshot_item u b) = u"
  by (simp add: snapshot_item_eq)

lemma snapshot_items_distinct: "distinct us \<Longrightarrow> distinct (map it_UUID (snapshot_items bs us))"
  by (induction bs us rule: snapshot_items.induct) (auto simp: snapshot_items_set split: option.splits)

lemma restored_snapshot:
  assumes "mem_inv s" "range_order iter"
  shows "restored_library (snapshot_items (ms_books s) (iter (keys (ms_books s)))) u =
    (case map_of (ms_books s) u of
       None \<Rightarrow> None
     | Some b \<Rightarrow> if bk_deleted b then None else Some (snapshotItemPayload (snapshot_item u b)))"
proof -
  let ?its = "snapshot_items (ms_books s) (iter (keys (ms_books s)))"
  have us: "set (iter (keys (ms_books s))) = set (keys (ms_books s))" "distinct (iter (keys (ms_books s)))"
    using assms by (simp_all add: range_order_set range_order_distinct mem_inv_def books_ok_def)
  let ?ps = "map (\<lambda>it. (it_UUID it, snapshotItemPayload it)) ?its"
  have "distinct (map fst (rev ?ps))"
    using snapshot_items_distinct [OF us(2), of "ms_books s"] by (simp add: comp_def rev_map [symmetric])
  then have "restored_library ?its u = Some p \<longleftrightarrow> (u, p) \<in> set ?ps" for p
    by (simp add: restored_library_def map_of_eq_Some_iff)
  moreover have "(u, p) \<in> set ?ps \<longleftrightarrow>
      (\<exists>b. map_of (ms_books s) u = Some b \<and> \<not> bk_deleted b \<and> p = snapshotItemPayload (snapshot_item u b))" for p
  proof -
    have "(u, p) \<in> set ?ps \<longleftrightarrow> (\<exists>it\<in>set ?its. u = it_UUID it \<and> p = snapshotItemPayload it)" by auto
    also have "\<dots> \<longleftrightarrow> (\<exists>b. u \<in> set (keys (ms_books s)) \<and> map_of (ms_books s) u = Some b \<and>
        \<not> bk_deleted b \<and> p = snapshotItemPayload (snapshot_item u b))"
      unfolding snapshot_items_set us(1) by fastforce
    finally show ?thesis using map_of_Some_key [of "ms_books s" u] by blast
  qed
  ultimately show ?thesis
    by (intro option_eqI) (auto split: option.splits)
qed

text \<open>A snapshot decodes to the items it was made of.\<close>

lemma snapshot_decodes:
  assumes "mem_SnapshotLibrary iter s = (Inr p, t)" "\<And>u. in_int64 (book_revision s u)"
  shows "json_Unmarshal dec_items None p = (Some (snapshot_items (ms_books s) (iter (keys (ms_books s)))), True)"
    and "t = s"
proof -
  have "list_all item_ok (snapshot_items (ms_books s) (iter (keys (ms_books s))))"
  proof (clarsimp simp: list_all_iff snapshot_items_set)
    fix u b assume "map_of (ms_books s) u = Some b"
    then show "item_ok (snapshot_item u b)"
      using assms(2) [of u] by (simp add: book_revision_def snapshot_item_ok)
  qed
  then show "json_Unmarshal dec_items None p = (Some (snapshot_items (ms_books s) (iter (keys (ms_books s)))), True)"
    "t = s"
    using assms(1) dec_items_enc by (auto simp: mem_SnapshotLibrary_def json_Unmarshal_def)
qed

end
