(* ===== verification/FileFacts.thy ===== *)
theory FileFacts
  imports MemServer
begin

text \<open>
  The contract of the object store, what \<open>FileService\<close> does over any store that satisfies it, and the
  in-memory store as an instance.
\<close>

section \<open>The contract\<close>

text \<open>\<open>obj\<close> are the complete objects, \<open>pend\<close> the parts received so far of the uploads under way.\<close>

locale blob_store =
  fixes store :: "'s object_store"
    and inv :: "'s \<Rightarrow> bool"
    and obj :: "'s \<Rightarrow> string \<rightharpoonup> bytes"
    and pend :: "'s \<Rightarrow> string \<rightharpoonup> (int \<rightharpoonup> bytes)"
  assumes has: "os_HasObject store k s = (Inr (obj s k \<noteq> None), s)"
    and obj_size: "os_ObjectSize store k s =
      (case obj s k of None \<Rightarrow> Inl ErrObjectNotFound | Some d \<Rightarrow> Inr (int (length d)), s)"
    and obj_get: "os_GetObject store k s =
      (case obj s k of None \<Rightarrow> Inl ErrObjectNotFound | Some d \<Rightarrow> Inr (d, int (length d)), s)"
    and put_ok: "read_limited r sz = Inr d \<Longrightarrow> int (length d) = sz \<Longrightarrow>
      \<exists>t. os_PutObject store k sz r s = (Inr (), t) \<and> obj t = (obj s)(k \<mapsto> d)"
    and put_bad: "os_PutObject store k sz r s = (Inl e, t) \<Longrightarrow> obj t = obj s"
    and put_only: "os_PutObject store k sz r s = (Inr (), t) \<Longrightarrow>
      \<exists>d. read_limited r sz = Inr d \<and> int (length d) = sz"
    and init: "inv s \<Longrightarrow> \<exists>u t. os_InitUpload store k s = (Inr u, t) \<and> inv t \<and> obj t = obj s \<and>
      pend s u = None \<and> pend t = (pend s)(u \<mapsto> (\<lambda>_. None))"
    and part: "inv s \<Longrightarrow> pend s u = Some ps \<Longrightarrow> \<exists>etag t. os_UploadPart store k u n d s = (Inr etag, t) \<and>
      inv t \<and> obj t = obj s \<and> pend t = (pend s)(u \<mapsto> ps(n \<mapsto> d))"
    and complete: "inv s \<Longrightarrow> pend s u = Some ps \<Longrightarrow> \<forall>m\<in>set ms. ps (pm_PartNumber m) \<noteq> None \<Longrightarrow>
      \<exists>t. os_CompleteUpload store k u ms s = (Inr (), t) \<and> inv t \<and>
        obj t = (obj s)(k \<mapsto> concat (map (\<lambda>m. the (ps (pm_PartNumber m))) ms))"

definition stored :: "(string \<rightharpoonup> bytes) \<Rightarrow> string \<Rightarrow> int \<Rightarrow> bool" where
  "stored objs hash sz \<longleftrightarrow> (case objs (objectKey hash) of None \<Rightarrow> False | Some d \<Rightarrow> int (length d) = sz)"

definition files_complete :: "(string \<rightharpoonup> bytes) \<Rightarrow> book_file_meta list \<Rightarrow> bool" where
  "files_complete objs fs \<longleftrightarrow> (\<forall>f\<in>set fs. fm_Hash f \<noteq> [] \<longrightarrow> stored objs (fm_Hash f) (fm_Size f))"

text \<open>A client that sends the parts of a file one after the other and keeps what it is told.\<close>

fun send_parts ::
  "'s file_service \<Rightarrow> string \<Rightarrow> string \<Rightarrow> (int \<times> bytes) list \<Rightarrow> ('s, upload_part_meta list) op" where
  "send_parts fs hash u [] = ret []"
| "send_parts fs hash u ((n, d) # ps) =
     bindE (UploadPart fs hash u n d) (\<lambda>etag.
     bindE (send_parts fs hash u ps) (\<lambda>ms.
       ret (\<lparr>pm_PartNumber = n, pm_ETag = etag\<rparr> # ms)))"

context blob_store
begin

lemma all_files_complete:
  assumes "fs_objects svc = store"
  shows "AllFilesComplete svc fs s = (Inr (files_complete (obj s) fs), s)"
proof (induction fs)
  case (Cons f fs)
  then show ?case
    using assms by (auto simp: bindE_def attempt_apply obj_size files_complete_def stored_def split: option.splits)
qed (simp add: files_complete_def)

lemma check_files_loop_eq:
  assumes "fs_objects svc = store"
  shows "check_files_loop svc items missing s =
    (Inr (missing @ filter (\<lambda>it. \<not> stored (obj s) (fc_Hash it) (fc_Size it)) items), s)"
proof (induction items arbitrary: missing)
  case (Cons it items)
  then show ?case
    using assms by (auto simp: bindE_def attempt_apply obj_size stored_def split: option.splits)
qed simp

lemma send_parts_ok:
  assumes "fs_objects svc = store" "inv s" "pend s u = Some ps" "obj s (objectKey hash) = None"
    and "\<forall>(n, d)\<in>set parts. 1 \<le> n \<and> d \<noteq> []"
  shows "\<exists>ms t. send_parts svc hash u parts s = (Inr ms, t) \<and> inv t \<and> obj t = obj s \<and>
    pend t = (pend s)(u \<mapsto> ps ++ map_of (rev parts)) \<and> map pm_PartNumber ms = map fst parts"
  using assms(2-)
proof (induction parts arbitrary: s ps)
  case Nil
  then show ?case by (auto simp: fun_upd_idem)
next
  case (Cons p parts)
  obtain n d where p: "p = (n, d)" "1 \<le> n" "d \<noteq> []" using Cons.prems(4) by (cases p) auto
  from part [OF Cons.prems(1,2), of "objectKey hash" n d] obtain etag s1 where
    s1: "os_UploadPart store (objectKey hash) u n d s = (Inr etag, s1)" "inv s1" "obj s1 = obj s"
      "pend s1 = (pend s)(u \<mapsto> ps(n \<mapsto> d))" by blast
  have one: "UploadPart svc hash u n d s = (Inr etag, s1)"
    using p s1 assms(1) Cons.prems(3) by (simp add: UploadPart_def bindE_def has)
  obtain ms t where rest: "send_parts svc hash u parts s1 = (Inr ms, t)" "inv t" "obj t = obj s1"
      "pend t = (pend s1)(u \<mapsto> ps(n \<mapsto> d) ++ map_of (rev parts))" "map pm_PartNumber ms = map fst parts"
  proof -
    have "pend s1 u = Some (ps(n \<mapsto> d))" "obj s1 (objectKey hash) = None" "\<forall>(n, d)\<in>set parts. 1 \<le> n \<and> d \<noteq> []"
      using s1 Cons.prems(3,4) by auto
    from Cons.IH [OF s1(2) this] show ?thesis using that by blast
  qed
  have same: "ps ++ map_of (rev (p # parts)) = ps(n \<mapsto> d) ++ map_of (rev parts)"
    by (simp add: p map_add_def fun_eq_iff split: option.splits)
  have "pend t = (pend s)(u \<mapsto> ps ++ map_of (rev (p # parts)))"
    unfolding same using rest(4) s1(4) by (simp only: fun_upd_upd)
  moreover have "send_parts svc hash u (p # parts) s = (Inr (\<lparr>pm_PartNumber = n, pm_ETag = etag\<rparr> # ms), t)"
    using one rest(1) p by (simp add: bindE_def)
  moreover have "inv t \<and> obj t = obj s \<and>
      map pm_PartNumber (\<lparr>pm_PartNumber = n, pm_ETag = etag\<rparr> # ms) = map fst (p # parts)"
    using rest(2,3,5) s1(3) p(1) by simp
  ultimately show ?case by blast
qed

lemma multipart:
  assumes svc: "fs_objects svc = store" "inv s" "obj s (objectKey hash) = None" "0 \<le> sz"
    and meta: "\<And>t. \<exists>t'. fl_UpsertMeta (fs_files svc) hash sz [] t = (Inr (), t') \<and> obj t' = obj t"
    and parts: "\<forall>(n, d)\<in>set parts. 1 \<le> n \<and> d \<noteq> []"
    and ms: "ms \<noteq> []" "pm_PartNumber ` set ms \<subseteq> fst ` set parts"
  shows "\<exists>u s1 rs s2 s3. FileInitUpload svc hash sz s = (Inr \<lparr>fi_UploadID = u, fi_Complete = False\<rparr>, s1) \<and>
    send_parts svc hash u parts s1 = (Inr rs, s2) \<and>
    CompleteUpload svc hash u sz ms s2 = (Inr (), s3) \<and>
    obj s3 = (obj s)(objectKey hash \<mapsto>
      concat (map (\<lambda>m. the (map_of (rev parts) (pm_PartNumber m))) ms))"
proof -
  from init [OF svc(2), of "objectKey hash"] obtain u s1 where
    s1: "os_InitUpload store (objectKey hash) s = (Inr u, s1)" "inv s1" "obj s1 = obj s"
      "pend s1 u = Some (\<lambda>_. None)" by fastforce
  have fi: "FileInitUpload svc hash sz s = (Inr \<lparr>fi_UploadID = u, fi_Complete = False\<rparr>, s1)"
    using s1 svc by (simp add: FileInitUpload_def bindE_def has)
  obtain rs s2 where s2: "send_parts svc hash u parts s1 = (Inr rs, s2)" "inv s2" "obj s2 = obj s"
      "pend s2 u = Some (map_of (rev parts))"
    using send_parts_ok [OF svc(1) s1(2,4) _ parts, of hash] svc(3) s1(3) by auto
  have known: "map_of (rev parts) (pm_PartNumber m) \<noteq> None" if "m \<in> set ms" for m
    using ms(2) that by (auto simp: map_of_eq_None_iff)
  then obtain s3 where s3: "os_CompleteUpload store (objectKey hash) u ms s2 = (Inr (), s3)"
      "obj s3 = (obj s2)(objectKey hash \<mapsto> concat (map (\<lambda>m. the (map_of (rev parts) (pm_PartNumber m))) ms))"
    using complete [OF s2(2,4), of ms "objectKey hash"] by blast
  obtain s4 where s4: "fl_UpsertMeta (fs_files svc) hash sz [] s3 = (Inr (), s4)" "obj s4 = obj s3"
    using meta by blast
  have "CompleteUpload svc hash u sz ms s2 = (Inr (), s4)"
    using s3 s4 ms(1) svc(1) by (simp add: CompleteUpload_def bindE_def wrapE_def)
  with fi s2 s3 s4 show ?thesis by metis
qed

lemma direct_upload:
  assumes "fs_objects svc = store"
    and meta: "\<And>t. \<exists>t'. fl_UpsertMeta (fs_files svc) hash sz [] t = (Inr (), t') \<and> obj t' = obj t"
    and "DirectUpload svc hash sz r s = (res, t)"
  shows "(res = Inr () \<longrightarrow> stored (obj t) hash sz) \<and>
    (stored (obj s) hash sz \<or> res \<noteq> Inr () \<longrightarrow> obj t = obj s) \<and>
    (res = Inr () \<longleftrightarrow> hash \<noteq> [] \<and> 0 \<le> sz \<and>
       (stored (obj s) hash sz \<or> (\<exists>d. read_limited r sz = Inr d \<and> int (length d) = sz)))"
proof (cases "hash = [] \<or> sz < 0 \<or> stored (obj s) hash sz")
  case True
  with assms(1,3) show ?thesis
    by (auto simp: DirectUpload_def bindE_def attempt_apply obj_size stored_def split: option.splits if_splits)
next
  case False
  then have size: "fst (os_ObjectSize store (objectKey hash) s) \<noteq> Inr sz"
    "snd (os_ObjectSize store (objectKey hash) s) = s"
    by (auto simp: obj_size stored_def split: option.splits)
  obtain q s1 where put: "os_PutObject store (objectKey hash) sz r s = (q, s1)" by fastforce
  show ?thesis
  proof (cases q)
    case (Inl e)
    have "obj s1 = obj s" using put_bad put Inl by blast
    moreover have "\<not> (\<exists>d. read_limited r sz = Inr d \<and> int (length d) = sz)"
    proof
      assume "\<exists>d. read_limited r sz = Inr d \<and> int (length d) = sz"
      with put_ok [of r sz _ "objectKey hash" s] put Inl show False by auto
    qed
    moreover have "res = Inl (ErrWrap ''direct upload'' e)" "t = s1"
      using False size put Inl assms(1,3) by (simp_all add: DirectUpload_def bindE_def attempt_apply wrapE_def)
    ultimately show ?thesis using False by simp
  next
    case (Inr x)
    with put_only [of "objectKey hash" sz r s s1] put obtain d where d: "read_limited r sz = Inr d" "int (length d) = sz" by auto
    obtain t1 where "os_PutObject store (objectKey hash) sz r s = (Inr (), t1)"
        "obj t1 = (obj s)(objectKey hash \<mapsto> d)"
      using put_ok [OF d] by blast
    then have s1: "obj s1 = (obj s)(objectKey hash \<mapsto> d)" using put by simp
    obtain s2 where s2: "fl_UpsertMeta (fs_files svc) hash sz [] s1 = (Inr (), s2)" "obj s2 = obj s1"
      using meta by blast
    with False size put Inr assms(1,3) have "res = Inr ()" "t = s2"
      by (simp_all add: DirectUpload_def bindE_def attempt_apply wrapE_def)
    with s1 s2 d False show ?thesis by (auto simp: stored_def)
  qed
qed

end

section \<open>The in-memory object store\<close>

interpretation mem_blobs: blob_store server_object_store "\<lambda>s. objects_ok (sv_objects s)"
  "\<lambda>s. mo_objects (sv_objects s)" "\<lambda>s. mo_uploads (sv_objects s)"
proof (unfold_locales, goal_cases)
  case (7 s k)
  then show ?case
    using objects_ok_InitUpload [of "sv_objects s" k] objects_ok_fresh [of "sv_objects s"]
    by (simp add: server_object_store_def on_apply mem_InitUpload_def Let_def)
next
  case (8 s u ps k n d)
  then show ?case
    using objects_ok_rest(1) [of "sv_objects s" k u n d]
    by (simp add: server_object_store_def on_apply mem_UploadPart_def)
next
  case (9 s u ps ms k)
  then have "find (\<lambda>p. ps (pm_PartNumber p) = None) ms = None" by (simp add: find_None_iff)
  with 9 objects_ok_rest(2) [of "sv_objects s" k u ms] show ?case
    by (simp add: server_object_store_def on_apply mem_CompleteUpload_def assemble_eq)
qed (auto simp: server_object_store_def on_apply mem_HasObject_def mem_ObjectSize_def mem_GetObject_def
       mem_PutObject_def split: option.splits sum.splits if_splits)

lemma server_meta:
  "\<exists>t'. fl_UpsertMeta (fs_files server_files) h sz m t = (Inr (), t') \<and>
     mo_objects (sv_objects t') = mo_objects (sv_objects t)"
  by (simp add: server_files_def server_file_store_def on_apply mem_UpsertMeta_def)

lemma server_files_objects: "fs_objects server_files = server_object_store"
  by (simp add: server_files_def)

end
