(* ===== verification/PushFacts.thy ===== *)
theory PushFacts
  imports Device Restore FileFacts
begin

text \<open>
  \<open>Push\<close> on the in-memory server: one result per change, in order; the gate that keeps a book out
  until its files are stored; and the library version that it leaves behind.
\<close>

section \<open>One change\<close>

text \<open>The files a change has to have in the object store before it is applied.\<close>

definition required_files :: "change \<Rightarrow> book_file_meta list" where
  "required_files c =
     (if c_EntityType c = EntityBook \<and> c_Op c \<noteq> OpDelete \<and> c_Payload c \<noteq> None
      then (case json_Unmarshal dec_payload zero_payload (c_Payload c) of (p, ok) \<Rightarrow>
              if ok then slice_list (bp_Files p) else [])
      else [])"

definition objects :: "server \<Rightarrow> string \<rightharpoonup> bytes" where
  "objects s = mo_objects (sv_objects s)"

lemma verify_change_eq:
  "verify_change (mem_service clk iter) c s = (Inr (files_complete (objects s) (required_files c)), s)"
proof -
  have none: "files_complete objs []" for objs by (simp add: files_complete_def)
  show ?thesis
    using mem_blobs.all_files_complete [OF server_files_objects]
    by (auto simp: verify_change_def mem_service_def required_files_def wrapE_def none objects_def
        split: prod.splits)
qed

definition push_env :: "clock \<Rightarrow> string \<Rightarrow> string \<Rightarrow> clock \<times> string \<times> string" where
  "push_env clk source deviceID = (clk, source, deviceID)"

lemma apply_one_eq:
  "apply_one (mem_service clk iter) dev src c s =
     wrapE ''apply change'' (on_sync (mem_apply (push_env clk src dev) c)) s"
  by (simp add: apply_one_def mem_service_def mem_apply_def push_env_def)

text \<open>The result of one change and the store after it.\<close>

definition change_step ::
  "clock \<Rightarrow> string \<Rightarrow> string \<Rightarrow> (string \<rightharpoonup> bytes) \<Rightarrow> change \<Rightarrow> mem_sync \<Rightarrow> change_result \<times> mem_sync" where
  "change_step clk dev src objs c s =
     (if files_complete objs (required_files c)
      then (case mem_apply (push_env clk src dev) c s of
              (Inr w, t) \<Rightarrow> (outcome_result c w, t) | (Inl e, t) \<Rightarrow> (incomplete_result c, s))
      else (incomplete_result c, s))"

fun push_spec ::
  "clock \<Rightarrow> string \<Rightarrow> string \<Rightarrow> (string \<rightharpoonup> bytes) \<Rightarrow> change list \<Rightarrow> mem_sync \<Rightarrow> change_result list \<times> mem_sync"
where
  "push_spec clk dev src objs [] s = ([], s)"
| "push_spec clk dev src objs (c # cs) s =
     (let (r, s1) = change_step clk dev src objs c s; (rs, s2) = push_spec clk dev src objs cs s1
      in (r # rs, s2))"

lemma change_step_inv: "mem_inv s \<Longrightarrow> mem_inv (snd (change_step clk dev src objs c s))"
  using mem_apply_total [of "push_env clk src dev" c s]
    mem_lock.step_inv [OF _ mem_lock.apply_step, of s "push_env clk src dev" c]
  by (auto simp: change_step_def)

lemma push_loop_eq:
  "mem_inv (sv_sync s) \<Longrightarrow>
     push_loop (mem_service clk iter) dev src cs rs s =
       (Inr (rs @ fst (push_spec clk dev src (objects s) cs (sv_sync s))),
        s\<lparr>sv_sync := snd (push_spec clk dev src (objects s) cs (sv_sync s))\<rparr>)"
proof (induction cs arbitrary: rs s)
  case (Cons c cs)
  obtain w t where w: "mem_apply (push_env clk src dev) c (sv_sync s) = (Inr w, t)"
    using mem_apply_total by blast
  have "mem_inv t"
    using mem_lock.step_inv [OF Cons.prems mem_lock.apply_step, of "push_env clk src dev" c] w by simp
  then show ?case
    using Cons w
    by (simp add: bindE_def verify_change_eq apply_one_eq wrapE_def on_apply change_step_def objects_def
        case_prod_beta Let_def)
qed simp

section \<open>The library version\<close>

definition library_summary :: "string \<Rightarrow> memory_book \<Rightarrow> library_book" where
  "library_summary u b = \<lparr>lb_UUID = u, lb_Name = bp_Name (parseBookPayload (bk_payload b)),
     lb_Files = slice_list (bp_Files (parseBookPayload (bk_payload b)))\<rparr>"

text \<open>The live books with their names and files, straight from the store.\<close>

definition library_books :: "mem_sync \<Rightarrow> library_book list" where
  "library_books s = map (\<lambda>(u, b). library_summary u b) (filter (\<lambda>(u, b). \<not> bk_deleted b) (ms_books s))"

definition revisions_fit :: "mem_sync \<Rightarrow> bool" where
  "revisions_fit s \<longleftrightarrow> (\<forall>(u, b)\<in>set (ms_books s). in_int64 (bk_revision b))"

lemma library_book_of_item: "library_book_of (snapshot_item u b) = library_summary u b"
proof -
  let ?p = "parseBookPayload (bk_payload b)"
  have "dec_files None (enc_files (bp_Files ?p)) = (bp_Files ?p, True)"
    using parse_ok [of "bk_payload b"] by (intro dec_files_enc) (simp add: payload_ok_def)
  moreover have "dec_files None (JArr []) = (Some [], True)"
    by (simp add: dec_files_def dec_slice_def)
  moreover have "bk_payload b = None \<Longrightarrow> slice_list (bp_Files ?p) = []"
    by (simp add: parseBookPayload_def zero_payload_def)
  ultimately show ?thesis
    by (simp add: library_book_of_def library_summary_def snapshot_item_eq json_Unmarshal_def)
qed

lemma snapshot_items_map:
  "snapshot_items bs us = map (\<lambda>u. snapshot_item u (the (map_of bs u)))
     (filter (\<lambda>u. \<exists>b. map_of bs u = Some b \<and> \<not> bk_deleted b) us)"
  by (induction bs us rule: snapshot_items.induct) (auto split: option.splits)

lemma snapshot_items_keys:
  "distinct (keys bs) \<Longrightarrow>
     map library_book_of (snapshot_items bs (keys bs)) =
       map (\<lambda>(u, b). library_summary u b) (filter (\<lambda>(u, b). \<not> bk_deleted b) bs)"
proof -
  assume d: "distinct (keys bs)"
  have "\<forall>(u, b)\<in>set bs. map_of bs u = Some b" using d by (auto simp: map_of_eq_Some_iff)
  then show ?thesis
    by (fastforce simp: snapshot_items_map filter_map comp_def library_book_of_item case_prod_beta
        intro!: map_cong filter_cong)
qed

lemma summaries_of_snapshot:
  assumes "mem_inv s" "range_order iter"
  shows "mset (map library_book_of (snapshot_items (ms_books s) (iter (keys (ms_books s))))) =
    mset (library_books s)"
proof -
  have d: "distinct (keys (ms_books s))" using assms(1) by (simp add: mem_inv_def books_ok_def)
  have "mset (snapshot_items (ms_books s) (iter (keys (ms_books s)))) =
      mset (snapshot_items (ms_books s) (keys (ms_books s)))"
    using assms(2) by (simp add: snapshot_items_map range_order_def mset_filter)
  then have "mset (map library_book_of (snapshot_items (ms_books s) (iter (keys (ms_books s))))) =
      mset (map library_book_of (snapshot_items (ms_books s) (keys (ms_books s))))" by simp
  with snapshot_items_keys [OF d] show ?thesis by (simp only: library_books_def)
qed

lemma library_books_distinct: "mem_inv s \<Longrightarrow> distinct (map lb_UUID (library_books s))"
  by (auto simp: library_books_def comp_def case_prod_beta library_summary_def mem_inv_def books_ok_def
      intro!: distinct_map_filter)

lemma refresh_reads:
  assumes inv: "mem_inv (sv_sync s)" and iter: "range_order iter" and fit: "revisions_fit (sv_sync s)"
  obtains p its where "bs_SnapshotLibrary (ss_books (mem_service clk iter)) s = (Inr p, s)" "decode_items p s = (Inr its, s)"
    "ComputeLibraryVersion sha (map library_book_of (slice_list its)) = ComputeLibraryVersion sha (library_books (sv_sync s))"
proof -
  obtain p where snap: "mem_SnapshotLibrary iter (sv_sync s) = (Inr p, sv_sync s)"
    by (simp add: mem_SnapshotLibrary_def)
  have "in_int64 (book_revision (sv_sync s) u)" for u
    using fit by (force simp: revisions_fit_def book_revision_def dest: map_of_SomeD split: option.splits)
  note dec = snapshot_decodes(1) [OF snap this]
  let ?its = "snapshot_items (ms_books (sv_sync s)) (iter (keys (ms_books (sv_sync s))))"
  have "distinct (map lb_UUID (map library_book_of ?its))"
    using library_books_distinct [OF inv] summaries_of_snapshot [OF inv iter]
    by (metis mset_eq_imp_distinct_iff mset_map)
  then have "library_text (map library_book_of ?its) = library_text (library_books (sv_sync s))"
    using library_text_mset summaries_of_snapshot [OF inv iter] by blast
  with snap dec show ?thesis
    by (intro that [of p "Some ?its"]) (simp_all add: mem_service_def decode_items_def on_apply ComputeLibraryVersion_def)
qed

lemma refresh_eq:
  assumes "mem_inv (sv_sync s)" "range_order iter" "revisions_fit (sv_sync s)"
  shows "RefreshLibraryVersion sha (mem_service clk iter) s =
    on_db (pg_SetBookVersion (ComputeLibraryVersion sha (library_books (sv_sync s)))) s"
proof -
  obtain p its where "bs_SnapshotLibrary (ss_books (mem_service clk iter)) s = (Inr p, s)" "decode_items p s = (Inr its, s)"
    "ComputeLibraryVersion sha (map library_book_of (slice_list its)) = ComputeLibraryVersion sha (library_books (sv_sync s))"
    by (rule refresh_reads [OF assms])
  moreover have "ss_libVersion (mem_service clk iter) = Some \<lparr>ls_GetBookVersion = on_db pg_GetBookVersion,
      ls_SetBookVersion = (\<lambda>v. on_db (pg_SetBookVersion v))\<rparr>" by (simp add: mem_service_def)
  ultimately show ?thesis by (simp add: RefreshLibraryVersion_def)
qed

lemma push_total:
  assumes "mem_inv (sv_sync s)"
  shows "\<exists>rs t. Push sha (mem_service clk iter) dev src cs s = (Inr rs, t)"
proof -
  let ?rs = "fst (push_spec clk dev src (objects s) cs (sv_sync s))"
    and ?u = "s\<lparr>sv_sync := snd (push_spec clk dev src (objects s) cs (sv_sync s))\<rparr>"
  have "push_loop (mem_service clk iter) dev src cs [] s = (Inr ?rs, ?u)"
    using push_loop_eq [OF assms, of clk iter dev src cs "[]"] by simp
  then show ?thesis by (cases "?rs = []") (simp_all add: Push_def bindE_def attempt_apply)
qed

end
