(* ===== verification/Examples.thy ===== *)
theory Examples
  imports PushFacts
begin

text \<open>
  Small concrete data on which the general theorems are applied: a book with one file, its creation, a
  second and a conflicting change, and the stores they lead to.
\<close>

definition ex_clock :: clock where
  "ex_clock = (\<lambda>_. 0)"

definition ex_payload :: "string \<Rightarrow> raw" where
  "ex_payload name = Some (enc_payload \<lparr>bp_Name = name, bp_CurrentPage = 3, bp_CoverHash = ''h0'',
     bp_Files = Some [\<lparr>fm_RelPath = ''p1'', fm_Hash = ''h1'', fm_Size = 3\<rparr>]\<rparr>)"

definition ex_change :: "string \<Rightarrow> int \<Rightarrow> string \<Rightarrow> change" where
  "ex_change cid base name = \<lparr>c_ChangeID = cid, c_EntityType = EntityBook, c_EntityID = ''b1'',
     c_Op = OpUpsert, c_BaseRevision = base, c_Payload = ex_payload name\<rparr>"

definition ex_delete :: "string \<Rightarrow> int \<Rightarrow> change" where
  "ex_delete cid base = \<lparr>c_ChangeID = cid, c_EntityType = EntityBook, c_EntityID = ''b1'',
     c_Op = OpDelete, c_BaseRevision = base, c_Payload = None\<rparr>"

text \<open>The book created, and after a further change from a stale base that ends in a conflict.\<close>

definition ex_store :: mem_sync where
  "ex_store = snd (mem_ApplyBookChange ex_clock (ex_change ''c1'' 0 ''Dune'') ''manual'' ''d1'' NewMemorySyncStore)"

definition ex_conflict_store :: mem_sync where
  "ex_conflict_store =
     snd (mem_ApplyBookChange ex_clock (ex_change ''c2'' 0 ''Emma'') ''manual'' ''d2'' ex_store)"

lemma ex_change_fields [simp]:
  "c_ChangeID (ex_change i b n) = i" "c_EntityType (ex_change i b n) = EntityBook"
  "c_EntityID (ex_change i b n) = ''b1''" "c_Op (ex_change i b n) = OpUpsert"
  "c_BaseRevision (ex_change i b n) = b" "c_Payload (ex_change i b n) = ex_payload n"
  "c_ChangeID (ex_delete i b) = i" "c_EntityType (ex_delete i b) = EntityBook"
  "c_EntityID (ex_delete i b) = ''b1''" "c_Op (ex_delete i b) = OpDelete"
  "c_BaseRevision (ex_delete i b) = b" "c_Payload (ex_delete i b) = None"
  by (simp_all add: ex_change_def ex_delete_def)

lemma ex_payload_some [simp]: "ex_payload n \<noteq> None" "ex_payload n \<noteq> Some JNull"
  by (simp_all add: ex_payload_def enc_payload_def)

lemma ex_store_reach: "mem_reach ex_store"
  unfolding ex_store_def by (intro reach_step [OF reach_init] step_book) simp

lemma ex_conflict_store_reach: "mem_reach ex_conflict_store"
  unfolding ex_conflict_store_def by (intro reach_step [OF ex_store_reach] step_book) simp

lemma ex_store_eq:
  "ex_store = \<lparr>ms_entities = (\<lambda>_. None),
     ms_books = [(''b1'', \<lparr>bk_revision = 1, bk_deleted = False, bk_payload = ex_payload ''Dune''\<rparr>)],
     ms_history = [], ms_nextHistoryID = 0,
     ms_events = [\<lparr>me_changeID = ''c1'', me_status = StatusDone,
       me_event = make_event ex_clock (ex_change ''c1'' 0 ''Dune'') ''d1'' 1\<rparr>],
     ms_changeIDs = (\<lambda>_. None)(''c1'' \<mapsto> 1), ms_nextEventID = 1, ms_cursors = (\<lambda>_. None),
     ms_conflicts = [], ms_nextConflictID = 0\<rparr>"
  by (simp add: ex_store_def mem_ApplyBookChange_def NewMemorySyncStore_def put_book_def
      appendEventLocked_def Let_def)

lemma ex_conflict_store_eq:
  "ex_conflict_store = ex_store
     \<lparr>ms_events := ms_events ex_store @ [\<lparr>me_changeID = ''c2'', me_status = StatusConflict,
        me_event = make_event ex_clock (ex_change ''c2'' 0 ''Emma'') ''d2'' 2\<rparr>],
      ms_changeIDs := (ms_changeIDs ex_store)(''c2'' \<mapsto> 2), ms_nextEventID := 2,
      ms_conflicts := [conflict_record ex_clock 1 (ex_change ''c2'' 0 ''Emma'') (ex_payload ''Dune'') 1],
      ms_nextConflictID := 1\<rparr>"
  by (simp add: ex_conflict_store_def mem_ApplyBookChange_def ex_store_eq
      appendBookConflictLocked_def appendEventLocked_def Let_def)

lemma ex_server_reach: "mem_reach (sv_sync (NewServer fs))"
  by (simp add: NewServer_def reach_init)

text \<open>A server that holds the example store.\<close>

definition ex_server :: "mem_sync \<Rightarrow> server" where
  "ex_server m = (NewServer [])\<lparr>sv_sync := m\<rparr>"

lemma ex_server_fields [simp]:
  "sv_sync (ex_server m) = m" "sv_db (ex_server m) = empty_db []"
  "sv_objects (ex_server m) = NewMemoryObjectStore"
  by (simp_all add: ex_server_def NewServer_def)

end
