(* ===== verification/SyncProps.thy ===== *)
theory SyncProps
  imports Examples
begin

text \<open>
  The properties of the synchronisation core: what devices see, the optimistic lock, the event feed.
\<close>

section \<open>Convergence\<close>

text \<open>
  C1: A device that pulls with any page sizes, while any other requests change the store in any order
  between its pulls, holds exactly the server's library and entities once a pull has told it that there
  is no more and nothing has happened since: no event is lost, repeated or delivered out of order.
\<close>

theorem device_converges:
  assumes "session s d" "\<not> dv_more d"
  shows "dv_books d = live_library (sv_sync s) \<and> dv_entities d = live_entities (sv_sync s)"
  using caught_up_end [OF session_caught_up [OF assms(1)] assms(2)] by simp

lemma ex_session:
  "\<exists>t d. session t d \<and> \<not> dv_more d \<and> event_log (sv_sync t) = event_log ex_store"
proof -
  let ?d = "new_device\<lparr>dv_more := True\<rparr>"
  have "mem_step NewMemorySyncStore ex_store" unfolding ex_store_def by (rule step_book) simp
  then have one: "session (ex_server ex_store) ?d"
    using session_server [OF session_start [of "[]"], of "ex_server ex_store"] by (simp add: NewServer_def)
  have inv: "mem_inv (sv_sync (ex_server ex_store))" using ex_store_reach mem_reach_inv by simp
  from mem_feed.Pull_page [OF inv, of 10 ex_clock id "''d9''" "dv_cursor ?d"] obtain r t where
    pull: "Pull (mem_service ex_clock id) ''d9'' (dv_cursor ?d) 10 (ex_server ex_store) = (Inr r, t)"
    and r: "pr_HasMore r = (10 < length (after (dv_cursor ?d) (event_log ex_store)))"
      "event_log (sv_sync t) = event_log ex_store" by auto
  have "length (after (dv_cursor ?d) (event_log ex_store)) \<le> 1"
    by (simp add: ex_store_eq event_log_def after_def)
  with session_pull [OF one _ pull] r show ?thesis by (force simp: device_pulls_def)
qed

theorem device_converges_witness:
  "\<exists>s d. session s d \<and> \<not> dv_more d \<and> dv_books d = live_library (sv_sync s)"
  using ex_session device_converges by blast

text \<open>
  C12: In every reachable state the event log tells the whole story: replaying it gives the live books
  and entities, the revision of each of them is the number of its events, and event identifiers count
  up from 1 without gaps or repetitions.
\<close>

theorem log_tells_all:
  assumes "mem_reach s"
  shows "replay_books (\<lambda>_. None) (event_log s) = live_library s \<and>
    replay_entities (\<lambda>_. None) (event_log s) = live_entities s \<and>
    (\<forall>u. book_revision s u = book_writes u (event_log s)) \<and>
    (\<forall>k. entity_revision s k = entity_writes k (event_log s)) \<and>
    map (ev_ID \<circ> me_event) (ms_events s) = upto_ids (length (ms_events s))"
  using mem_reach_inv [OF assms] by (simp add: mem_inv_def log_ok_def ids_ok_def)

theorem log_tells_all_witness:
  "replay_books (\<lambda>_. None) (event_log ex_store) = live_library ex_store \<and>
   live_library ex_store ''b1'' = Some (ex_payload ''Dune'')"
  using log_tells_all [OF ex_store_reach] by (simp add: live_library_def ex_store_eq)

text \<open>
  Whatever is done to the store, the log is only appended to, no revision goes down, no used
  change identifier is forgotten, and a deleted book or entity keeps its record.
\<close>

theorem log_append_only:
  assumes "mem_reach s" "mem_step\<^sup>*\<^sup>* s t"
  shows "(\<exists>es. event_log t = event_log s @ es) \<and> (\<forall>u. book_revision s u \<le> book_revision t u) \<and>
    (\<forall>k. entity_revision s k \<le> entity_revision t k) \<and> dom (ms_changeIDs s) \<subseteq> dom (ms_changeIDs t) \<and>
    dom (map_of (ms_books s)) \<subseteq> dom (map_of (ms_books t)) \<and> dom (ms_entities s) \<subseteq> dom (ms_entities t)"
proof -
  have g: "grows s t" using assms(2) by (rule mem_steps_grow)
  moreover have "mem_inv s" "mem_inv t" using assms mem_steps_reach mem_reach_inv by blast+
  ultimately show ?thesis
    using grows_log [OF g] grows_revisions [OF g] by (simp add: grows_def)
qed

lemma ex_conflict_step: "mem_step ex_store ex_conflict_store"
  unfolding ex_conflict_store_def by (rule step_book) simp

theorem log_append_only_witness:
  "(\<exists>es. event_log ex_conflict_store = event_log ex_store @ es) \<and>
   dom (ms_changeIDs ex_store) \<subseteq> dom (ms_changeIDs ex_conflict_store)"
  using log_append_only [OF ex_store_reach r_into_rtranclp [of mem_step, OF ex_conflict_step]] by blast

section \<open>The optimistic lock\<close>

text \<open>
  C22: What \<open>ApplyBookChange\<close> does, on every branch: the outcome it returns, the live library, the
  events it adds and the conflicts it records are those of the lock's decision; a deletion hides the
  book, any other write replaces its payload, and whatever is not a write leaves the library alone.
\<close>

theorem book_change_effect:
  assumes "mem_reach s" "c_EntityType c = EntityBook"
    and "mem_ApplyBookChange clk c src dev s = (r, t)"
  shows "r = Inr (case book_verdict s c of
        VDuplicate \<Rightarrow> duplicate_outcome | VNothing \<Rightarrow> accepted_outcome | VReject \<Rightarrow> reject_outcome
      | VConflict q \<Rightarrow> conflict_outcome s | VWrite q \<Rightarrow> written_outcome q s) \<and>
    live_library t = (case book_verdict s c of
        VWrite q \<Rightarrow> (live_library s)(c_EntityID c := if c_Op c = OpDelete then None else Some (c_Payload c))
      | _ \<Rightarrow> live_library s) \<and>
    event_log t = event_log s @ (case book_verdict s c of
        VWrite q \<Rightarrow> [make_event clk c dev (ms_nextEventID s + 1)] | _ \<Rightarrow> []) \<and>
    map mc_Conflict (ms_conflicts t) = map mc_Conflict (ms_conflicts s) @ (case book_verdict s c of
        VConflict q \<Rightarrow> [\<lparr>cf_ID = ms_nextConflictID s + 1, cf_EntityType = EntityBook,
          cf_EntityID = c_EntityID c, cf_LocalPayload = c_Payload c,
          cf_ServerPayload = (case map_of (ms_books s) (c_EntityID c) of None \<Rightarrow> None | Some b \<Rightarrow> bk_payload b),
          cf_ServerRevision = q, cf_Status = ConflictOpen,
          cf_CreatedAt = clk (ConflictStamp (ms_nextConflictID s + 1))\<rparr>] | _ \<Rightarrow> [])"
proof -
  have conflict: "live_library (with_conflict clk c dev p q s) = live_library s"
    "event_log (with_conflict clk c dev p q s) = event_log s" for p q
    by (simp_all add: with_conflict_def live_library_def fun_eq_iff event_log_def append_event_events deliverable_def)
  show ?thesis
  proof (cases "book_verdict s c")
    case (VConflict q)
    with assms conflict show ?thesis
      by (auto simp: mem_ApplyBookChange_eq Let_def with_conflict_def conflict_record_def)
  next
    case (VWrite q)
    with assms show ?thesis by (auto simp: mem_ApplyBookChange_eq Let_def written_book_def)
  qed (use assms in \<open>auto simp: mem_ApplyBookChange_eq Let_def\<close>)
qed

theorem book_change_effect_witness:
  "fst (mem_ApplyBookChange ex_clock (ex_change ''c3'' 1 ''Emma'') ''manual'' ''d2'' ex_store) =
     Inr (written_outcome 2 ex_store)"
proof -
  have "book_verdict ex_store (ex_change ''c3'' 1 ''Emma'') = VWrite 2"
    by (simp add: book_verdict_def lock_verdict_def ex_store_eq)
  with book_change_effect [OF ex_store_reach, of "ex_change ''c3'' 1 ''Emma''" ex_clock "''manual''" "''d2''"]
  show ?thesis by (auto simp: prod_eq_iff)
qed

text \<open>
  C15: Two changes of the same entry made from the same base revision never both take effect, whatever
  happens between them: when the first was written, the second is not.  No update is lost silently.
\<close>

theorem same_base_excluded:
  assumes "mem_reach s" "mem_apply env c s = (Inr w, t)" "written w" "mem_step\<^sup>*\<^sup>* t u"
    and "c_EntityType d = c_EntityType c" "c_EntityID d = c_EntityID c"
    and "c_BaseRevision d = c_BaseRevision c" "mem_apply env' d u = (Inr w', v)"
  shows "\<not> written w'"
  using mem_lock.same_base [OF mem_reach_inv [OF assms(1)] TrueI assms(2-4) TrueI
      current_rev_same [OF assms(5,6)] assms(7,8)] .

lemma ex_apply:
  "mem_apply (ex_clock, ''manual'', ''d1'') (ex_change ''c1'' 0 ''Dune'') NewMemorySyncStore =
     (Inr (written_outcome 1 NewMemorySyncStore), ex_store)"
  by (simp add: mem_apply_def ex_store_def mem_ApplyBookChange_eq book_verdict_def lock_verdict_def
      NewMemorySyncStore_def)

lemma ex_written: "written (written_outcome 1 s)" "written (written_outcome 2 s)"
  by (simp_all add: written_def written_outcome_def no_outcome_def)

theorem same_base_excluded_witness:
  "\<exists>w v. mem_apply (ex_clock, ''manual'', ''d2'') (ex_change ''c2'' 0 ''Emma'') ex_store = (Inr w, v) \<and>
     \<not> written w"
proof -
  obtain w v where wv:
    "mem_apply (ex_clock, ''manual'', ''d2'') (ex_change ''c2'' 0 ''Emma'') ex_store = (Inr w, v)"
    using mem_apply_total by blast
  have "\<not> written w"
    by (rule same_base_excluded [OF reach_init ex_apply ex_written(1) rtranclp.rtrancl_refl _ _ _ wv]) simp_all
  with wv show ?thesis by blast
qed

text \<open>
  The revisions handed out for one entry strictly increase in the order of the writes, each one
  above the base it was made from.
\<close>

theorem revisions_strictly_increase:
  assumes "mem_reach s" "mem_apply env c s = (Inr w, t)" "written w" "mem_step\<^sup>*\<^sup>* t u"
    and "c_EntityType d = c_EntityType c" "c_EntityID d = c_EntityID c"
    and "mem_apply env' d u = (Inr w', v)" "written w'"
  shows "oc_Revision w < oc_Revision w' \<and> oc_Revision w = c_BaseRevision c + 1 \<and>
    oc_Revision w' = c_BaseRevision d + 1"
proof -
  have "mem_reach t" using assms(1) mem_lock.apply_step [OF TrueI, of s env c] assms(2) by (auto intro: reach_step)
  then have "mem_inv u" using assms(4) mem_steps_reach mem_reach_inv by blast
  then show ?thesis
    using mem_lock.revisions_increase [OF mem_reach_inv [OF assms(1)] TrueI assms(2-4) TrueI
        current_rev_same [OF assms(5,6)] assms(7,8)]
      mem_lock.written_rev [OF mem_reach_inv [OF assms(1)] TrueI assms(2,3)]
      mem_lock.written_rev [OF _ TrueI assms(7,8)] by blast
qed

lemma ex_apply2:
  "\<exists>v. mem_apply (ex_clock, ''manual'', ''d2'') (ex_change ''c3'' 1 ''Emma'') ex_store =
     (Inr (written_outcome 2 ex_store), v)"
  by (simp add: mem_apply_def mem_ApplyBookChange_eq book_verdict_def lock_verdict_def ex_store_eq Let_def)

theorem revisions_strictly_increase_witness:
  "oc_Revision (written_outcome 1 NewMemorySyncStore) < oc_Revision (written_outcome 2 ex_store)"
proof -
  obtain v where v: "mem_apply (ex_clock, ''manual'', ''d2'') (ex_change ''c3'' 1 ''Emma'') ex_store =
     (Inr (written_outcome 2 ex_store), v)" using ex_apply2 by blast
  show ?thesis
    using revisions_strictly_increase [OF reach_init ex_apply ex_written(1) rtranclp.rtrancl_refl _ _ v
        ex_written(2)] by simp
qed

text \<open>
  C28: Pushing a change again is harmless: once a change identifier has been written or recorded as a
  conflict, every later change that carries it, whatever it says, is answered as a duplicate and does
  not touch the store.  The answer is \<open>Accepted\<close> even when the original was refused as a conflict.
\<close>

theorem replay_is_duplicate:
  assumes "mem_reach s" "mem_apply env c s = (Inr w, t)" "written w \<or> conflicting w" "mem_step\<^sup>*\<^sup>* t u"
    and "c_ChangeID d = c_ChangeID c"
  shows "mem_apply env' d u = (Inr duplicate_outcome, u)"
proof -
  obtain r v where "mem_apply env' d u = (Inr r, v)" using mem_apply_total by blast
  with mem_lock.replay [OF mem_reach_inv [OF assms(1)] TrueI assms(2-4) TrueI assms(5) this] show ?thesis by simp
qed

theorem replay_is_duplicate_witness:
  "mem_apply (ex_clock, ''auto'', ''d1'') (ex_change ''c1'' 7 ''Emma'') ex_conflict_store =
     (Inr duplicate_outcome, ex_conflict_store)"
  by (rule replay_is_duplicate [OF reach_init ex_apply disjI1 [OF ex_written(1)]
        r_into_rtranclp [of mem_step, OF ex_conflict_step]]) simp

section \<open>The event feed\<close>

text \<open>
  One pull returns the oldest events after the cursor, at most \<open>limit\<close> of them, in the order of
  their identifiers and without gaps; the new cursor is the last event returned, or the old one when
  there is none; \<open>HasMore\<close> says exactly whether events are left; the device's stored cursor is set; and
  events of refused changes are never handed out.
\<close>

theorem pull_page:
  assumes "mem_reach (sv_sync s)" "0 \<le> limit"
    and "Pull (mem_service clk iter) dev c limit s = (Inr r, t)"
  shows "pr_Events r = take (nat limit) (after c (event_log (sv_sync s))) \<and>
    pr_Cursor r = (if pr_Events r = [] then c else ev_ID (last (pr_Events r))) \<and>
    (pr_HasMore r \<longleftrightarrow> after (pr_Cursor r) (event_log (sv_sync s)) \<noteq> []) \<and>
    in_order (pr_Events r) \<and> ms_cursors (sv_sync t) = (ms_cursors (sv_sync s))(dev \<mapsto> pr_Cursor r)"
proof -
  note inv = mem_reach_inv [OF assms(1)]
  let ?log = "event_log (sv_sync s)"
  have r: "r = \<lparr>pr_Cursor = page_end c (page c limit ?log), pr_HasMore = (nat limit < length (after c ?log)),
      pr_Events = page c limit ?log\<rparr>"
    "ms_cursors (sv_sync t) = (ms_cursors (sv_sync s))(dev \<mapsto> page_end c (page c limit ?log))"
    using assms(2,3)
    by (auto simp: Pull_def mem_service_def on_apply mem_ListAfterCursor_eq bindE_def wrapE_def Let_def
        mem_UpdateCursor_def page_end_def)
  have "in_order (page c limit ?log)"
    using event_log_in_order [OF inv]
    by (metis append_take_drop_id page_def sorted_wrt_append up_to_after)
  then show ?thesis
    using r up_to_page_end(2) [OF event_log_in_order [OF inv], of c limit] by (auto simp: page_end_def page_def)
qed

lemma ex_pull:
  "\<exists>r t. Pull (mem_service ex_clock id) ''d2'' 0 10 (ex_server ex_store) = (Inr r, t)"
proof -
  have "mem_inv (sv_sync (ex_server ex_store))" using ex_store_reach mem_reach_inv by simp
  from mem_feed.Pull_page [OF this, of 10 ex_clock id "''d2''" 0] show ?thesis by force
qed

theorem pull_page_witness:
  "\<exists>r t. Pull (mem_service ex_clock id) ''d2'' 0 10 (ex_server ex_store) = (Inr r, t) \<and>
     pr_Events r = [make_event ex_clock (ex_change ''c1'' 0 ''Dune'') ''d1'' 1]"
proof -
  obtain r t where rt: "Pull (mem_service ex_clock id) ''d2'' 0 10 (ex_server ex_store) = (Inr r, t)"
    using ex_pull by blast
  have "mem_reach (sv_sync (ex_server ex_store))" using ex_store_reach by simp
  from pull_page [OF this _ rt] rt show ?thesis
    by (simp add: ex_store_eq event_log_def after_def deliverable_def)
qed

text \<open>
  Catching up ends: with pages of at least one event, pulling until the server reports no more
  takes at most one pull for each full page and returns exactly the events after the cursor, once each.
\<close>

theorem catch_up_complete:
  assumes "mem_reach (sv_sync s)" "0 < limit" "0 < n"
    and "length (after c (event_log (sv_sync s))) \<le> n * nat limit"
  shows "\<exists>t. pull_all n (mem_service clk iter) dev limit c s =
      (Inr (Some (after c (event_log (sv_sync s)), page_end c (after c (event_log (sv_sync s))))), t) \<and>
    event_log (sv_sync t) = event_log (sv_sync s)"
  using mem_feed.pull_all_after [OF mem_reach_inv [OF assms(1)] assms(2,4,3)] by blast

theorem catch_up_complete_witness:
  "\<exists>t. pull_all 1 (mem_service ex_clock id) ''d2'' 1 0 (ex_server ex_store) =
     (Inr (Some ([make_event ex_clock (ex_change ''c1'' 0 ''Dune'') ''d1'' 1], 1)), t)"
proof -
  have "mem_reach (sv_sync (ex_server ex_store))" using ex_store_reach by simp
  from catch_up_complete [OF this, of 1 1 0 ex_clock id "''d2''"] show ?thesis
    by (simp add: ex_store_eq event_log_def after_def deliverable_def page_end_def) blast
qed

end
