(* ===== verification/LibraryProps.thy ===== *)
theory LibraryProps
  imports Examples
begin

text \<open>
  The properties of pushes, of the library as a whole (snapshots, restores) and of its version.
\<close>

section \<open>Push\<close>

text \<open>
  C26: A push is the changes applied one after the other: it never fails on the in-memory server, gives
  one result for each change in the order of the request, and leaves the store as the sequence of single
  changes does, each judged against what the ones before it left.
\<close>

theorem push_is_sequential:
  assumes "mem_reach (sv_sync s)"
  shows "\<exists>t. Push sha (mem_service clk iter) dev src cs s =
      (Inr (fst (push_spec clk dev src (objects s) cs (sv_sync s))), t) \<and>
    sv_sync t = snd (push_spec clk dev src (objects s) cs (sv_sync s)) \<and> objects t = objects s"
proof -
  let ?s = "s\<lparr>sv_sync := snd (push_spec clk dev src (objects s) cs (sv_sync s))\<rparr>"
  have "sv_sync (snd (RefreshLibraryVersion sha (mem_service clk iter) ?s)) = sv_sync ?s \<and>
      sv_objects (snd (RefreshLibraryVersion sha (mem_service clk iter) ?s)) = sv_objects ?s"
    by (auto simp: RefreshLibraryVersion_def mem_service_def bindE_def on_apply mem_SnapshotLibrary_def
        decode_items_def split: prod.splits sum.splits)
  then show ?thesis
    using push_loop_eq [OF mem_reach_inv [OF assms], of clk iter dev src cs "[]"]
    by (auto simp: Push_def bindE_def attempt_apply objects_def)
qed

theorem push_is_sequential_witness:
  "\<exists>t. Push id (mem_service ex_clock id) ''d2'' ''manual'' [ex_delete ''c3'' 1] (ex_server ex_store) =
      (Inr [outcome_result (ex_delete ''c3'' 1) (written_outcome 2 ex_store)], t)"
proof -
  have "change_step ex_clock ''d2'' ''manual'' (objects (ex_server ex_store)) (ex_delete ''c3'' 1) ex_store
     = (outcome_result (ex_delete ''c3'' 1) (written_outcome 2 ex_store),
        snd (mem_ApplyBookChange ex_clock (ex_delete ''c3'' 1) ''manual'' ''d2'' ex_store))"
    by (simp add: change_step_def required_files_def files_complete_def mem_apply_def push_env_def
        mem_ApplyBookChange_eq book_verdict_def lock_verdict_def ex_store_eq)
  then have "fst (push_spec ex_clock ''d2'' ''manual'' (objects (ex_server ex_store)) [ex_delete ''c3'' 1] ex_store)
     = [outcome_result (ex_delete ''c3'' 1) (written_outcome 2 ex_store)]" by simp
  moreover have "mem_reach (sv_sync (ex_server ex_store))" using ex_store_reach by simp
  ultimately show ?thesis
    using push_is_sequential [of "ex_server ex_store" id ex_clock id "''d2''" "''manual''" "[ex_delete ''c3'' 1]"]
    by (auto simp del: push_spec.simps)
qed


lemma push_spec_length [simp]: "length (fst (push_spec clk dev src objs cs s)) = length cs"
  by (induction cs arbitrary: s) (auto simp: case_prod_beta Let_def)



section \<open>Snapshots and restores\<close>

text \<open>
  C13: Restoring a snapshot replaces the library: afterwards the live books are exactly those of the
  snapshot with its contents (the last item for a book counts), books that were live and are not in it
  are tombstones one revision higher, every written book goes up by one revision for each item that
  names it, the reported revision is the largest one assigned, and the order in which Go walks its map
  makes no difference.  A snapshot that does not decode changes nothing.
\<close>

theorem restore_replaces_library:
  assumes "mem_reach s" "range_order iter" "json_Unmarshal dec_items None snap = (items, ok)"
    and "mem_RestoreLibrary clk iter snap dev s = (r, t)"
  shows "if ok then
      live_library t = restored_library (slice_list items) \<and>
      (\<forall>u. book_revision t u = book_revision s u +
        (if u \<in> it_UUID ` set (slice_list items) then mentions u (slice_list items)
         else if u \<in> dom (live_library s) then 1 else 0)) \<and>
      (\<exists>m. r = Inr \<lparr>rr_Restored = int (length (slice_list items)), rr_Revision = m\<rparr> \<and>
        largest 0 (book_revision t) (it_UUID ` set (slice_list items) \<union> dom (live_library s)) m)
    else r = Inl ErrJSON \<and> t = s"
proof (cases ok)
  case True
  note restore_library [OF mem_reach_inv [OF assms(1)] assms(2) _ assms(4), of items]
  with True assms(3) show ?thesis by simp
next
  case False
  with assms(3,4) show ?thesis by (simp add: mem_RestoreLibrary_eq)
qed

theorem restore_replaces_library_witness:
  "live_library (snd (mem_RestoreLibrary ex_clock rev (Some (JArr [])) ''d1'' ex_store)) = (\<lambda>_. None)"
proof -
  obtain r t where rt: "mem_RestoreLibrary ex_clock rev (Some (JArr [])) ''d1'' ex_store = (r, t)" by fastforce
  have "json_Unmarshal dec_items None (Some (JArr [])) = (Some [], True)"
    by (simp add: json_Unmarshal_def dec_items_def dec_slice_def)
  from restore_replaces_library [OF ex_store_reach range_order_rev this rt] rt show ?thesis
    by (simp add: fun_eq_iff)
qed

text \<open>
  C23: A snapshot brings the library back: whatever happens to the store after it was taken, restoring it
  makes exactly the books live that were live then, each with the name, page, cover and files it had.
\<close>

theorem snapshot_restores:
  assumes "mem_reach s" "range_order iter" "range_order iter'" "revisions_fit s"
    and "mem_SnapshotLibrary iter s = (Inr p, s')" "mem_step\<^sup>*\<^sup>* s u"
    and "mem_RestoreLibrary clk iter' p dev u = (r, t)"
  shows "map_option parseBookPayload (live_library t b) = map_option book_content (live_library s b)"
proof -
  have inv: "mem_inv s" "mem_inv u" using assms(1,6) mem_steps_reach mem_reach_inv by blast+
  have "in_int64 (book_revision s u)" for u
    using assms(4) by (force simp: revisions_fit_def book_revision_def dest: map_of_SomeD split: option.splits)
  note dec = snapshot_decodes(1) [OF assms(5) this]
  have "live_library t b = restored_library (snapshot_items (ms_books s) (iter (keys (ms_books s)))) b"
    using restore_library(1) [OF inv(2) assms(3) dec assms(7)] by simp
  also have "\<dots> = (case map_of (ms_books s) b of None \<Rightarrow> None
      | Some k \<Rightarrow> if bk_deleted k then None else Some (snapshotItemPayload (snapshot_item b k)))"
    by (rule restored_snapshot [OF inv(1) assms(2)])
  finally show ?thesis
    by (simp add: live_library_def content_of_snapshot split: option.splits)
qed

theorem snapshot_restores_witness:
  "\<exists>p. mem_SnapshotLibrary id ex_store = (Inr p, ex_store) \<and>
     map_option parseBookPayload
       (live_library (snd (mem_RestoreLibrary ex_clock id p ''d1'' ex_conflict_store)) ''b1'') =
     Some (book_content (ex_payload ''Dune''))"
proof -
  obtain p where p: "mem_SnapshotLibrary id ex_store = (Inr p, ex_store)" by (simp add: mem_SnapshotLibrary_def)
  obtain r t where rt: "mem_RestoreLibrary ex_clock id p ''d1'' ex_conflict_store = (r, t)" by fastforce
  have "mem_step ex_store ex_conflict_store" unfolding ex_conflict_store_def by (rule step_book) simp
  then have st: "mem_step\<^sup>*\<^sup>* ex_store ex_conflict_store" by (rule r_into_rtranclp)
  have fit: "revisions_fit ex_store" by (simp add: revisions_fit_def ex_store_eq)
  have "live_library ex_store ''b1'' = Some (ex_payload ''Dune'')" by (simp add: live_library_def ex_store_eq)
  with snapshot_restores [OF ex_store_reach range_order_id range_order_id fit p st rt, of "''b1''"] p rt
  show ?thesis by simp
qed

section \<open>The version of the library\<close>

text \<open>
  C27: After a push of at least one change the version row holds the hash of the library as it is then,
  computed over the live books with their names and files, whatever order the map is walked in, provided
  the database accepts the statement; and \<open>GetLibraryStatus\<close> reports it.
\<close>

theorem push_refreshes_version:
  assumes "mem_reach (sv_sync s)" "range_order iter" "cs \<noteq> []" "db_faults (sv_db s) = []"
    and "Push sha (mem_service clk iter) dev src cs s = (Inr rs, t)" "revisions_fit (sv_sync t)"
  shows "db_library_meta (sv_db t) = Some (ComputeLibraryVersion sha (library_books (sv_sync t)))"
proof -
  let ?u = "s\<lparr>sv_sync := snd (push_spec clk dev src (objects s) cs (sv_sync s))\<rparr>"
  have loop: "push_loop (mem_service clk iter) dev src cs [] s =
      (Inr (fst (push_spec clk dev src (objects s) cs (sv_sync s))), ?u)"
    using push_loop_eq [OF mem_reach_inv [OF assms(1)], of clk iter dev src cs "[]"] by simp
  have "fst (push_spec clk dev src (objects s) cs (sv_sync s)) \<noteq> []"
    using assms(3) push_spec_length by (metis length_0_conv)
  then have t: "t = snd (RefreshLibraryVersion sha (mem_service clk iter) ?u)"
    using assms(5) loop by (simp add: Push_def bindE_def attempt_apply)
  have same: "sv_sync t = sv_sync ?u"
    using t by (auto simp: RefreshLibraryVersion_def mem_service_def bindE_def on_apply mem_SnapshotLibrary_def
        decode_items_def split: prod.splits sum.splits)
  have "mem_step\<^sup>*\<^sup>* (sv_sync s) (sv_sync ?u)"
    using store_steps_push_loop [of clk iter dev src cs "[]"] loop by (metis snd_conv store_steps_def)
  then have "mem_inv (sv_sync ?u)" using assms(1) mem_steps_reach mem_reach_inv by blast
  from refresh_eq [OF this assms(2)] assms(6) same
  have "RefreshLibraryVersion sha (mem_service clk iter) ?u =
      on_db (pg_SetBookVersion (ComputeLibraryVersion sha (library_books (sv_sync ?u)))) ?u" by simp
  with t same assms(4) show ?thesis by (simp add: on_apply pg_SetBookVersion_def)
qed

theorem push_refreshes_version_witness:
  "\<exists>t rs. Push id (mem_service ex_clock id) ''d2'' ''manual'' [ex_delete ''c3'' 1] (ex_server ex_store) =
      (Inr rs, t) \<and> db_library_meta (sv_db t) = Some (ComputeLibraryVersion id (library_books (sv_sync t)))"
proof -
  have reach: "mem_reach (sv_sync (ex_server ex_store))" using ex_store_reach by simp
  let ?spec = "push_spec ex_clock ''d2'' ''manual'' (objects (ex_server ex_store)) [ex_delete ''c3'' 1] ex_store"
  let ?u = "(ex_server ex_store)\<lparr>sv_sync := snd ?spec\<rparr>"
  obtain rs t where push: "Push id (mem_service ex_clock id) ''d2'' ''manual'' [ex_delete ''c3'' 1]
      (ex_server ex_store) = (Inr rs, t)" and t: "sv_sync t = snd ?spec"
    using push_loop_eq [of "ex_server ex_store" ex_clock id "''d2''" "''manual''" "[ex_delete ''c3'' 1]" "[]"]
      mem_reach_inv [OF ex_store_reach]
    by (auto simp: Push_def bindE_def attempt_apply RefreshLibraryVersion_def mem_service_def on_apply
        mem_SnapshotLibrary_def decode_items_def split: prod.splits)
  have "revisions_fit (snd ?spec)"
    by (simp add: change_step_def required_files_def files_complete_def mem_apply_def push_env_def
        mem_ApplyBookChange_def ex_store_eq put_book_def appendEventLocked_def revisions_fit_def Let_def
        in_int64_def)
  with push_refreshes_version [OF reach range_order_id _ _ push] t push show ?thesis by (auto simp: empty_db_def)
qed




text \<open>
  The status shows the number of live books and the stored version, and changes nothing.
\<close>

theorem library_status_reports:
  assumes "mem_reach (sv_sync s)" "range_order iter" "revisions_fit (sv_sync s)" "db_faults (sv_db s) = []"
  shows "GetLibraryStatus (mem_service clk iter) s =
    (Inr \<lparr>ly_BookCount = int (card (dom (live_library (sv_sync s)))),
          ly_BookVersion = (case db_library_meta (sv_db s) of None \<Rightarrow> [] | Some v \<Rightarrow> v)\<rparr>, s)"
proof -
  note inv = mem_reach_inv [OF assms(1)]
  obtain p where snap: "mem_SnapshotLibrary iter (sv_sync s) = (Inr p, sv_sync s)"
    by (simp add: mem_SnapshotLibrary_def)
  have "in_int64 (book_revision (sv_sync s) u)" for u
    using assms(3) by (force simp: revisions_fit_def book_revision_def dest: map_of_SomeD split: option.splits)
  note dec = snapshot_decodes(1) [OF snap this]
  let ?its = "snapshot_items (ms_books (sv_sync s)) (iter (keys (ms_books (sv_sync s))))"
  have ids: "set (iter (keys (ms_books (sv_sync s)))) = set (keys (ms_books (sv_sync s)))"
    "distinct (iter (keys (ms_books (sv_sync s))))"
    using inv assms(2) by (simp_all add: range_order_set range_order_distinct mem_inv_def books_ok_def)
  have "u \<in> it_UUID ` set ?its \<longleftrightarrow> u \<in> dom (live_library (sv_sync s))" for u
  proof -
    have "u \<in> it_UUID ` set ?its \<longleftrightarrow>
        (\<exists>b. u \<in> set (keys (ms_books (sv_sync s))) \<and> map_of (ms_books (sv_sync s)) u = Some b \<and> \<not> bk_deleted b)"
      unfolding snapshot_items_set ids(1) by force
    also have "\<dots> \<longleftrightarrow> (\<exists>b. map_of (ms_books (sv_sync s)) u = Some b \<and> \<not> bk_deleted b)"
      using map_of_Some_key [of "ms_books (sv_sync s)" u] by blast
    finally show ?thesis by (auto simp: live_library_def split: option.splits)
  qed
  then have "it_UUID ` set ?its = dom (live_library (sv_sync s))" by blast
  moreover have "distinct (map it_UUID ?its)" using snapshot_items_distinct [OF ids(2)] .
  ultimately have "length ?its = card (dom (live_library (sv_sync s)))"
    by (metis distinct_card length_map list.set_map)
  with snap dec assms(4) show ?thesis
    by (simp add: GetLibraryStatus_def mem_service_def decode_items_def bindE_def on_apply pg_GetBookVersion_def)
qed

theorem library_status_reports_witness:
  "GetLibraryStatus (mem_service ex_clock id) (ex_server ex_store) = (Inr \<lparr>ly_BookCount = 1, ly_BookVersion = []\<rparr>, ex_server ex_store)"
proof -
  have "dom (live_library ex_store) = {''b1''}" by (auto simp: live_library_def ex_store_eq split: if_splits)
  moreover have "mem_reach (sv_sync (ex_server ex_store))" "revisions_fit (sv_sync (ex_server ex_store))"
    "db_faults (sv_db (ex_server ex_store)) = []"
    using ex_store_reach by (simp_all add: revisions_fit_def ex_store_eq empty_db_def)
  ultimately show ?thesis
    using library_status_reports [of "ex_server ex_store" id ex_clock] by (simp add: range_order_id empty_db_def)
qed

text \<open>
  The version is not refreshed by a restore, nor by resolving a conflict: both leave the version
  row as it was, whatever they do to the library.
\<close>

theorem restore_leaves_version:
  "sv_db (snd (RestoreBook (mem_service clk iter) dev i s)) = sv_db s \<and>
   sv_db (snd (ResolveConflict (mem_service clk iter) dev i req s)) = sv_db s"
proof -
  have db: "keeps (\<lambda>s. sv_db s = d) (on_sync m)" for d and m :: "(mem_sync, 'x) op"
    by (rule keepsI) (simp add: on_apply)
  have "keeps (\<lambda>s. sv_db s = d) (RestoreBook (mem_service clk iter) dev i)" for d
    unfolding RestoreBook_def mem_service_def
    by (intro keeps_bindE keeps_attempt keeps_ret) (auto intro!: db keeps_bindE keeps_attempt split: sum.split)
  moreover have "keeps (\<lambda>s. sv_db s = d) (ResolveConflict (mem_service clk iter) dev i req)" for d
    by (auto simp: ResolveConflict_def resolve_write_def forceUpsert_def mem_service_def intro!: db keeps_bindE)
  ultimately show ?thesis by (auto dest: keepsD)
qed

text \<open>
  The version depends on the books alone: neither the order in which the books are listed nor the
  order of a book's files changes it.
\<close>

theorem version_order_independent:
  assumes "mset as' = mset as" "list_all2 same_book as' bs"
    and "distinct (map lb_UUID as)" "\<forall>a\<in>set as. distinct (map fm_RelPath (lb_Files a))"
  shows "ComputeLibraryVersion sha as = ComputeLibraryVersion sha bs"
  using library_text_order [OF assms] by (simp add: ComputeLibraryVersion_def)

definition ex_files :: "book_file_meta list" where
  "ex_files = [\<lparr>fm_RelPath = ''p2'', fm_Hash = ''h2'', fm_Size = 1\<rparr>, \<lparr>fm_RelPath = ''p1'', fm_Hash = ''h1'', fm_Size = 1\<rparr>]"

definition ex_book :: "string \<Rightarrow> string \<Rightarrow> book_file_meta list \<Rightarrow> library_book" where
  "ex_book u n fs = \<lparr>lb_UUID = u, lb_Name = n, lb_Files = fs\<rparr>"

theorem version_order_independent_witness:
  "ComputeLibraryVersion id [ex_book ''a'' ''A'' ex_files, ex_book ''b'' ''B'' []] =
   ComputeLibraryVersion id [ex_book ''b'' ''B'' [], ex_book ''a'' ''A'' (rev ex_files)]"
  by (rule version_order_independent [where as' = "[ex_book ''b'' ''B'' [], ex_book ''a'' ''A'' ex_files]"])
    (simp_all add: same_book_def ex_book_def ex_files_def)



text \<open>
  Without that proviso it does not: a line feed in a book's name makes two different libraries
  spell the same text, so that every hash function gives them the same version.
\<close>

theorem version_collision:
  "ComputeLibraryVersion sha [ex_book ''a'' (''X|0'' @ [newline] @ ''b|Y'') []] =
   ComputeLibraryVersion sha [ex_book ''a'' ''X'' [], ex_book ''b'' ''Y'' []] \<and>
   length [ex_book ''a'' (''X|0'' @ [newline] @ ''b|Y'') []] \<noteq> length [ex_book ''a'' ''X'' [], ex_book ''b'' ''Y'' []]"
proof -
  have "char_of (48::nat) = CHR ''0''" by code_simp
  then show ?thesis
    by (simp add: ComputeLibraryVersion_def library_text_def library_items_def book_item_of_def ex_book_def
        file_items_def item_text_def itoa_def itoa_nat.simps digit_def)
qed

end
