(* ===== verification/ConflictProps.thy ===== *)
theory ConflictProps
  imports Examples
begin

text \<open>The properties of conflict resolution on the in-memory server.\<close>






lemma ex_conflict_entry:
  "conflict_entry ex_conflict_store 1 =
     Some (mc_Conflict (conflict_record ex_clock 1 (ex_change ''c2'' 0 ''Emma'') (ex_payload ''Dune'') 1))"
  by (simp add: conflict_entry_def ex_conflict_store_eq conflict_record_def)

lemma ex_conflict_fields:
  "cf_Status (mc_Conflict (conflict_record clk i (ex_change c b n) p r)) = ConflictOpen"
  "cf_EntityType (mc_Conflict (conflict_record clk i (ex_change c b n) p r)) = EntityBook"
  "cf_EntityID (mc_Conflict (conflict_record clk i (ex_change c b n) p r)) = ''b1''"
  "cf_LocalPayload (mc_Conflict (conflict_record clk i (ex_change c b n) p r)) = ex_payload n"
  by (simp_all add: conflict_record_def)

definition ex_keep_local :: resolve_request where
  "ex_keep_local = \<lparr>rq_Strategy = StrategyKeepLocal, rq_Payload = None\<rparr>"

lemma ex_server_conflict_reach: "mem_reach (sv_sync (ex_server ex_conflict_store))"
  using ex_conflict_store_reach by simp


text \<open>
  A conflict is resolved at most once: after a resolution that succeeded every further one of the
  same conflict, by any device and with any request, fails with \<open>ErrConflictResolved\<close> and changes nothing.
\<close>

theorem resolve_only_once:
  assumes "mem_reach (sv_sync s)" "ResolveConflict (mem_service clk iter) dev i req s = (Inr (), t)"
  shows "ResolveConflict (mem_service clk' iter') dev' i req' t = (Inl ErrConflictResolved, t)"
proof -
  note inv = mem_reach_inv [OF assms(1)]
  have "mem_step\<^sup>*\<^sup>* (sv_sync s) (sv_sync t)"
    using store_steps_Resolve assms(2) by (metis snd_conv store_steps_def)
  then have inv': "mem_inv (sv_sync t)" using assms(1) mem_steps_reach mem_reach_inv by blast
  have "ResolveConflict (mem_service clk iter) dev i req' t = (Inl ErrConflictResolved, t)"
    by (rule mem_register.resolve_once [OF inv assms(2)])
  then obtain cf where cf: "conflict_entry (sv_sync t) i = Some cf" "cf_Status cf \<noteq> ConflictOpen"
    using mem_register.resolve_unknown [OF inv', of i clk iter dev req']
      mem_register.resolve_accepted [OF inv', of i _ req' clk iter dev]
      mem_register.resolve_refused [OF inv', of i _ req' clk iter dev]
    by (cases "conflict_entry (sv_sync t) i") (fastforce simp: request_error_def split: if_splits)+
  show ?thesis by (rule mem_register.resolve_closed [OF inv' cf])
qed

theorem resolve_only_once_witness:
  "\<exists>t. ResolveConflict (mem_service ex_clock id) ''d2'' 1 ex_keep_local (ex_server ex_conflict_store) = (Inr (), t) \<and>
     ResolveConflict (mem_service ex_clock id) ''d3'' 1 ex_keep_local t = (Inl ErrConflictResolved, t)"
proof -
  let ?cf = "mc_Conflict (conflict_record ex_clock 1 (ex_change ''c2'' 0 ''Emma'') (ex_payload ''Dune'') 1)"
  have entry: "conflict_entry (sv_sync (ex_server ex_conflict_store)) 1 = Some ?cf"
    using ex_conflict_entry by simp
  have ok: "request_ok ?cf ex_keep_local" by (simp add: request_ok_def ex_keep_local_def ex_conflict_fields)
  obtain t where "ResolveConflict (mem_service ex_clock id) ''d2'' 1 ex_keep_local (ex_server ex_conflict_store) = (Inr (), t)"
    using mem_register.resolve_accepted [OF mem_reach_inv [OF ex_server_conflict_reach] entry ex_conflict_fields(1) ok]
    by blast
  with resolve_only_once [OF ex_server_conflict_reach this] show ?thesis by blast
qed

text \<open>
  C32: What cannot be resolved is refused with the error that names the reason, and nothing changes: an
  unknown conflict, one already resolved, a strategy that is none of the three, \<open>keep_local\<close> without a
  client payload (as after a refused deletion), \<open>manual\<close> without a payload.
\<close>

theorem resolve_refusals:
  assumes "mem_reach (sv_sync s)"
    and "\<not> (\<exists>cf. conflict_entry (sv_sync s) i = Some cf \<and> cf_Status cf = ConflictOpen \<and> request_ok cf req)"
  shows "ResolveConflict (mem_service clk iter) dev i req s =
    (Inl (case conflict_entry (sv_sync s) i of
            None \<Rightarrow> ErrConflictNotFound
          | Some cf \<Rightarrow> if cf_Status cf \<noteq> ConflictOpen then ErrConflictResolved else request_error req), s)"
  using mem_register.resolve_unknown [OF mem_reach_inv [OF assms(1)]]
    mem_register.resolve_closed [OF mem_reach_inv [OF assms(1)]]
    mem_register.resolve_refused [OF mem_reach_inv [OF assms(1)]] assms(2)
  by (auto split: option.splits)

theorem resolve_refusals_witness:
  "ResolveConflict (mem_service ex_clock id) ''d2'' 2 ex_keep_local (ex_server ex_conflict_store) =
     (Inl ErrConflictNotFound, ex_server ex_conflict_store)"
proof -
  have "conflict_entry (sv_sync (ex_server ex_conflict_store)) 2 = None"
    by (simp add: conflict_entry_def ex_conflict_store_eq conflict_record_def)
  with resolve_refusals [OF ex_server_conflict_reach, of 2 ex_keep_local ex_clock id "''d2''"] show ?thesis
    by simp
qed



end
