(* ===== verification/FileProps.thy ===== *)
theory FileProps
  imports Examples
begin

text \<open>The properties of \<open>FileService\<close> over the in-memory object store.\<close>

lemmas blob_facts = server_files_objects server_meta

text \<open>
  \<open>CheckFiles\<close> is exact: it returns, in order, precisely the items that are not stored with the size
  they declare, and \<open>AllFilesComplete\<close> is true precisely when every file that names a hash is; neither
  changes anything.
\<close>

theorem file_checks_exact:
  "CheckFiles server_files items s =
     (Inr (filter (\<lambda>it. \<not> stored (objects s) (fc_Hash it) (fc_Size it)) items), s) \<and>
   AllFilesComplete server_files fs s =
     (Inr (\<forall>f\<in>set fs. fm_Hash f \<noteq> [] \<longrightarrow> stored (objects s) (fm_Hash f) (fm_Size f)), s)"
  using mem_blobs.check_files_loop_eq [OF server_files_objects, of items "[]" s]
    mem_blobs.all_files_complete [OF server_files_objects, of fs s]
  by (simp add: CheckFiles_def objects_def files_complete_def)

theorem file_checks_exact_witness:
  "CheckFiles server_files [\<lparr>fc_Hash = ''h1'', fc_Size = 3\<rparr>] (NewServer []) =
     (Inr [\<lparr>fc_Hash = ''h1'', fc_Size = 3\<rparr>], NewServer [])"
  using file_checks_exact [of "[\<lparr>fc_Hash = ''h1'', fc_Size = 3\<rparr>]" "NewServer []" "[]"]
  by (simp add: stored_def objects_def NewServer_def NewMemoryObjectStore_def)

text \<open>
  C24: A file that is sent in parts arrives: starting from an upload of a hash that is not stored yet, with
  the parts sent in any order (a part sent twice counts as sent last), completing with a list of part
  numbers makes the object the parts in the order of that list, and a download returns exactly it.
\<close>

theorem multipart_upload_downloads:
  assumes "objects_ok (sv_objects s)" "objects s (objectKey hash) = None" "0 \<le> sz"
    and "\<forall>(n, d)\<in>set parts. 1 \<le> n \<and> d \<noteq> []"
    and "ms \<noteq> []" "pm_PartNumber ` set ms \<subseteq> fst ` set parts"
  defines "content \<equiv> concat (map (\<lambda>m. the (map_of (rev parts) (pm_PartNumber m))) ms)"
  shows "\<exists>u s1 rs s2 s3. FileInitUpload server_files hash sz s = (Inr \<lparr>fi_UploadID = u, fi_Complete = False\<rparr>, s1) \<and>
    send_parts server_files hash u parts s1 = (Inr rs, s2) \<and>
    CompleteUpload server_files hash u sz ms s2 = (Inr (), s3) \<and>
    Download server_files hash s3 = (Inr (content, int (length content)), s3)"
proof -
  obtain u s1 rs s2 s3 where run: "FileInitUpload server_files hash sz s = (Inr \<lparr>fi_UploadID = u, fi_Complete = False\<rparr>, s1)"
    "send_parts server_files hash u parts s1 = (Inr rs, s2)"
    "CompleteUpload server_files hash u sz ms s2 = (Inr (), s3)"
    and obj: "mo_objects (sv_objects s3) = (mo_objects (sv_objects s))(objectKey hash \<mapsto> content)"
    using mem_blobs.multipart [OF server_files_objects assms(1) _ assms(3) server_meta assms(4-6)] assms(2)
    unfolding content_def objects_def by blast
  have "Download server_files hash s3 = (Inr (content, int (length content)), s3)"
    using mem_blobs.obj_get [of "objectKey hash" s3] obj by (simp add: Download_def server_files_objects)
  with run show ?thesis by blast
qed

theorem multipart_upload_downloads_witness:
  "\<exists>u s1 rs s2 s3. FileInitUpload server_files ''h1'' 3 (NewServer []) = (Inr \<lparr>fi_UploadID = u, fi_Complete = False\<rparr>, s1) \<and>
    send_parts server_files ''h1'' u [(2, ''c''), (1, ''ab'')] s1 = (Inr rs, s2) \<and>
    CompleteUpload server_files ''h1'' u 3 [\<lparr>pm_PartNumber = 1, pm_ETag = []\<rparr>, \<lparr>pm_PartNumber = 2, pm_ETag = []\<rparr>] s2 = (Inr (), s3) \<and>
    Download server_files ''h1'' s3 = (Inr (''abc'', 3), s3)"
proof -
  have "objects_ok (sv_objects (NewServer []))" "objects (NewServer []) (objectKey ''h1'') = None"
    using objects_ok_init by (simp_all add: NewServer_def objects_def) (simp add: NewMemoryObjectStore_def)
  from multipart_upload_downloads [OF this, of 3 "[(2, ''c''), (1, ''ab'')]"
      "[\<lparr>pm_PartNumber = 1, pm_ETag = []\<rparr>, \<lparr>pm_PartNumber = 2, pm_ETag = []\<rparr>]"]
  show ?thesis by simp
qed

text \<open>
  C25: A direct upload succeeds exactly when it names a hash, its size is not negative and either the
  object is stored with that size already, in which case nothing is read or written, or the body delivers
  that many bytes; after a success the object has the declared size, after a failure the objects are as
  they were.
\<close>

theorem direct_upload_complete_or_unchanged:
  assumes "DirectUpload server_files hash sz r s = (res, t)"
  shows "(res = Inr () \<longleftrightarrow> hash \<noteq> [] \<and> 0 \<le> sz \<and>
      (stored (objects s) hash sz \<or> (\<exists>d. read_limited r sz = Inr d \<and> int (length d) = sz))) \<and>
    (res = Inr () \<longrightarrow> stored (objects t) hash sz) \<and>
    (stored (objects s) hash sz \<or> res \<noteq> Inr () \<longrightarrow> objects t = objects s)"
  using mem_blobs.direct_upload [OF server_files_objects server_meta assms] unfolding objects_def by blast

theorem direct_upload_complete_or_unchanged_witness:
  "fst (DirectUpload server_files ''h1'' 3 \<lparr>rd_data = ''abc'', rd_fails = False\<rparr> (NewServer [])) = Inr ()"
proof -
  obtain res t where run: "DirectUpload server_files ''h1'' 3 \<lparr>rd_data = ''abc'', rd_fails = False\<rparr> (NewServer []) = (res, t)"
    by fastforce
  have "read_limited \<lparr>rd_data = ''abc'', rd_fails = False\<rparr> 3 = Inr ''abc''" by (simp add: read_limited_def)
  with direct_upload_complete_or_unchanged [OF run] run show ?thesis by simp
qed

text \<open>
  C34: An object stored with a wrong size cannot be repaired by a multipart upload: \<open>CheckFiles\<close> keeps
  asking for it while \<open>InitUpload\<close> says that it is complete and \<open>UploadPart\<close> refuses every part of it; a
  direct upload replaces it.
\<close>

theorem wrong_size_object_is_stuck:
  assumes "objects s (objectKey hash) = Some old" "int (length old) \<noteq> sz" "0 \<le> sz" "hash \<noteq> []"
    and "1 \<le> n" "part \<noteq> []" "read_limited r sz = Inr d" "int (length d) = sz"
  shows "CheckFiles server_files [\<lparr>fc_Hash = hash, fc_Size = sz\<rparr>] s = (Inr [\<lparr>fc_Hash = hash, fc_Size = sz\<rparr>], s) \<and>
    FileInitUpload server_files hash sz s = (Inr \<lparr>fi_UploadID = [], fi_Complete = True\<rparr>, s) \<and>
    UploadPart server_files hash u n part s = (Inl ErrFileExists, s) \<and>
    (\<exists>t. DirectUpload server_files hash sz r s = (Inr (), t) \<and> stored (objects t) hash sz)"
proof -
  have obj: "mo_objects (sv_objects s) (objectKey hash) = Some old" using assms(1) by (simp add: objects_def)
  have bad: "\<not> stored (mo_objects (sv_objects s)) hash sz" using obj assms(2) by (simp add: stored_def)
  have "CheckFiles server_files [\<lparr>fc_Hash = hash, fc_Size = sz\<rparr>] s = (Inr [\<lparr>fc_Hash = hash, fc_Size = sz\<rparr>], s)"
    using mem_blobs.check_files_loop_eq [OF server_files_objects, of "[\<lparr>fc_Hash = hash, fc_Size = sz\<rparr>]" "[]" s] bad
    by (simp add: CheckFiles_def)
  moreover have "FileInitUpload server_files hash sz s = (Inr \<lparr>fi_UploadID = [], fi_Complete = True\<rparr>, s)"
    using assms(3) obj by (simp add: FileInitUpload_def bindE_def server_files_objects mem_blobs.has)
  moreover have "UploadPart server_files hash u n part s = (Inl ErrFileExists, s)"
    using assms(5,6) obj by (simp add: UploadPart_def bindE_def server_files_objects mem_blobs.has)
  moreover obtain res t where run: "DirectUpload server_files hash sz r s = (res, t)" by fastforce
  note mem_blobs.direct_upload [OF server_files_objects server_meta run]
  ultimately show ?thesis using assms(3,4,7,8) run by (auto simp: objects_def)
qed

theorem wrong_size_object_is_stuck_witness:
  "\<exists>s. objects s (objectKey ''h1'') = Some ''ab'' \<and>
     FileInitUpload server_files ''h1'' 3 s = (Inr \<lparr>fi_UploadID = [], fi_Complete = True\<rparr>, s)"
proof -
  let ?s = "(NewServer [])\<lparr>sv_objects := NewMemoryObjectStore\<lparr>mo_objects := (\<lambda>_. None)(objectKey ''h1'' \<mapsto> ''ab'')\<rparr>\<rparr>"
  have "objects ?s (objectKey ''h1'') = Some ''ab''" by (simp add: objects_def)
  moreover have "read_limited \<lparr>rd_data = ''abc'', rd_fails = False\<rparr> 3 = Inr ''abc''" by (simp add: read_limited_def)
  ultimately show ?thesis
    using wrong_size_object_is_stuck [of ?s "''h1''" "''ab''" 3 1 "''a''" "\<lparr>rd_data = ''abc'', rd_fails = False\<rparr>" "''abc''" "[]"]
    by auto
qed

end
