(* ===== verification/PgSync.thy ===== *)
theory PgSync
  imports Database
begin

text \<open>
  The PostgreSQL implementations of the synchronisation stores: \<open>PGEntityStore\<close>, \<open>PGBookStore\<close>,
  \<open>PGEventStore\<close>, \<open>PGCursorStore\<close>, \<open>PGConflictStore\<close> and \<open>PGHostoryStore\<close>.  Each SQL statement is one
  \<open>stmt\<close>, in the order in which the code sends them.  What PostgreSQL or Go leave open is in the
  environment: the clock, the normal form in which a \<open>JSONB\<close> column keeps a document, the order of
  \<open>ORDER BY\<close> on text (its collation) and the order in which Go walks a map.
\<close>

record pg_env =
  pe_clock :: clock
  pe_jsonb :: "json \<Rightarrow> json"
  pe_collate :: iteration
  pe_iter :: iteration

definition jsonb :: "pg_env \<Rightarrow> raw \<Rightarrow> raw" where
  "jsonb env = map_option (pe_jsonb env)"

section \<open>Shared helpers\<close>

text \<open>\<open>commitOutcome\<close>.\<close>

definition commitOutcome :: "'a \<Rightarrow> (pg, 'a tx_end) op" where
  "commitOutcome w = ret (Commit w)"

definition begin_error :: error where
  "begin_error = ErrWrap ''begin tx'' ErrDatabase"

definition insertEvent ::
  "pg_env \<Rightarrow> string \<Rightarrow> string \<Rightarrow> string \<Rightarrow> int \<Rightarrow> string \<Rightarrow> string \<Rightarrow> raw \<Rightarrow> string \<Rightarrow> (pg, int) op" where
  "insertEvent env changeID entityType entityID revision deviceID opn payload status =
     stmt (\<lambda>s. let ident = db_event_seq s + 1 in
       (Inr ident, s\<lparr>db_event_seq := ident, db_sync_events := db_sync_events s @
         [\<lparr>vr_id = ident, vr_change_id = changeID, vr_entity_type = entityType, vr_entity_id = entityID,
           vr_revision = revision, vr_device_id = deviceID, vr_op = opn, vr_payload = jsonb env payload,
           vr_status = status, vr_created_at = pe_clock env (EventStamp ident)\<rparr>]\<rparr>))"

text \<open>\<open>serverChangeID\<close>: random, or the time when the random source fails.\<close>

definition serverChangeID :: "pg_env \<Rightarrow> (pg, string) op" where
  "serverChangeID env =
     bindE rand_read (\<lambda>b. case b of
       Some bytes \<Rightarrow> ret (''server-'' @ hex bytes)
     | None \<Rightarrow> (\<lambda>s. (Inr (''server-'' @ itoa (pe_clock env (EventStamp (db_event_seq s)))), s)))"

definition normalizePayload :: "raw \<Rightarrow> raw" where
  "normalizePayload p = (if p = None \<or> p = Some JNull then None else p)"

text \<open>The two statements of \<open>insertConflict\<close> and \<open>insertBookConflict\<close>, which are the same.\<close>

definition insertConflict :: "pg_env \<Rightarrow> change \<Rightarrow> string \<Rightarrow> int \<Rightarrow> (pg, int) op" where
  "insertConflict env c deviceID currentRev =
     bindE (insertEvent env (c_ChangeID c) (c_EntityType c) (c_EntityID c) currentRev deviceID (c_Op c)
              (c_Payload c) StatusConflict) (\<lambda>eventID.
     stmt (\<lambda>s. let ident = db_conflict_seq s + 1 in
       (Inr ident, s\<lparr>db_conflict_seq := ident, db_conflicts := db_conflicts s @
         [\<lparr>kr_id = ident, kr_event_id = eventID, kr_entity_type = c_EntityType c,
           kr_entity_id = c_EntityID c, kr_base_revision = c_BaseRevision c,
           kr_current_revision = currentRev, kr_status = ConflictOpen, kr_resolved_by = None,
           kr_created_at = pe_clock env (ConflictStamp ident)\<rparr>]\<rparr>)))"

definition change_exists :: "string \<Rightarrow> (pg, bool) op" where
  "change_exists changeID = query (\<lambda>s. \<exists>e\<in>set (db_sync_events s). vr_change_id e = changeID)"

definition duplicate :: change_outcome where
  "duplicate = no_outcome\<lparr>oc_Accepted := True, oc_Reason := ReasonDuplicate\<rparr>"

definition accepted :: "int \<Rightarrow> int \<Rightarrow> change_outcome" where
  "accepted revision eventID = no_outcome\<lparr>oc_Accepted := True, oc_Revision := revision, oc_EventID := eventID\<rparr>"

definition refused :: "int \<Rightarrow> change_outcome" where
  "refused conflictID = no_outcome\<lparr>oc_Reason := ReasonConflict, oc_ConflictID := conflictID\<rparr>"

section \<open>Entities\<close>

definition put_entity_row :: "string \<Rightarrow> string \<Rightarrow> entity_row \<Rightarrow> pg \<Rightarrow> pg" where
  "put_entity_row t i r s = s\<lparr>db_entities := (db_entities s)((t, i) \<mapsto> r)\<rparr>"

definition pg_entity_new :: "pg_env \<Rightarrow> change \<Rightarrow> string \<Rightarrow> (pg, change_outcome tx_end) op" where
  "pg_entity_new env c deviceID =
     (if c_Op c = OpDelete then commitOutcome (no_outcome\<lparr>oc_Accepted := True\<rparr>)
      else if c_BaseRevision c \<noteq> 0 then commitOutcome (no_outcome\<lparr>oc_Reason := ReasonConflict\<rparr>)
      else bindE (exec (put_entity_row (c_EntityType c) (c_EntityID c)
               \<lparr>er_revision = 1, er_deleted = False, er_payload = jsonb env (normalizePayload (c_Payload c))\<rparr>)) (\<lambda>_.
           bindE (insertEvent env (c_ChangeID c) (c_EntityType c) (c_EntityID c) 1 deviceID (c_Op c) (c_Payload c)
               StatusDone) (\<lambda>eventID.
             commitOutcome (accepted 1 eventID))))"

definition pg_entity_next :: "pg_env \<Rightarrow> change \<Rightarrow> string \<Rightarrow> entity_row \<Rightarrow> (pg, change_outcome tx_end) op" where
  "pg_entity_next env c deviceID row =
     (if c_BaseRevision c \<noteq> er_revision row
      then bindE (insertConflict env c deviceID (er_revision row)) (\<lambda>conflictID. commitOutcome (refused conflictID))
      else let newRev = er_revision row + 1 in
        bindE (exec (put_entity_row (c_EntityType c) (c_EntityID c)
            (if c_Op c = OpDelete then row\<lparr>er_revision := newRev, er_deleted := True\<rparr>
             else row\<lparr>er_revision := newRev, er_deleted := False,
               er_payload := jsonb env (normalizePayload (c_Payload c))\<rparr>))) (\<lambda>_.
        bindE (insertEvent env (c_ChangeID c) (c_EntityType c) (c_EntityID c) newRev deviceID (c_Op c) (c_Payload c)
            StatusDone) (\<lambda>eventID.
          commitOutcome (accepted newRev eventID))))"

text \<open>A replay leaves the transaction to the deferred \<open>Rollback\<close>.\<close>

definition pg_entity_tx :: "pg_env \<Rightarrow> change \<Rightarrow> string \<Rightarrow> (pg, change_outcome tx_end) op" where
  "pg_entity_tx env c deviceID =
     bindE (change_exists (c_ChangeID c)) (\<lambda>exists.
       if exists then ret (Leave duplicate)
       else bindE (query (\<lambda>s. db_entities s (c_EntityType c, c_EntityID c))) (\<lambda>row.
         case row of None \<Rightarrow> pg_entity_new env c deviceID | Some r \<Rightarrow> pg_entity_next env c deviceID r))"

definition pg_ApplyChange :: "pg_env \<Rightarrow> change \<Rightarrow> string \<Rightarrow> (pg, change_outcome) op" where
  "pg_ApplyChange env c deviceID = in_tx begin_error (pg_entity_tx env c deviceID)"

definition pg_force_tx ::
  "pg_env \<Rightarrow> string \<Rightarrow> string \<Rightarrow> raw \<Rightarrow> string \<Rightarrow> (pg, change_outcome tx_end) op" where
  "pg_force_tx env entityType entityID payload deviceID =
     bindE (stmt (\<lambda>s.
         let newRev = (case db_entities s (entityType, entityID) of None \<Rightarrow> 1 | Some r \<Rightarrow> er_revision r + 1)
         in (Inr newRev, put_entity_row entityType entityID \<lparr>er_revision = newRev, er_deleted = False,
               er_payload = jsonb env (normalizePayload payload)\<rparr> s))) (\<lambda>newRev.
     bindE (serverChangeID env) (\<lambda>cid.
     bindE (insertEvent env cid entityType entityID newRev deviceID OpUpsert payload StatusDone) (\<lambda>eventID.
       commitOutcome (accepted newRev eventID))))"

definition pg_ForceUpsert ::
  "pg_env \<Rightarrow> string \<Rightarrow> string \<Rightarrow> raw \<Rightarrow> string \<Rightarrow> (pg, change_outcome) op" where
  "pg_ForceUpsert env entityType entityID payload deviceID =
     in_tx begin_error (pg_force_tx env entityType entityID payload deviceID)"

section \<open>Books\<close>

text \<open>
  The columns that a book is written with; \<open>files\<close> is \<open>NOT NULL\<close> and \<open>current_page\<close> an \<open>INTEGER\<close>, so a
  missing list or a page number of more than 32 bits makes the statement fail.
\<close>

definition filesJSON :: "book_file_meta list option \<Rightarrow> raw" where
  "filesJSON files = (if files = None then None else Some (enc_files files))"

definition null_if_empty :: "string \<Rightarrow> string option" where
  "null_if_empty v = (if v = [] then None else Some v)"

definition in_int32 :: "int \<Rightarrow> bool" where
  "in_int32 i \<longleftrightarrow> - (2 ^ 31) \<le> i \<and> i < 2 ^ 31"

definition book_columns :: "pg_env \<Rightarrow> string \<Rightarrow> int \<Rightarrow> string \<Rightarrow> raw \<Rightarrow> (int \<Rightarrow> int \<Rightarrow> book_row) option" where
  "book_columns env name page cover files =
     (case files of
        None \<Rightarrow> None
      | Some f \<Rightarrow> if \<not> in_int32 page then None
                  else Some (\<lambda>revision progress.
                    \<lparr>br_name = name, br_current_page = page, br_cover_hash = null_if_empty cover,
                     br_files = pe_jsonb env f, br_revision = revision, br_progress_revision = progress,
                     br_deleted = False\<rparr>))"

definition payload_columns :: "pg_env \<Rightarrow> book_payload \<Rightarrow> (int \<Rightarrow> int \<Rightarrow> book_row) option" where
  "payload_columns env p =
     book_columns env (bp_Name p) (bp_CurrentPage p) (bp_CoverHash p) (filesJSON (bp_Files p))"

definition put_book_row :: "string \<Rightarrow> book_row \<Rightarrow> pg \<Rightarrow> pg" where
  "put_book_row u r s = s\<lparr>db_current_book := AList.update u r (db_current_book s)\<rparr>"

definition book_row_of :: "string \<Rightarrow> pg \<Rightarrow> book_row option" where
  "book_row_of u s = map_of (db_current_book s) u"

text \<open>\<open>INSERT ... ON CONFLICT (entity_id) DO UPDATE ... RETURNING revision\<close>.\<close>

definition upsert_book :: "string \<Rightarrow> (int \<Rightarrow> int \<Rightarrow> book_row) option \<Rightarrow> (pg, int) op" where
  "upsert_book u columns = stmt (\<lambda>s.
     case columns of
       None \<Rightarrow> (Inl ErrDatabase, s)
     | Some row \<Rightarrow>
         (case book_row_of u s of
            None \<Rightarrow> (Inr 1, put_book_row u (row 1 0) s)
          | Some old \<Rightarrow> (Inr (br_revision old + 1),
              put_book_row u (row (br_revision old + 1) (br_progress_revision old)) s)))"

text \<open>
  A progress change whose query fails goes on to commit in the code; the failed statement has aborted the
  transaction, so the commit reports the error, as here.
\<close>

definition pg_book_progress :: "pg_env \<Rightarrow> change \<Rightarrow> string \<Rightarrow> book_row option \<Rightarrow> (pg, change_outcome tx_end) op" where
  "pg_book_progress env c deviceID row =
     (case row of
        None \<Rightarrow> commitOutcome (no_outcome\<lparr>oc_Accepted := True\<rparr>)
      | Some r \<Rightarrow>
          (let p = parseBookPayload (c_Payload c) in
           bindE (stmt (\<lambda>s. if \<not> in_int32 (bp_CurrentPage p) then (Inl ErrDatabase, s)
               else (Inr (), put_book_row (c_EntityID c) (r\<lparr>br_current_page := bp_CurrentPage p,
                      br_progress_revision := br_progress_revision r + 1\<rparr>) s))) (\<lambda>_.
           bindE (insertEvent env (c_ChangeID c) EntityBook (c_EntityID c) (br_revision r) deviceID OpProgress
               (c_Payload c) StatusDone) (\<lambda>_.
             commitOutcome (no_outcome\<lparr>oc_Accepted := True\<rparr>)))))"

definition pg_book_new :: "pg_env \<Rightarrow> change \<Rightarrow> string \<Rightarrow> (pg, change_outcome tx_end) op" where
  "pg_book_new env c deviceID =
     (if c_Op c = OpDelete then commitOutcome (no_outcome\<lparr>oc_Accepted := True\<rparr>)
      else if c_BaseRevision c \<noteq> 0 then commitOutcome (no_outcome\<lparr>oc_Reason := ReasonConflict\<rparr>)
      else bindE (stmt (\<lambda>s. case payload_columns env (parseBookPayload (c_Payload c)) of
               None \<Rightarrow> (Inl ErrDatabase, s) | Some row \<Rightarrow> (Inr (), put_book_row (c_EntityID c) (row 1 0) s))) (\<lambda>_.
           bindE (insertEvent env (c_ChangeID c) EntityBook (c_EntityID c) 1 deviceID (c_Op c) (c_Payload c)
               StatusDone) (\<lambda>eventID.
             commitOutcome (accepted 1 eventID))))"

definition pg_book_next :: "pg_env \<Rightarrow> change \<Rightarrow> string \<Rightarrow> book_row \<Rightarrow> (pg, change_outcome tx_end) op" where
  "pg_book_next env c deviceID old =
     (if c_BaseRevision c \<noteq> br_revision old
      then bindE (insertConflict env c deviceID (br_revision old)) (\<lambda>conflictID. commitOutcome (refused conflictID))
      else let newRev = br_revision old + 1 in
        bindE (if c_Op c = OpDelete
               then exec (put_book_row (c_EntityID c) (old\<lparr>br_revision := newRev, br_deleted := True\<rparr>))
               else stmt (\<lambda>s. case payload_columns env (parseBookPayload (c_Payload c)) of
                   None \<Rightarrow> (Inl ErrDatabase, s)
                 | Some row \<Rightarrow> (Inr (), put_book_row (c_EntityID c) (row newRev (br_progress_revision old)) s))) (\<lambda>_.
        bindE (insertEvent env (c_ChangeID c) EntityBook (c_EntityID c) newRev deviceID (c_Op c) (c_Payload c)
            StatusDone) (\<lambda>eventID.
          commitOutcome (accepted newRev eventID))))"

definition pg_book_tx :: "pg_env \<Rightarrow> change \<Rightarrow> string \<Rightarrow> (pg, change_outcome tx_end) op" where
  "pg_book_tx env c deviceID =
     bindE (change_exists (c_ChangeID c)) (\<lambda>exists.
       if exists then commitOutcome duplicate
       else bindE (query (book_row_of (c_EntityID c))) (\<lambda>row.
         if c_Op c = OpProgress then pg_book_progress env c deviceID row
         else case row of None \<Rightarrow> pg_book_new env c deviceID | Some r \<Rightarrow> pg_book_next env c deviceID r))"

definition pg_ApplyBookChange :: "pg_env \<Rightarrow> change \<Rightarrow> string \<Rightarrow> string \<Rightarrow> (pg, change_outcome) op" where
  "pg_ApplyBookChange env c source deviceID = in_tx begin_error (pg_book_tx env c deviceID)"

definition pg_force_book_tx :: "pg_env \<Rightarrow> string \<Rightarrow> raw \<Rightarrow> string \<Rightarrow> (pg, change_outcome tx_end) op" where
  "pg_force_book_tx env entityID payload deviceID =
     bindE (upsert_book entityID (payload_columns env (parseBookPayload payload))) (\<lambda>newRev.
     bindE (serverChangeID env) (\<lambda>cid.
     bindE (insertEvent env cid EntityBook entityID newRev deviceID OpUpsert payload StatusDone) (\<lambda>eventID.
       commitOutcome (accepted newRev eventID))))"

definition pg_ForceUpsertBook :: "pg_env \<Rightarrow> string \<Rightarrow> raw \<Rightarrow> string \<Rightarrow> (pg, change_outcome) op" where
  "pg_ForceUpsertBook env entityID payload deviceID =
     in_tx begin_error (pg_force_book_tx env entityID payload deviceID)"

text \<open>\<open>RestoreLibrary\<close>: the loop over the snapshot, then the one over the books that are left.\<close>

definition live_rows :: "pg \<Rightarrow> string list" where
  "live_rows s = keys (filter (\<lambda>(u, r). \<not> br_deleted r) (db_current_book s))"

fun pg_restore_items :: "pg_env \<Rightarrow> string \<Rightarrow> book_snapshot_item list \<Rightarrow> int \<Rightarrow> (pg, int) op" where
  "pg_restore_items env deviceID [] maxRev = ret maxRev"
| "pg_restore_items env deviceID (item # items) maxRev =
     bindE (upsert_book (it_UUID item) (book_columns env (it_Name item) (it_CurrentPage item)
         (it_CoverHash item) (normalizePayload (it_Files item)))) (\<lambda>newRev.
     bindE (serverChangeID env) (\<lambda>cid.
     bindE (insertEvent env cid EntityBook (it_UUID item) newRev deviceID OpUpsert (snapshotItemPayload item)
         StatusDone) (\<lambda>_.
       pg_restore_items env deviceID items (if newRev > maxRev then newRev else maxRev))))"

fun pg_restore_deletes :: "pg_env \<Rightarrow> string \<Rightarrow> string list \<Rightarrow> int \<Rightarrow> (pg, int) op" where
  "pg_restore_deletes env deviceID [] maxRev = ret maxRev"
| "pg_restore_deletes env deviceID (u # us) maxRev =
     bindE (stmt (\<lambda>s. case book_row_of u s of
         None \<Rightarrow> (Inl ErrNoRows, s)
       | Some old \<Rightarrow> (Inr (br_revision old + 1),
           put_book_row u (old\<lparr>br_revision := br_revision old + 1, br_deleted := True\<rparr>) s))) (\<lambda>newRev.
     bindE (serverChangeID env) (\<lambda>cid.
     bindE (insertEvent env cid EntityBook u newRev deviceID OpDelete None StatusDone) (\<lambda>_.
       pg_restore_deletes env deviceID us (if newRev > maxRev then newRev else maxRev))))"

definition pg_restore_tx :: "pg_env \<Rightarrow> raw \<Rightarrow> string \<Rightarrow> (pg, restore_result tx_end) op" where
  "pg_restore_tx env snapshot deviceID =
     (case json_Unmarshal dec_items None snapshot of (items, ok) \<Rightarrow>
        if \<not> ok then throw (ErrWrap ''parse snapshot'' ErrJSON)
        else let its = slice_list items in
          bindE (query live_rows) (\<lambda>current.
          bindE (pg_restore_items env deviceID its 0) (\<lambda>maxRev.
          bindE (pg_restore_deletes env deviceID
              (pe_iter env (filter (\<lambda>u. u \<notin> set (map it_UUID its)) current)) maxRev) (\<lambda>maxRev'.
            ret (Commit \<lparr>rr_Restored = int (length its), rr_Revision = maxRev'\<rparr>)))))"

definition pg_RestoreLibrary :: "pg_env \<Rightarrow> raw \<Rightarrow> string \<Rightarrow> (pg, restore_result) op" where
  "pg_RestoreLibrary env snapshot deviceID = in_tx begin_error (pg_restore_tx env snapshot deviceID)"

definition row_item :: "string \<Rightarrow> book_row \<Rightarrow> book_snapshot_item" where
  "row_item u r = \<lparr>it_UUID = u, it_Name = br_name r, it_CurrentPage = br_current_page r,
     it_CoverHash = (case br_cover_hash r of None \<Rightarrow> [] | Some h \<Rightarrow> h), it_Files = Some (br_files r),
     it_Revision = br_revision r\<rparr>"

definition snapshot_rows :: "pg_env \<Rightarrow> pg \<Rightarrow> book_snapshot_item list" where
  "snapshot_rows env s = map (\<lambda>u. row_item u (the (book_row_of u s))) (pe_collate env (live_rows s))"

definition pg_SnapshotLibrary :: "pg_env \<Rightarrow> (pg, raw) op" where
  "pg_SnapshotLibrary env =
     bindE (query (snapshot_rows env)) (\<lambda>items. ret (Some (enc_slice enc_item (Some items))))"

section \<open>Events and cursors\<close>

definition row_event :: "event_row \<Rightarrow> sync_event" where
  "row_event r = \<lparr>ev_ID = vr_id r, ev_EntityType = vr_entity_type r, ev_EntityID = vr_entity_id r,
     ev_Op = vr_op r, ev_Revision = vr_revision r, ev_Payload = vr_payload r, ev_DeviceID = vr_device_id r,
     ev_CreatedAt = vr_created_at r\<rparr>"

definition selectable :: "int \<Rightarrow> event_row \<Rightarrow> bool" where
  "selectable cursor r \<longleftrightarrow> cursor < vr_id r \<and> (vr_status r = StatusDone \<or> vr_status r = StatusFailed)"

text \<open>
  One row more than the page is asked for.  A negative \<open>LIMIT\<close> is an error of the statement; with
  \<open>limit = -1\<close> the statement passes and the allocation of the page panics.
\<close>

definition pg_ListAfterCursor :: "int \<Rightarrow> int \<Rightarrow> (pg, sync_event list \<times> bool) op" where
  "pg_ListAfterCursor cursor limit =
     bindE (wrapE ''query events'' (stmt (\<lambda>s.
        if limit + 1 < 0 then (Inl ErrDatabase, s)
        else (Inr (take (nat (limit + 1))
               (sort_key vr_id (filter (selectable cursor) (db_sync_events s)))), s)))) (\<lambda>rows.
     if limit < 0 then throw ErrPanic
     else let events = map row_event rows; hasMore = int (length events) > limit
          in ret (if hasMore then take (nat limit) events else events, hasMore))"

definition count_status :: "string \<Rightarrow> pg \<Rightarrow> int" where
  "count_status st s = int (length (filter (\<lambda>r. vr_status r = st) (db_sync_events s)))"

definition pg_CountByStatus :: "(pg, int \<times> int \<times> int) op" where
  "pg_CountByStatus =
     query (\<lambda>s. (count_status ''pending'' s, count_status StatusConflict s, count_status StatusFailed s))"

definition pg_UpdateCursor :: "string \<Rightarrow> int \<Rightarrow> (pg, unit) op" where
  "pg_UpdateCursor deviceID lastEventID =
     exec (\<lambda>s. s\<lparr>db_sync_cursors := (db_sync_cursors s)(deviceID \<mapsto> lastEventID)\<rparr>)"

definition pg_GetCursor :: "string \<Rightarrow> (pg, int) op" where
  "pg_GetCursor deviceID =
     query (\<lambda>s. case db_sync_cursors s deviceID of None \<Rightarrow> 0 | Some c \<Rightarrow> c)"

section \<open>Conflicts\<close>

text \<open>
  \<open>conflictSelect\<close>: the client's payload comes from the event of the conflict, the server's from the
  entry as it is when the query runs.  \<open>COALESCE\<close> falls back to an object built from the book's columns,
  also where neither the entity's payload nor a book is there: then all its members are null.
\<close>

definition server_payload :: "pg_env \<Rightarrow> string \<Rightarrow> string \<Rightarrow> pg \<Rightarrow> raw" where
  "server_payload env entityType entityID s =
     (let ent = (if entityType \<noteq> EntityBook then
                   (case db_entities s (entityType, entityID) of None \<Rightarrow> None | Some r \<Rightarrow> er_payload r)
                 else None);
          cb = (if entityType = EntityBook then book_row_of entityID s else None)
      in case ent of
           Some p \<Rightarrow> Some p
         | None \<Rightarrow> Some (pe_jsonb env (JObj
             [(''name'', case cb of None \<Rightarrow> JNull | Some r \<Rightarrow> JStr (br_name r)),
              (''current_page'', case cb of None \<Rightarrow> JNull | Some r \<Rightarrow> JInt (br_current_page r)),
              (''cover_hash'', case cb of None \<Rightarrow> JNull | Some r \<Rightarrow>
                 (case br_cover_hash r of None \<Rightarrow> JNull | Some h \<Rightarrow> JStr h)),
              (''files'', case cb of None \<Rightarrow> JNull | Some r \<Rightarrow> br_files r)])))"

definition event_payload :: "int \<Rightarrow> pg \<Rightarrow> raw" where
  "event_payload i s = (case find (\<lambda>e. vr_id e = i) (db_sync_events s) of None \<Rightarrow> None | Some e \<Rightarrow> vr_payload e)"

definition row_conflict :: "pg_env \<Rightarrow> pg \<Rightarrow> conflict_row \<Rightarrow> conflict" where
  "row_conflict env s r = \<lparr>cf_ID = kr_id r, cf_EntityType = kr_entity_type r, cf_EntityID = kr_entity_id r,
     cf_LocalPayload = event_payload (kr_event_id r) s,
     cf_ServerPayload = server_payload env (kr_entity_type r) (kr_entity_id r) s,
     cf_ServerRevision = kr_current_revision r, cf_Status = kr_status r, cf_CreatedAt = kr_created_at r\<rparr>"

definition pg_ListOpen :: "pg_env \<Rightarrow> (pg, conflict list) op" where
  "pg_ListOpen env = wrapE ''query conflicts'' (query (\<lambda>s.
     map (row_conflict env s) (sort_key kr_id (filter (\<lambda>r. kr_status r = ConflictOpen) (db_conflicts s)))))"

definition pg_GetConflict :: "pg_env \<Rightarrow> int \<Rightarrow> (pg, conflict) op" where
  "pg_GetConflict env ident =
     stmt (\<lambda>s. case find (\<lambda>r. kr_id r = ident) (db_conflicts s) of
       None \<Rightarrow> (Inl ErrConflictNotFound, s) | Some r \<Rightarrow> (Inr (row_conflict env s r), s))"

definition resolve_row :: "int \<Rightarrow> string \<Rightarrow> conflict_row \<Rightarrow> conflict_row" where
  "resolve_row ident deviceID r =
     (if kr_id r = ident \<and> kr_status r = ConflictOpen
      then r\<lparr>kr_status := ConflictResolved, kr_resolved_by := Some deviceID\<rparr> else r)"

definition pg_MarkResolved :: "int \<Rightarrow> string \<Rightarrow> (pg, unit) op" where
  "pg_MarkResolved ident deviceID =
     stmt (\<lambda>s. if \<exists>r\<in>set (db_conflicts s). kr_id r = ident \<and> kr_status r = ConflictOpen
               then (Inr (), s\<lparr>db_conflicts := map (resolve_row ident deviceID) (db_conflicts s)\<rparr>)
               else (Inl ErrConflictResolved, s))"

section \<open>History\<close>

definition pg_InsertSnapshot :: "pg_env \<Rightarrow> string \<Rightarrow> string \<Rightarrow> raw \<Rightarrow> (pg, int) op" where
  "pg_InsertSnapshot env opType tag snapshot =
     stmt (\<lambda>s. if snapshot = None then (Inl ErrDatabase, s)
       else let ident = db_history_seq s + 1 in
         (Inr ident, s\<lparr>db_history_seq := ident, db_book_history := db_book_history s @
           [\<lparr>bh_ID = ident, bh_OpType = opType, bh_Tag = tag, bh_Payload = jsonb env snapshot,
             bh_CreatedAt = pe_clock env (HistoryStamp ident)\<rparr>]\<rparr>))"

definition pg_ListHistory :: "int \<Rightarrow> (pg, book_history list) op" where
  "pg_ListHistory limit =
     (let lim = (if limit \<le> 0 then 500 else limit) in
      wrapE ''query history'' (query (\<lambda>s. take (nat lim) (rev (sort_key bh_ID (db_book_history s))))))"

definition pg_GetHistory :: "int \<Rightarrow> (pg, book_history) op" where
  "pg_GetHistory ident =
     stmt (\<lambda>s. case find (\<lambda>h. bh_ID h = ident) (db_book_history s) of
       None \<Rightarrow> (Inl ErrHistoryNotFound, s) | Some h \<Rightarrow> (Inr h, s))"

end
