(* ===== verification/PgFacts.thy ===== *)
theory PgFacts
  imports PgSync Contracts
begin

text \<open>
  How to reason about operations on the database: a run that succeeds does what the run without faults
  does, a transaction that fails leaves the data alone, sequences only go up and rows are only added.  With these, each
  operation need only be computed on a database without faults.
\<close>

section \<open>Runs with and without faults\<close>

definition clean :: "pg \<Rightarrow> pg" where
  "clean s = s\<lparr>db_faults := []\<rparr>"

lemma clean_faults [simp]: "db_faults (clean s) = []"
  by (simp add: clean_def)

lemma clean_clean [simp]: "clean (clean s) = clean s" "clean (s\<lparr>db_faults := fs\<rparr>) = clean s"
  by (simp_all add: clean_def)

lemma clean_id: "db_faults s = [] \<Longrightarrow> clean s = s"
  by (simp add: clean_def)

text \<open>An effect that neither looks at the faults to come nor changes them.\<close>

definition oblivious :: "(pg, 'a) op \<Rightarrow> bool" where
  "oblivious f \<longleftrightarrow> (\<forall>s fs. f (s\<lparr>db_faults := fs\<rparr>) = (fst (f s), (snd (f s))\<lparr>db_faults := fs\<rparr>))"

definition runs_clean :: "(pg, 'a) op \<Rightarrow> bool" where
  "runs_clean m \<longleftrightarrow> (\<forall>s a t. m s = (Inr a, t) \<longrightarrow> m (clean s) = (Inr a, clean t))"

lemma runs_cleanD: "runs_clean m \<Longrightarrow> m s = (Inr a, t) \<Longrightarrow> m (clean s) = (Inr a, clean t)"
  by (simp add: runs_clean_def)

lemma runs_clean_stmt: "oblivious f \<Longrightarrow> runs_clean (stmt f)"
proof (unfold runs_clean_def, intro allI impI)
  fix s a t
  assume f: "oblivious f" and run: "stmt f s = (Inr a, t)"
  obtain fs where "f (s\<lparr>db_faults := fs\<rparr>) = (Inr a, t)"
    using stmt_cases [of f s] run by (metis Inl_Inr_False Pair_inject)
  then have "fst (f s) = Inr a" "t = (snd (f s))\<lparr>db_faults := fs\<rparr>"
    using f by (auto simp: oblivious_def)
  with f show "stmt f (clean s) = (Inr a, clean t)"
    by (simp add: clean_def oblivious_def)
qed

lemma runs_clean_ret [simp, intro]: "runs_clean (ret a)"
  by (simp add: runs_clean_def)

lemma runs_clean_throw [simp, intro]: "runs_clean (throw e)"
  by (simp add: runs_clean_def)

lemma runs_clean_bindE [intro]: "runs_clean m \<Longrightarrow> (\<And>a. runs_clean (f a)) \<Longrightarrow> runs_clean (bindE m f)"
  unfolding runs_clean_def bindE_eq_Inr_iff by blast

lemma runs_clean_wrapE [intro]: "runs_clean m \<Longrightarrow> runs_clean (wrapE w m)"
  by (simp add: runs_clean_def)

lemma runs_clean_oblivious: "oblivious m \<Longrightarrow> runs_clean m"
  by (auto simp: runs_clean_def oblivious_def clean_def)

lemma oblivious_pure [simp, intro]: "oblivious (\<lambda>s. (Inr (), s))"
  by (simp add: oblivious_def)

lemma runs_clean_query:
  "(\<And>s fs. g (s\<lparr>db_faults := fs\<rparr>) = g s) \<Longrightarrow> runs_clean (query g)"
  unfolding query_def by (rule runs_clean_stmt) (simp add: oblivious_def)

lemma runs_clean_exec:
  "(\<And>s fs. g (s\<lparr>db_faults := fs\<rparr>) = (g s)\<lparr>db_faults := fs\<rparr>) \<Longrightarrow> runs_clean (exec g)"
  unfolding exec_def by (rule runs_clean_stmt) (simp add: oblivious_def)

lemma rollback_clean: "rollback (clean s) (clean t) = clean (rollback s t)"
  by (simp add: rollback_def clean_def)

lemma in_tx_success:
  assumes "in_tx be body s = (Inr a, t)"
  obtains s1 s2 where "clean s1 = clean s" "body s1 = (Inr (Commit a), s2)" "clean t = clean s2"
        | s1 s2 where "clean s1 = clean s" "body s1 = (Inr (Leave a), s2)" "t = rollback s1 s2"
proof -
  from assms obtain s1 where s1: "stmt (\<lambda>s. (Inr (), s)) s = (Inr (), s1)"
    by (auto simp: in_tx_def split: prod.splits sum.splits)
  then have c1: "clean s1 = clean s"
    by (metis stmt_cases Inl_Inr_False Pair_inject clean_clean(2))
  from assms s1 obtain b s2 where s2: "body s1 = (Inr b, s2)"
    by (auto simp: in_tx_def split: prod.splits sum.splits)
  show ?thesis
  proof (cases b)
    case (Leave x)
    with assms s1 s2 c1 that(2) show ?thesis by (auto simp: in_tx_def)
  next
    case (Commit x)
    with assms s1 s2 have "stmt (\<lambda>s. (Inr (), s)) s2 = (Inr (), t)" "x = a"
      by (auto simp: in_tx_def split: prod.splits sum.splits)
    moreover from this have "clean t = clean s2"
      by (metis stmt_cases Inl_Inr_False Pair_inject clean_clean(2))
    ultimately show ?thesis using Commit s2 c1 that(1) by auto
  qed
qed

lemma in_tx_no_faults:
  "db_faults s = [] \<Longrightarrow> (\<And>b t. body s = (b, t) \<Longrightarrow> db_faults t = []) \<Longrightarrow>
     in_tx be body s = (case body s of
       (Inl e, t) \<Rightarrow> (Inl e, rollback s t)
     | (Inr (Leave a), t) \<Rightarrow> (Inr a, rollback s t)
     | (Inr (Commit a), t) \<Rightarrow> (Inr a, t))"
  by (auto simp: in_tx_def split: prod.splits sum.splits tx_end.splits)

text \<open>What a successful transaction did, read off its body on the database without faults.\<close>

lemma in_tx_commit:
  assumes "in_tx be body s = (Inr a, t)" "runs_clean body"
  shows "(body (clean s) = (Inr (Commit a), clean t)) \<or>
    (\<exists>u. body (clean s) = (Inr (Leave a), u) \<and> clean t = clean (rollback s u))"
proof (rule in_tx_success [OF assms(1)])
  fix s1 s2 assume "clean s1 = clean s" "body s1 = (Inr (Commit a), s2)" "clean t = clean s2"
  with runs_cleanD [OF assms(2)] show ?thesis by metis
next
  fix s1 s2 assume h: "clean s1 = clean s" "body s1 = (Inr (Leave a), s2)" "t = rollback s1 s2"
  with runs_cleanD [OF assms(2)] have "body (clean s) = (Inr (Leave a), clean s2)" by metis
  moreover have "clean t = clean (rollback s (clean s2))"
    using h(1,3) rollback_clean [of s1 s2] rollback_clean [of s "clean s2"] by simp
  ultimately show ?thesis by blast
qed

section \<open>Data and bookkeeping\<close>

text \<open>Two states with the same data: they differ in faults to come, sequences and randomness only.\<close>

definition same_data :: "pg \<Rightarrow> pg \<Rightarrow> bool" where
  "same_data s t \<longleftrightarrow> db_devices t = db_devices s \<and> db_current_book t = db_current_book s \<and>
     db_entities t = db_entities s \<and> db_sync_events t = db_sync_events s \<and>
     db_sync_cursors t = db_sync_cursors s \<and> db_conflicts t = db_conflicts s \<and>
     db_book_history t = db_book_history s \<and> db_library_meta t = db_library_meta s \<and>
     db_book_upload t = db_book_upload s \<and> db_book_upload_file t = db_book_upload_file s \<and>
     db_file_meta t = db_file_meta s"

lemma same_data_refl [simp, intro]: "same_data s s"
  by (simp add: same_data_def)

lemma same_data_trans [trans]: "same_data s t \<Longrightarrow> same_data t u \<Longrightarrow> same_data s u"
  by (simp add: same_data_def)

lemma same_data_rollback [simp]: "same_data s (rollback s t)"
  by (simp add: same_data_def rollback_def)

lemma same_data_clean [simp]: "same_data (clean s) t = same_data s t" "same_data s (clean t) = same_data s t"
  by (simp_all add: same_data_def clean_def)

lemma same_data_faults [simp]: "same_data s (s\<lparr>db_faults := fs\<rparr>)"
  by (simp add: same_data_def)

lemma in_tx_fails: "in_tx be body s = (Inl e, t) \<Longrightarrow> same_data s t"
proof (rule stmt_cases [of "\<lambda>s. (Inr (), s)" s])
  fix fs assume "in_tx be body s = (Inl e, t)" "stmt (\<lambda>s. (Inr (), s)) s = (Inl ErrDatabase, s\<lparr>db_faults := fs\<rparr>)"
  then show ?thesis by (auto simp: in_tx_def)
next
  fix fs assume "in_tx be body s = (Inl e, t)" "stmt (\<lambda>s. (Inr (), s)) s = (Inr (), s\<lparr>db_faults := fs\<rparr>)"
  then show ?thesis
    by (auto simp: in_tx_def split: prod.splits sum.splits tx_end.splits
        intro: same_data_trans [OF same_data_faults same_data_rollback])
qed

definition only_up :: "pg \<Rightarrow> pg \<Rightarrow> bool" where
  "only_up s t \<longleftrightarrow> db_event_seq s \<le> db_event_seq t \<and> db_conflict_seq s \<le> db_conflict_seq t \<and>
     db_history_seq s \<le> db_history_seq t \<and> (\<exists>es. db_sync_events t = db_sync_events s @ es) \<and>
     dom (map_of (db_current_book s)) \<subseteq> dom (map_of (db_current_book t)) \<and>
     dom (db_entities s) \<subseteq> dom (db_entities t)"

lemma only_up_trans [trans]: "only_up s t \<Longrightarrow> only_up t u \<Longrightarrow> only_up s u"
  by (auto simp: only_up_def) (blast dest: subsetD)+

lemma only_up_rollback: "only_up s t \<Longrightarrow> only_up t u \<Longrightarrow> only_up s (rollback t u)"
  unfolding only_up_def rollback_def by (auto intro: order_trans)

lemma only_up_refl [simp, intro]: "only_up s s"
  by (simp add: only_up_def)

definition goes_up :: "(pg, 'a) op \<Rightarrow> bool" where
  "goes_up m \<longleftrightarrow> (\<forall>s. only_up s (snd (m s)))"

lemma goes_upD: "goes_up m \<Longrightarrow> m s = (r, t) \<Longrightarrow> only_up s t"
  unfolding goes_up_def by (metis snd_conv)

lemma goes_up_ret [simp, intro]: "goes_up (ret a)" "goes_up (throw e)"
  by (simp_all add: goes_up_def)

lemma goes_up_bindE [intro]:
  assumes "goes_up m" "\<And>a. goes_up (f a)"
  shows "goes_up (bindE m f)"
  unfolding goes_up_def
proof
  fix s
  show "only_up s (snd (bindE m f s))"
  proof (cases "m s")
    case (Pair r t)
    then have "only_up s t" using assms(1) by (rule goes_upD [rotated])
    with Pair assms(2) show ?thesis
      by (cases r) (auto simp: bindE_def goes_up_def intro: only_up_trans)
  qed
qed

lemma goes_up_wrapE [intro]: "goes_up m \<Longrightarrow> goes_up (wrapE w m)"
  by (simp add: goes_up_def)

lemma only_up_faults [simp]: "only_up s (s\<lparr>db_faults := fs\<rparr>)" "only_up (s\<lparr>db_faults := fs\<rparr>) t = only_up s t"
  by (simp_all add: only_up_def)

lemma goes_up_stmt [intro]: "goes_up f \<Longrightarrow> goes_up (stmt f)"
  unfolding goes_up_def
proof
  fix s assume f: "\<forall>s. only_up s (snd (f s))"
  show "only_up s (snd (stmt f s))"
    by (rule stmt_cases [of f s]) (use f only_up_faults(2) in \<open>fastforce+\<close>)
qed

lemma goes_up_in_tx:
  assumes "goes_up body"
  shows "goes_up (in_tx be body)"
  unfolding goes_up_def
proof
  fix s
  have up: "only_up s u" if "stmt (\<lambda>s. (Inr (), s)) s = (r, u)" for s u and r :: "error + unit"
    using that by (metis stmt_cases Pair_inject only_up_faults(1))
  show "only_up s (snd (in_tx be body s))"
    using assms
    by (auto simp: in_tx_def goes_up_def split: prod.splits sum.splits tx_end.splits dest!: up)
       (metis only_up_rollback only_up_trans snd_conv)+
qed

section \<open>The statements of the stores\<close>

named_theorems clean_ops \<open>operations whose successful runs do what the run without faults does\<close>
named_theorems up_ops \<open>operations that never turn a sequence back or drop a row\<close>

declare runs_clean_ret [clean_ops] runs_clean_throw [clean_ops] runs_clean_bindE [clean_ops]
  runs_clean_wrapE [clean_ops]
declare goes_up_ret [up_ops] goes_up_bindE [up_ops] goes_up_wrapE [up_ops]

lemma goes_up_query [up_ops]: "goes_up (query g)"
  unfolding query_def by (rule goes_up_stmt) (simp add: goes_up_def)

lemma commitOutcome_ops [clean_ops, up_ops]: "runs_clean (commitOutcome w)" "goes_up (commitOutcome w)"
  by (simp_all add: commitOutcome_def)

lemma clean_stmtI:
  "(\<And>s fs. f (s\<lparr>db_faults := fs\<rparr>) = (fst (f s), (snd (f s))\<lparr>db_faults := fs\<rparr>)) \<Longrightarrow> runs_clean (stmt f)"
  by (rule runs_clean_stmt) (simp add: oblivious_def)

lemma up_stmtI: "(\<And>s. only_up s (snd (f s))) \<Longrightarrow> goes_up (stmt f)"
  by (rule goes_up_stmt) (simp add: goes_up_def)

lemma up_execI [up_ops]: "(\<And>s. only_up s (g s)) \<Longrightarrow> goes_up (exec g)"
  unfolding exec_def by (rule up_stmtI) simp

lemma insertEvent_clean [clean_ops]: "runs_clean (insertEvent env cid t i r dev opn p st)"
  unfolding insertEvent_def by (rule clean_stmtI) (simp add: Let_def)

lemma insertEvent_up [up_ops]: "goes_up (insertEvent env cid t i r dev opn p st)"
  unfolding insertEvent_def by (rule up_stmtI) (simp add: Let_def only_up_def)

lemma change_exists_ops [clean_ops, up_ops]: "runs_clean (change_exists i)" "goes_up (change_exists i)"
  by (auto simp: change_exists_def intro!: runs_clean_query up_ops)

lemma rand_read_ops [clean_ops, up_ops]: "runs_clean rand_read" "goes_up rand_read"
  by (auto simp: rand_read_def runs_clean_def clean_def goes_up_def only_up_def split: list.splits)

lemma serverChangeID_ops [clean_ops, up_ops]: "runs_clean (serverChangeID env)" "goes_up (serverChangeID env)"
proof -
  have "runs_clean (\<lambda>s. (Inr (f (db_event_seq s)), s))" "goes_up (\<lambda>s. (Inr (f (db_event_seq s)), s))"
    for f :: "int \<Rightarrow> string"
    by (auto simp: runs_clean_def clean_def goes_up_def)
  then show "runs_clean (serverChangeID env)" "goes_up (serverChangeID env)"
    unfolding serverChangeID_def
    by (auto intro!: runs_clean_bindE goes_up_bindE rand_read_ops split: option.split)
qed

lemma insertConflict_ops [clean_ops, up_ops]:
  "runs_clean (insertConflict env c dev r)" "goes_up (insertConflict env c dev r)"
  unfolding insertConflict_def
  by (intro clean_ops clean_stmtI; simp add: Let_def)
     (intro up_ops up_stmtI; simp add: Let_def only_up_def)

lemma put_rows_faults [simp]:
  "put_book_row u r (s\<lparr>db_faults := fs\<rparr>) = (put_book_row u r s)\<lparr>db_faults := fs\<rparr>"
  "put_entity_row t i e (s\<lparr>db_faults := fs\<rparr>) = (put_entity_row t i e s)\<lparr>db_faults := fs\<rparr>"
  "book_row_of u (s\<lparr>db_faults := fs\<rparr>) = book_row_of u s"
  by (simp_all add: put_book_row_def put_entity_row_def book_row_of_def)

lemma put_rows_seqs [simp]: "only_up s (put_book_row u r s)" "only_up s (put_entity_row t i e s)"
  by (simp_all add: put_book_row_def put_entity_row_def only_up_def subset_insertI)

lemma upsert_book_ops [clean_ops, up_ops]: "runs_clean (upsert_book u cols)" "goes_up (upsert_book u cols)"
proof -
  show "runs_clean (upsert_book u cols)"
    unfolding upsert_book_def by (rule clean_stmtI) (simp split: option.split)
  show "goes_up (upsert_book u cols)"
    unfolding upsert_book_def by (rule up_stmtI) (simp split: option.split)
qed

lemma pg_entity_new_ops [clean_ops, up_ops]:
  "runs_clean (pg_entity_new env c dev)" "goes_up (pg_entity_new env c dev)"
  unfolding pg_entity_new_def
  by (auto intro!: clean_ops runs_clean_exec) (auto intro!: up_ops)

lemma pg_entity_next_ops [clean_ops, up_ops]:
  "runs_clean (pg_entity_next env c dev r)" "goes_up (pg_entity_next env c dev r)"
  unfolding pg_entity_next_def Let_def
  by (auto intro!: clean_ops runs_clean_exec) (auto intro!: up_ops)

lemma pg_book_progress_ops [clean_ops, up_ops]:
  "runs_clean (pg_book_progress env c dev r)" "goes_up (pg_book_progress env c dev r)"
  unfolding pg_book_progress_def Let_def
  by (auto intro!: clean_ops clean_stmtI split: option.split) (auto intro!: up_ops up_stmtI split: option.split)

lemma pg_book_new_ops [clean_ops, up_ops]:
  "runs_clean (pg_book_new env c dev)" "goes_up (pg_book_new env c dev)"
  unfolding pg_book_new_def
  by (auto intro!: clean_ops clean_stmtI split: option.split) (auto intro!: up_ops up_stmtI split: option.split)

lemma pg_book_next_ops [clean_ops, up_ops]:
  "runs_clean (pg_book_next env c dev r)" "goes_up (pg_book_next env c dev r)"
  unfolding pg_book_next_def Let_def
  by (auto intro!: clean_ops clean_stmtI runs_clean_exec split: option.split)
     (auto intro!: up_ops up_stmtI split: option.split)

lemma pg_restore_items_ops [clean_ops, up_ops]:
  "runs_clean (pg_restore_items env dev items m)" "goes_up (pg_restore_items env dev items m)"
  by (induction items arbitrary: m) (auto intro!: clean_ops up_ops)

lemma pg_restore_deletes_ops [clean_ops, up_ops]:
  "runs_clean (pg_restore_deletes env dev us m)" "goes_up (pg_restore_deletes env dev us m)"
  by (induction us arbitrary: m)
    (auto intro!: clean_ops clean_stmtI up_ops up_stmtI split: option.split)

end
