(* ===== verification/PgInv.thy ===== *)
theory PgInv
  imports PgFacts EventLog
begin

text \<open>
  The invariant of the synchronised tables: identifiers below their sequences and in order, revisions
  that count the writes of an entry, and current rows that say what the event log says.
\<close>

section \<open>Views\<close>

definition pg_deliverable :: "event_row \<Rightarrow> bool" where
  "pg_deliverable r \<longleftrightarrow> vr_status r = StatusDone \<or> vr_status r = StatusFailed"

definition pg_log :: "pg \<Rightarrow> sync_event list" where
  "pg_log s = map row_event (filter pg_deliverable (db_sync_events s))"

text \<open>The book in a row, and the live library.\<close>

definition row_content :: "book_row \<Rightarrow> book_payload" where
  "row_content r = \<lparr>bp_Name = br_name r, bp_CurrentPage = br_current_page r,
     bp_CoverHash = (case br_cover_hash r of None \<Rightarrow> [] | Some h \<Rightarrow> h),
     bp_Files = Some (slice_list (fst (dec_files None (br_files r))))\<rparr>"

definition pg_library :: "pg \<Rightarrow> (string \<rightharpoonup> book_payload)" where
  "pg_library s u =
     (case book_row_of u s of None \<Rightarrow> None | Some r \<Rightarrow> if br_deleted r then None else Some (row_content r))"

definition pg_entities :: "pg \<Rightarrow> (string \<times> string \<rightharpoonup> raw)" where
  "pg_entities s k =
     (case db_entities s k of None \<Rightarrow> None | Some r \<Rightarrow> if er_deleted r then None else Some (er_payload r))"

text \<open>
  What a device makes of the events: a write replaces the book, a progress event moves the page of a
  book it has, a deletion removes it.
\<close>

definition apply_content :: "sync_event \<Rightarrow> (string \<rightharpoonup> book_payload) \<Rightarrow> (string \<rightharpoonup> book_payload)" where
  "apply_content e m =
     (if \<not> is_book_event e then m
      else if ev_Op e = OpDelete then m(ev_EntityID e := None)
      else if ev_Op e = OpProgress
      then m(ev_EntityID e := map_option
               (bp_CurrentPage_update (\<lambda>_. bp_CurrentPage (parseBookPayload (ev_Payload e)))) (m (ev_EntityID e)))
      else m(ev_EntityID e \<mapsto> book_content (ev_Payload e)))"

definition apply_entity :: "sync_event \<Rightarrow> (string \<times> string \<rightharpoonup> raw) \<Rightarrow> (string \<times> string \<rightharpoonup> raw)" where
  "apply_entity e m =
     (if is_book_event e then m
      else if ev_Op e = OpDelete then m((ev_EntityType e, ev_EntityID e) := None)
      else m((ev_EntityType e, ev_EntityID e) \<mapsto> normalizePayload (ev_Payload e)))"

text \<open>The events that write a book or an entity, and the revisions they carry.\<close>

definition writes_book :: "string \<Rightarrow> event_row \<Rightarrow> bool" where
  "writes_book u r \<longleftrightarrow> vr_status r = StatusDone \<and> vr_entity_type r = EntityBook \<and> vr_entity_id r = u \<and>
     vr_op r \<noteq> OpProgress"

definition writes_entity :: "string \<times> string \<Rightarrow> event_row \<Rightarrow> bool" where
  "writes_entity k r \<longleftrightarrow> vr_status r = StatusDone \<and> vr_entity_type r \<noteq> EntityBook \<and>
     (vr_entity_type r, vr_entity_id r) = k"

definition pg_book_rev :: "string \<Rightarrow> pg \<Rightarrow> int" where
  "pg_book_rev u s = (case book_row_of u s of None \<Rightarrow> 0 | Some r \<Rightarrow> br_revision r)"

definition pg_entity_rev :: "string \<times> string \<Rightarrow> pg \<Rightarrow> int" where
  "pg_entity_rev k s = (case db_entities s k of None \<Rightarrow> 0 | Some r \<Rightarrow> er_revision r)"

text \<open>
  What is relied on of the normal form that a \<open>JSONB\<close> column keeps: it reads back as the same book, the
  same list of files, and it is \<open>null\<close> for \<open>null\<close> only.  (Documents that repeat a member name up to
  case can break the first; the clients send none.)
\<close>

definition jsonb_ok :: "pg_env \<Rightarrow> bool" where
  "jsonb_ok env \<longleftrightarrow>
     (\<forall>p. parseBookPayload (jsonb env p) = parseBookPayload p) \<and>
     (\<forall>j. fst (dec_files None (pe_jsonb env j)) = fst (dec_files None j)) \<and>
     (\<forall>j. pe_jsonb env j = JNull \<longleftrightarrow> j = JNull)"

section \<open>The invariant\<close>

definition increasing :: "int list \<Rightarrow> int \<Rightarrow> bool" where
  "increasing ids hi \<longleftrightarrow> 0 \<le> hi \<and> sorted_wrt (<) ids \<and> (\<forall>i\<in>set ids. 0 < i \<and> i \<le> hi)"

lemma increasing_snoc: "increasing ids hi \<Longrightarrow> increasing (ids @ [hi + 1]) (hi + 1)"
  by (fastforce simp: increasing_def sorted_wrt_append)

lemma increasing_top: "increasing ids hi \<Longrightarrow> hi \<le> hi' \<Longrightarrow> increasing ids hi'"
  by (fastforce simp: increasing_def)

definition pg_ids_ok :: "pg \<Rightarrow> bool" where
  "pg_ids_ok s \<longleftrightarrow> increasing (map vr_id (db_sync_events s)) (db_event_seq s) \<and>
     increasing (map kr_id (db_conflicts s)) (db_conflict_seq s) \<and>
     increasing (map bh_ID (db_book_history s)) (db_history_seq s) \<and>
     (\<forall>k\<in>set (db_conflicts s). kr_event_id k \<in> vr_id ` set (db_sync_events s))"

definition pg_status_ok :: "pg \<Rightarrow> bool" where
  "pg_status_ok s \<longleftrightarrow>
     (\<forall>r\<in>set (db_sync_events s). vr_status r = StatusDone \<or> vr_status r = StatusConflict) \<and>
     (\<forall>k\<in>set (db_conflicts s). kr_status k = ConflictOpen \<or> kr_status k = ConflictResolved)"

definition pg_rows_ok :: "pg \<Rightarrow> bool" where
  "pg_rows_ok s \<longleftrightarrow> distinct (keys (db_current_book s)) \<and>
     (\<forall>u r. book_row_of u s = Some r \<longrightarrow> 0 < br_revision r) \<and>
     (\<forall>k r. db_entities s k = Some r \<longrightarrow> 0 < er_revision r)"

definition pg_log_ok :: "pg \<Rightarrow> bool" where
  "pg_log_ok s \<longleftrightarrow>
     fold apply_content (pg_log s) (\<lambda>_. None) = pg_library s \<and>
     fold apply_entity (pg_log s) (\<lambda>_. None) = pg_entities s \<and>
     (\<forall>u. map vr_revision (filter (writes_book u) (db_sync_events s)) = upto_ids (nat (pg_book_rev u s))) \<and>
     (\<forall>k. fst k \<noteq> EntityBook \<longrightarrow>
        map vr_revision (filter (writes_entity k) (db_sync_events s)) = upto_ids (nat (pg_entity_rev k s))) \<and>
     (\<forall>i. db_entities s (EntityBook, i) = None)"

text \<open>The part that does not speak of the order of the identifiers.\<close>

definition pg_data_ok :: "pg \<Rightarrow> bool" where
  "pg_data_ok s \<longleftrightarrow> pg_status_ok s \<and> pg_rows_ok s \<and> pg_log_ok s"

definition pg_inv :: "pg \<Rightarrow> bool" where
  "pg_inv s \<longleftrightarrow> pg_ids_ok s \<and> pg_status_ok s \<and> pg_rows_ok s \<and> pg_log_ok s"

lemma pg_inv_parts: "pg_inv s \<longleftrightarrow> pg_ids_ok s \<and> pg_data_ok s"
  by (simp add: pg_inv_def pg_data_ok_def)

lemmas pg_views = pg_log_def pg_library_def pg_entities_def pg_book_rev_def pg_entity_rev_def book_row_of_def

lemma same_data_views:
  assumes "same_data s t"
  shows "pg_log t = pg_log s" "pg_library t = pg_library s" "pg_entities t = pg_entities s"
    "pg_book_rev u t = pg_book_rev u s" "pg_entity_rev k t = pg_entity_rev k s"
    "book_row_of u t = book_row_of u s"
proof -
  have "pg_library t u = pg_library s u" "pg_entities t k = pg_entities s k" for u k
    using assms by (simp_all add: same_data_def pg_views)
  then show "pg_log t = pg_log s" "pg_library t = pg_library s" "pg_entities t = pg_entities s"
    "pg_book_rev u t = pg_book_rev u s" "pg_entity_rev k t = pg_entity_rev k s"
    "book_row_of u t = book_row_of u s"
    using assms by (auto simp: same_data_def pg_views)
qed

lemma pg_inv_same: "same_data s t \<Longrightarrow> only_up s t \<Longrightarrow> pg_inv s \<Longrightarrow> pg_inv t"
proof -
  assume h: "same_data s t" "only_up s t" "pg_inv s"
  then have "pg_ids_ok t"
    by (auto simp: pg_inv_def pg_ids_ok_def same_data_def only_up_def intro: increasing_top)
  moreover have "pg_status_ok t" "pg_rows_ok t" "pg_log_ok t"
    using h same_data_views [OF h(1)]
    by (auto simp: pg_inv_def pg_status_ok_def pg_rows_ok_def pg_log_ok_def same_data_def)
  ultimately show ?thesis by (simp add: pg_inv_def)
qed

lemma pg_inv_random [simp]: "pg_inv (s\<lparr>db_random := rs\<rparr>) = pg_inv s"
  by (rule iffI; erule pg_inv_same [rotated 2]) (simp_all add: same_data_def only_up_def)

lemma pg_inv_faults [simp]: "pg_inv (s\<lparr>db_faults := fs\<rparr>) = pg_inv s" "pg_inv (clean s) = pg_inv s"
proof -
  show "pg_inv (s\<lparr>db_faults := fs\<rparr>) = pg_inv s" for fs
    by (rule iffI; erule pg_inv_same [rotated 2]) (simp_all add: same_data_def only_up_def)
  then show "pg_inv (clean s) = pg_inv s" by (simp add: clean_def)
qed

lemma pg_inv_init: "pg_inv (empty_db fs)"
  by (simp add: pg_inv_def pg_ids_ok_def pg_status_ok_def pg_rows_ok_def pg_log_ok_def empty_db_def
      increasing_def pg_views fun_eq_iff)

text \<open>A transaction keeps the invariant when a committing body does, on a database without faults.\<close>

lemma in_tx_inv:
  assumes "runs_clean body" "goes_up body" "pg_inv s"
    and "\<And>a u. body (clean s) = (Inr (Commit a), u) \<Longrightarrow> pg_inv u"
  shows "pg_inv (snd (in_tx be body s))"
proof (cases "in_tx be body s")
  case (Pair r t)
  have up: "only_up s t" using goes_up_in_tx [OF assms(2)] Pair by (rule goes_upD)
  show ?thesis
  proof (cases r)
    case (Inl e)
    with Pair have "same_data s t" by (simp add: in_tx_fails)
    with Pair up assms(3) show ?thesis by (auto intro: pg_inv_same)
  next
    case (Inr a)
    from in_tx_commit [OF Pair [unfolded Inr] assms(1)] show ?thesis
    proof
      assume "body (clean s) = (Inr (Commit a), clean t)"
      from assms(4) [OF this] Pair show ?thesis by simp
    next
      assume "\<exists>u. body (clean s) = (Inr (Leave a), u) \<and> clean t = clean (rollback s u)"
      then have "same_data s t" by (metis same_data_clean(2) same_data_rollback)
      with Pair up assms(3) show ?thesis by (auto intro: pg_inv_same)
    qed
  qed
qed

section \<open>The elementary writes\<close>

definition event_row_of ::
  "pg_env \<Rightarrow> string \<Rightarrow> string \<Rightarrow> string \<Rightarrow> int \<Rightarrow> string \<Rightarrow> string \<Rightarrow> raw \<Rightarrow> string \<Rightarrow> pg \<Rightarrow> event_row" where
  "event_row_of env cid t i r dev opn p st s = \<lparr>vr_id = db_event_seq s + 1, vr_change_id = cid,
     vr_entity_type = t, vr_entity_id = i, vr_revision = r, vr_device_id = dev, vr_op = opn,
     vr_payload = jsonb env p, vr_status = st,
     vr_created_at = pe_clock env (EventStamp (db_event_seq s + 1))\<rparr>"

definition add_event :: "event_row \<Rightarrow> pg \<Rightarrow> pg" where
  "add_event e s = s\<lparr>db_event_seq := db_event_seq s + 1, db_sync_events := db_sync_events s @ [e]\<rparr>"

lemma insertEvent_run:
  "db_faults s = [] \<Longrightarrow> insertEvent env cid t i r dev opn p st s =
     (Inr (db_event_seq s + 1), add_event (event_row_of env cid t i r dev opn p st s) s)"
  by (simp add: insertEvent_def add_event_def event_row_of_def Let_def)

lemma event_row_of_fields [simp]:
  "vr_id (event_row_of env cid t i r dev opn p st s) = db_event_seq s + 1"
  "vr_change_id (event_row_of env cid t i r dev opn p st s) = cid"
  "vr_entity_type (event_row_of env cid t i r dev opn p st s) = t"
  "vr_entity_id (event_row_of env cid t i r dev opn p st s) = i"
  "vr_revision (event_row_of env cid t i r dev opn p st s) = r"
  "vr_op (event_row_of env cid t i r dev opn p st s) = opn"
  "vr_payload (event_row_of env cid t i r dev opn p st s) = jsonb env p"
  "vr_status (event_row_of env cid t i r dev opn p st s) = st"
  by (simp_all add: event_row_of_def)

lemma add_event_fields [simp]:
  "db_sync_events (add_event e s) = db_sync_events s @ [e]"
  "db_event_seq (add_event e s) = db_event_seq s + 1"
  "db_current_book (add_event e s) = db_current_book s" "db_entities (add_event e s) = db_entities s"
  "db_conflicts (add_event e s) = db_conflicts s" "db_conflict_seq (add_event e s) = db_conflict_seq s"
  "db_book_history (add_event e s) = db_book_history s" "db_history_seq (add_event e s) = db_history_seq s"
  "db_faults (add_event e s) = db_faults s" "book_row_of u (add_event e s) = book_row_of u s"
  by (simp_all add: add_event_def book_row_of_def)

lemma put_row_fields [simp]:
  "db_sync_events (put_book_row u r s) = db_sync_events s" "db_event_seq (put_book_row u r s) = db_event_seq s"
  "db_entities (put_book_row u r s) = db_entities s" "db_conflicts (put_book_row u r s) = db_conflicts s"
  "db_conflict_seq (put_book_row u r s) = db_conflict_seq s"
  "db_book_history (put_book_row u r s) = db_book_history s" "db_history_seq (put_book_row u r s) = db_history_seq s"
  "db_faults (put_book_row u r s) = db_faults s"
  "book_row_of v (put_book_row u r s) = (if v = u then Some r else book_row_of v s)"
  "db_sync_events (put_entity_row t i e s) = db_sync_events s" "db_event_seq (put_entity_row t i e s) = db_event_seq s"
  "db_current_book (put_entity_row t i e s) = db_current_book s" "db_conflicts (put_entity_row t i e s) = db_conflicts s"
  "db_conflict_seq (put_entity_row t i e s) = db_conflict_seq s"
  "db_book_history (put_entity_row t i e s) = db_book_history s" "db_history_seq (put_entity_row t i e s) = db_history_seq s"
  "db_faults (put_entity_row t i e s) = db_faults s"
  "db_entities (put_entity_row t i e s) = (db_entities s)((t, i) \<mapsto> e)"
  "book_row_of v (put_entity_row t i e s) = book_row_of v s"
  by (simp_all add: put_book_row_def put_entity_row_def book_row_of_def)

lemma row_event_fields [simp]:
  "ev_EntityType (row_event r) = vr_entity_type r" "ev_EntityID (row_event r) = vr_entity_id r"
  "ev_Op (row_event r) = vr_op r" "ev_Payload (row_event r) = vr_payload r" "ev_ID (row_event r) = vr_id r"
  "ev_Revision (row_event r) = vr_revision r"
  "is_book_event (row_event r) \<longleftrightarrow> vr_entity_type r = EntityBook"
  by (simp_all add: row_event_def is_book_event_def)

lemma pg_log_add [simp]:
  "pg_log (add_event e s) = pg_log s @ (if pg_deliverable e then [row_event e] else [])"
  by (simp add: pg_log_def)

lemma pg_log_put [simp]: "pg_log (put_book_row u r s) = pg_log s" "pg_log (put_entity_row t i x s) = pg_log s"
  by (simp_all add: pg_log_def)

lemma pg_ids_ok_add:
  assumes "pg_ids_ok s" "db_sync_events t = db_sync_events s" "db_event_seq t = db_event_seq s"
    "db_conflicts t = db_conflicts s" "db_conflict_seq t = db_conflict_seq s"
    "db_book_history t = db_book_history s" "db_history_seq t = db_history_seq s"
    "vr_id e = db_event_seq s + 1"
  shows "pg_ids_ok (add_event e t)"
  using assms increasing_snoc [of "map vr_id (db_sync_events s)" "db_event_seq s"]
  by (auto simp: pg_ids_ok_def)

lemma revs_snoc: "0 \<le> r \<Longrightarrow> upto_ids (nat (r + 1)) = upto_ids (nat r) @ [r + 1]"
  by (simp add: nat_add_distrib upto_ids_Suc)

lemma pg_data_rev_nonneg: "pg_data_ok s \<Longrightarrow> 0 \<le> pg_book_rev u s \<and> 0 \<le> pg_entity_rev k s"
proof -
  assume "pg_data_ok s"
  then have "0 \<le> pg_book_rev u s" "0 \<le> pg_entity_rev k s"
    by (auto simp: pg_data_ok_def pg_rows_ok_def pg_book_rev_def pg_entity_rev_def less_imp_le
        simp del: split_paired_All split: option.splits)
  then show ?thesis by simp
qed

lemma pg_rev_nonneg: "pg_inv s \<Longrightarrow> 0 \<le> pg_book_rev u s \<and> 0 \<le> pg_entity_rev k s"
  by (simp add: pg_inv_parts pg_data_rev_nonneg)

lemma pg_book_write_data:
  assumes inv: "pg_data_ok s"
    and e: "vr_entity_type e = EntityBook" "vr_entity_id e = u"
      "vr_revision e = pg_book_rev u s + 1" "vr_op e \<noteq> OpProgress" "vr_status e = StatusDone"
    and r: "br_revision r = pg_book_rev u s + 1" "br_deleted r \<longleftrightarrow> vr_op e = OpDelete"
      "\<not> br_deleted r \<Longrightarrow> row_content r = book_content (vr_payload e)"
  shows "pg_data_ok (add_event e (put_book_row u r s))"
proof -
  let ?t = "add_event e (put_book_row u r s)"
  have "pg_status_ok ?t" using inv e by (auto simp: pg_data_ok_def pg_status_ok_def)
  moreover have "pg_rows_ok ?t"
    using inv r(1) pg_data_rev_nonneg [OF inv, of u]
    by (auto simp: pg_data_ok_def pg_rows_ok_def put_book_row_def distinct_keys_update book_row_of_def)
  moreover have "pg_log_ok ?t"
  proof -
    have "pg_library ?t = apply_content (row_event e) (pg_library s)"
      using e r by (auto simp: pg_library_def apply_content_def fun_eq_iff)
    moreover have "pg_entities ?t = apply_entity (row_event e) (pg_entities s)"
      using e by (simp add: pg_entities_def apply_entity_def fun_eq_iff)
    moreover have "pg_book_rev v ?t = pg_book_rev v s + (if v = u then 1 else 0)" for v
      using r(1) by (simp add: pg_book_rev_def)
    moreover have "pg_entity_rev k ?t = pg_entity_rev k s" for k by (simp add: pg_entity_rev_def)
    moreover have "pg_deliverable e" using e by (simp add: pg_deliverable_def)
    ultimately show ?thesis
      using inv e pg_data_rev_nonneg [OF inv]
      by (auto simp: pg_data_ok_def pg_log_ok_def writes_book_def writes_entity_def revs_snoc)
  qed
  ultimately show ?thesis by (simp add: pg_data_ok_def)
qed

lemma pg_book_write_inv:
  assumes "pg_inv s"
    and "vr_id e = db_event_seq s + 1" "vr_entity_type e = EntityBook" "vr_entity_id e = u"
      "vr_revision e = pg_book_rev u s + 1" "vr_op e \<noteq> OpProgress" "vr_status e = StatusDone"
    and "br_revision r = pg_book_rev u s + 1" "br_deleted r \<longleftrightarrow> vr_op e = OpDelete"
      "\<not> br_deleted r \<Longrightarrow> row_content r = book_content (vr_payload e)"
  shows "pg_inv (add_event e (put_book_row u r s))"
  using assms by (auto simp: pg_inv_parts intro: pg_book_write_data pg_ids_ok_add)

text \<open>A progress event moves the page of a row and nothing else.\<close>

lemma pg_progress_data:
  assumes inv: "pg_data_ok s" and row: "book_row_of u s = Some old"
    and e: "vr_entity_type e = EntityBook" "vr_entity_id e = u"
      "vr_op e = OpProgress" "vr_status e = StatusDone"
    and r: "br_revision r = br_revision old" "br_deleted r = br_deleted old"
      "row_content r = (row_content old)\<lparr>bp_CurrentPage := bp_CurrentPage (parseBookPayload (vr_payload e))\<rparr>"
  shows "pg_data_ok (add_event e (put_book_row u r s))"
proof -
  let ?t = "add_event e (put_book_row u r s)"
  have "pg_status_ok ?t" using inv e by (auto simp: pg_data_ok_def pg_status_ok_def)
  moreover have "pg_rows_ok ?t"
    using inv r(1) row
    by (auto simp: pg_data_ok_def pg_rows_ok_def put_book_row_def distinct_keys_update book_row_of_def)
  moreover have "pg_log_ok ?t"
  proof -
    have "pg_library ?t = apply_content (row_event e) (pg_library s)"
      using e r row by (auto simp: pg_library_def apply_content_def fun_eq_iff)
    moreover have "pg_entities ?t = apply_entity (row_event e) (pg_entities s)"
      using e by (simp add: pg_entities_def apply_entity_def fun_eq_iff)
    moreover have "pg_book_rev v ?t = pg_book_rev v s" for v
      using r(1) row by (simp add: pg_book_rev_def)
    moreover have "pg_entity_rev k ?t = pg_entity_rev k s" for k by (simp add: pg_entity_rev_def)
    moreover have "pg_deliverable e" using e by (simp add: pg_deliverable_def)
    ultimately show ?thesis
      using inv e by (auto simp: pg_data_ok_def pg_log_ok_def writes_book_def writes_entity_def)
  qed
  ultimately show ?thesis by (simp add: pg_data_ok_def)
qed

lemma pg_progress_inv:
  assumes "pg_inv s" and "book_row_of u s = Some old"
    and "vr_id e = db_event_seq s + 1" "vr_entity_type e = EntityBook" "vr_entity_id e = u"
      "vr_op e = OpProgress" "vr_status e = StatusDone"
    and "br_revision r = br_revision old" "br_deleted r = br_deleted old"
      "row_content r = (row_content old)\<lparr>bp_CurrentPage := bp_CurrentPage (parseBookPayload (vr_payload e))\<rparr>"
  shows "pg_inv (add_event e (put_book_row u r s))"
  using assms by (auto simp: pg_inv_parts intro: pg_progress_data pg_ids_ok_add)

lemma pg_entity_write_data:
  assumes inv: "pg_data_ok s"
    and e: "vr_entity_type e = t" "t \<noteq> EntityBook" "vr_entity_id e = i"
      "vr_revision e = pg_entity_rev (t, i) s + 1" "vr_status e = StatusDone"
    and r: "er_revision r = pg_entity_rev (t, i) s + 1" "er_deleted r \<longleftrightarrow> vr_op e = OpDelete"
      "\<not> er_deleted r \<Longrightarrow> er_payload r = normalizePayload (vr_payload e)"
  shows "pg_data_ok (add_event e (put_entity_row t i r s))"
proof -
  let ?t = "add_event e (put_entity_row t i r s)"
  have "pg_status_ok ?t" using inv e by (auto simp: pg_data_ok_def pg_status_ok_def)
  moreover have "pg_rows_ok ?t"
    using inv r(1) pg_data_rev_nonneg [OF inv, of _ "(t, i)"] by (auto simp: pg_data_ok_def pg_rows_ok_def)
  moreover have "pg_log_ok ?t"
  proof -
    have "pg_library ?t = apply_content (row_event e) (pg_library s)"
      using e by (simp add: pg_library_def apply_content_def fun_eq_iff)
    moreover have "pg_entities ?t = apply_entity (row_event e) (pg_entities s)"
      using e r by (auto simp: pg_entities_def apply_entity_def fun_eq_iff)
    moreover have "pg_book_rev v ?t = pg_book_rev v s" for v by (simp add: pg_book_rev_def)
    moreover have "pg_entity_rev k ?t = pg_entity_rev k s + (if k = (t, i) then 1 else 0)" for k
      using r(1) by (auto simp: pg_entity_rev_def)
    moreover have "pg_deliverable e" using e by (simp add: pg_deliverable_def)
    ultimately show ?thesis
      using inv e pg_data_rev_nonneg [OF inv]
      by (auto simp: pg_data_ok_def pg_log_ok_def writes_book_def writes_entity_def revs_snoc)
  qed
  ultimately show ?thesis by (simp add: pg_data_ok_def)
qed

lemma pg_entity_write_inv:
  assumes "pg_inv s"
    and "vr_id e = db_event_seq s + 1" "vr_entity_type e = t" "t \<noteq> EntityBook" "vr_entity_id e = i"
      "vr_revision e = pg_entity_rev (t, i) s + 1" "vr_status e = StatusDone"
    and "er_revision r = pg_entity_rev (t, i) s + 1" "er_deleted r \<longleftrightarrow> vr_op e = OpDelete"
      "\<not> er_deleted r \<Longrightarrow> er_payload r = normalizePayload (vr_payload e)"
  shows "pg_inv (add_event e (put_entity_row t i r s))"
  using assms by (auto simp: pg_inv_parts intro: pg_entity_write_data pg_ids_ok_add)

end
