(* ===== verification/Overlap.thy ===== *)
theory Overlap
  imports PgInv
begin

text \<open>
  Transactions that overlap.  The transactions of \<open>internal/store/book_store.go\<close> and
  \<open>internal/store/entity_store.go\<close> again, now as scripts: the statements that the code sends one after
  another, each with what it does with the answer.  A script that runs with nothing in between is the
  transaction of \<open>PgSync\<close>; here the statements of any number of them alternate.

  What is used of PostgreSQL is its documented behaviour at the default isolation level, read committed.
  A statement sees what was committed when it runs and what its own transaction has written.
  \<open>SELECT ... FOR UPDATE\<close> and every write lock the row until the transaction ends, and wait for a
  transaction that has locked it before; \<open>FOR UPDATE\<close> then reads the row anew.  A row that is not there
  cannot be locked by reading; two insertions of one primary key wait for each other, and the later one
  fails when the earlier commits, or becomes the update of \<open>ON CONFLICT\<close>.  A sequence moves at once and
  is not rolled back.
\<close>

section \<open>Scripts\<close>

text \<open>The rows that carry a revision, by their primary keys.\<close>

datatype row_key = BookKey string | EntityKey string string

datatype table_row = BookIs "book_row option" | EntityIs "entity_row option"

fun row_at :: "row_key \<Rightarrow> pg \<Rightarrow> table_row" where
  "row_at (BookKey u) s = BookIs (book_row_of u s)"
| "row_at (EntityKey t i) s = EntityIs (db_entities s (t, i))"

datatype sql =
    SelectChange string
  | SelectForUpdate row_key
  | SelectLive
  | InsertBook string "book_row option"
  | UpdateBook string "(book_row \<Rightarrow> book_row) option"
  | UpsertBook string "(int \<Rightarrow> int \<Rightarrow> book_row) option"
  | TombstoneBook string
  | InsertEntity string string entity_row
  | UpdateEntity string string "entity_row \<Rightarrow> entity_row"
  | UpsertEntity string string raw
  | InsertEvent "int \<Rightarrow> event_row"
  | InsertConflictRow "int \<Rightarrow> conflict_row"

datatype answer = Done | Flag bool | Row table_row | Number int | Names "string list"

fun flag :: "answer \<Rightarrow> bool" where
  "flag (Flag b) = b"
| "flag _ = False"

fun book_found :: "answer \<Rightarrow> book_row option" where
  "book_found (Row (BookIs r)) = r"
| "book_found _ = None"

fun entity_found :: "answer \<Rightarrow> entity_row option" where
  "entity_found (Row (EntityIs r)) = r"
| "entity_found _ = None"

fun number :: "answer \<Rightarrow> int" where
  "number (Number n) = n"
| "number _ = 0"

fun names :: "answer \<Rightarrow> string list" where
  "names (Names us) = us"
| "names _ = []"

text \<open>
  The end of a script is an error, \<open>commitOutcome\<close>, or a return that leaves the transaction to \<open>Rollback\<close>.
  A failed statement ends it with its error.
\<close>

datatype 'a script = Finish "error + 'a tx_end" | Send sql "answer \<Rightarrow> 'a script"

definition commit_script :: "'a \<Rightarrow> 'a script" where
  "commit_script a = Finish (Inr (Commit a))"

definition event_at ::
  "pg_env \<Rightarrow> string \<Rightarrow> string \<Rightarrow> string \<Rightarrow> int \<Rightarrow> string \<Rightarrow> string \<Rightarrow> raw \<Rightarrow> string \<Rightarrow> int \<Rightarrow> event_row" where
  "event_at env changeID entityType entityID revision deviceID opn payload status ident =
     \<lparr>vr_id = ident, vr_change_id = changeID, vr_entity_type = entityType, vr_entity_id = entityID,
      vr_revision = revision, vr_device_id = deviceID, vr_op = opn, vr_payload = jsonb env payload,
      vr_status = status, vr_created_at = pe_clock env (EventStamp ident)\<rparr>"

definition conflict_at :: "pg_env \<Rightarrow> change \<Rightarrow> int \<Rightarrow> int \<Rightarrow> int \<Rightarrow> conflict_row" where
  "conflict_at env c eventID currentRev ident =
     \<lparr>kr_id = ident, kr_event_id = eventID, kr_entity_type = c_EntityType c,
      kr_entity_id = c_EntityID c, kr_base_revision = c_BaseRevision c,
      kr_current_revision = currentRev, kr_status = ConflictOpen, kr_resolved_by = None,
      kr_created_at = pe_clock env (ConflictStamp ident)\<rparr>"

definition conflict_script :: "pg_env \<Rightarrow> change \<Rightarrow> string \<Rightarrow> int \<Rightarrow> change_outcome script" where
  "conflict_script env c deviceID currentRev =
     Send (InsertEvent (event_at env (c_ChangeID c) (c_EntityType c) (c_EntityID c) currentRev deviceID (c_Op c)
             (c_Payload c) StatusConflict)) (\<lambda>a.
     Send (InsertConflictRow (conflict_at env c (number a) currentRev)) (\<lambda>b.
       commit_script (refused (number b))))"

definition done_script :: "pg_env \<Rightarrow> change \<Rightarrow> string \<Rightarrow> string \<Rightarrow> int \<Rightarrow> change_outcome script" where
  "done_script env c entityType deviceID revision =
     Send (InsertEvent (event_at env (c_ChangeID c) entityType (c_EntityID c) revision deviceID (c_Op c) (c_Payload c)
             StatusDone)) (\<lambda>a.
       commit_script (accepted revision (number a)))"

subsection \<open>\<open>book_store.go\<close>\<close>

definition progress_script :: "pg_env \<Rightarrow> change \<Rightarrow> string \<Rightarrow> book_row option \<Rightarrow> change_outcome script" where
  "progress_script env c deviceID row =
     (case row of
        None \<Rightarrow> commit_script (no_outcome\<lparr>oc_Accepted := True\<rparr>)
      | Some r \<Rightarrow>
          (let p = parseBookPayload (c_Payload c) in
           Send (UpdateBook (c_EntityID c)
                   (if in_int32 (bp_CurrentPage p)
                    then Some (\<lambda>old. old\<lparr>br_current_page := bp_CurrentPage p,
                                      br_progress_revision := br_progress_revision old + 1\<rparr>) else None)) (\<lambda>_.
           Send (InsertEvent (event_at env (c_ChangeID c) EntityBook (c_EntityID c) (br_revision r) deviceID OpProgress
                   (c_Payload c) StatusDone)) (\<lambda>_.
             commit_script (no_outcome\<lparr>oc_Accepted := True\<rparr>)))))"

definition new_script :: "pg_env \<Rightarrow> change \<Rightarrow> string \<Rightarrow> change_outcome script" where
  "new_script env c deviceID =
     (if c_Op c = OpDelete then commit_script (no_outcome\<lparr>oc_Accepted := True\<rparr>)
      else if c_BaseRevision c \<noteq> 0 then commit_script (no_outcome\<lparr>oc_Reason := ReasonConflict\<rparr>)
      else Send (InsertBook (c_EntityID c)
                   (map_option (\<lambda>row. row 1 0) (payload_columns env (parseBookPayload (c_Payload c))))) (\<lambda>_.
             done_script env c EntityBook deviceID 1))"

definition next_script :: "pg_env \<Rightarrow> change \<Rightarrow> string \<Rightarrow> book_row \<Rightarrow> change_outcome script" where
  "next_script env c deviceID old =
     (if c_BaseRevision c \<noteq> br_revision old then conflict_script env c deviceID (br_revision old)
      else let newRev = br_revision old + 1 in
        Send (UpdateBook (c_EntityID c)
                (if c_Op c = OpDelete then Some (\<lambda>r. r\<lparr>br_revision := newRev, br_deleted := True\<rparr>)
                 else map_option (\<lambda>row r. row newRev (br_progress_revision r))
                        (payload_columns env (parseBookPayload (c_Payload c))))) (\<lambda>_.
          done_script env c EntityBook deviceID newRev))"

definition locked_script :: "pg_env \<Rightarrow> change \<Rightarrow> string \<Rightarrow> book_row option \<Rightarrow> change_outcome script" where
  "locked_script env c deviceID row =
     (if c_Op c = OpProgress then progress_script env c deviceID row
      else case row of None \<Rightarrow> new_script env c deviceID | Some r \<Rightarrow> next_script env c deviceID r)"

definition book_script :: "pg_env \<Rightarrow> change \<Rightarrow> string \<Rightarrow> change_outcome script" where
  "book_script env c deviceID =
     Send (SelectChange (c_ChangeID c)) (\<lambda>seen.
       if flag seen then commit_script duplicate
       else Send (SelectForUpdate (BookKey (c_EntityID c))) (\<lambda>row. locked_script env c deviceID (book_found row)))"

text \<open>\<open>cid\<close> is what \<open>serverChangeID\<close> returned.\<close>

definition force_script :: "pg_env \<Rightarrow> string \<Rightarrow> raw \<Rightarrow> string \<Rightarrow> string \<Rightarrow> change_outcome script" where
  "force_script env entityID payload deviceID cid =
     Send (UpsertBook entityID (payload_columns env (parseBookPayload payload))) (\<lambda>n.
     Send (InsertEvent (event_at env cid EntityBook entityID (number n) deviceID OpUpsert payload StatusDone)) (\<lambda>a.
       commit_script (accepted (number n) (number a))))"

text \<open>\<open>RestoreLibrary\<close>; \<open>cids n\<close> is the answer of the call number \<open>n\<close> of \<open>serverChangeID\<close>.\<close>

fun items_script :: "pg_env \<Rightarrow> string \<Rightarrow> (nat \<Rightarrow> string) \<Rightarrow> nat \<Rightarrow> book_snapshot_item list \<Rightarrow> int \<Rightarrow>
    (nat \<Rightarrow> int \<Rightarrow> 'a script) \<Rightarrow> 'a script" where
  "items_script env deviceID cids n [] maxRev k = k n maxRev"
| "items_script env deviceID cids n (item # items) maxRev k =
     Send (UpsertBook (it_UUID item) (book_columns env (it_Name item) (it_CurrentPage item) (it_CoverHash item)
             (normalizePayload (it_Files item)))) (\<lambda>r.
     Send (InsertEvent (event_at env (cids n) EntityBook (it_UUID item) (number r) deviceID OpUpsert
             (snapshotItemPayload item) StatusDone)) (\<lambda>_.
       items_script env deviceID cids (Suc n) items (if number r > maxRev then number r else maxRev) k))"

fun deletes_script :: "pg_env \<Rightarrow> string \<Rightarrow> (nat \<Rightarrow> string) \<Rightarrow> nat \<Rightarrow> string list \<Rightarrow> int \<Rightarrow>
    (int \<Rightarrow> 'a script) \<Rightarrow> 'a script" where
  "deletes_script env deviceID cids n [] maxRev k = k maxRev"
| "deletes_script env deviceID cids n (u # us) maxRev k =
     Send (TombstoneBook u) (\<lambda>r.
     Send (InsertEvent (event_at env (cids n) EntityBook u (number r) deviceID OpDelete None StatusDone)) (\<lambda>_.
       deletes_script env deviceID cids (Suc n) us (if number r > maxRev then number r else maxRev) k))"

definition restore_script :: "pg_env \<Rightarrow> raw \<Rightarrow> string \<Rightarrow> (nat \<Rightarrow> string) \<Rightarrow> restore_result script" where
  "restore_script env snapshot deviceID cids =
     (case json_Unmarshal dec_items None snapshot of (items, ok) \<Rightarrow>
        if \<not> ok then Finish (Inl (ErrWrap ''parse snapshot'' ErrJSON))
        else let its = slice_list items in
          Send SelectLive (\<lambda>current.
          items_script env deviceID cids 0 its 0 (\<lambda>n maxRev.
          deletes_script env deviceID cids n
              (pe_iter env (filter (\<lambda>u. u \<notin> set (map it_UUID its)) (names current))) maxRev (\<lambda>maxRev'.
            commit_script \<lparr>rr_Restored = int (length its), rr_Revision = maxRev'\<rparr>))))"

subsection \<open>\<open>entity_store.go\<close>\<close>

definition entity_new_script :: "pg_env \<Rightarrow> change \<Rightarrow> string \<Rightarrow> change_outcome script" where
  "entity_new_script env c deviceID =
     (if c_Op c = OpDelete then commit_script (no_outcome\<lparr>oc_Accepted := True\<rparr>)
      else if c_BaseRevision c \<noteq> 0 then commit_script (no_outcome\<lparr>oc_Reason := ReasonConflict\<rparr>)
      else Send (InsertEntity (c_EntityType c) (c_EntityID c)
                   \<lparr>er_revision = 1, er_deleted = False, er_payload = jsonb env (normalizePayload (c_Payload c))\<rparr>) (\<lambda>_.
             done_script env c (c_EntityType c) deviceID 1))"

definition entity_next_script :: "pg_env \<Rightarrow> change \<Rightarrow> string \<Rightarrow> entity_row \<Rightarrow> change_outcome script" where
  "entity_next_script env c deviceID row =
     (if c_BaseRevision c \<noteq> er_revision row then conflict_script env c deviceID (er_revision row)
      else let newRev = er_revision row + 1 in
        Send (UpdateEntity (c_EntityType c) (c_EntityID c)
                (if c_Op c = OpDelete then (\<lambda>r. r\<lparr>er_revision := newRev, er_deleted := True\<rparr>)
                 else (\<lambda>r. r\<lparr>er_revision := newRev, er_deleted := False,
                              er_payload := jsonb env (normalizePayload (c_Payload c))\<rparr>))) (\<lambda>_.
          done_script env c (c_EntityType c) deviceID newRev))"

text \<open>A replay leaves the transaction to the deferred \<open>Rollback\<close>.\<close>

definition entity_script :: "pg_env \<Rightarrow> change \<Rightarrow> string \<Rightarrow> change_outcome script" where
  "entity_script env c deviceID =
     Send (SelectChange (c_ChangeID c)) (\<lambda>seen.
       if flag seen then Finish (Inr (Leave duplicate))
       else Send (SelectForUpdate (EntityKey (c_EntityType c) (c_EntityID c))) (\<lambda>row.
         case entity_found row of
           None \<Rightarrow> entity_new_script env c deviceID | Some r \<Rightarrow> entity_next_script env c deviceID r))"

definition force_entity_script ::
  "pg_env \<Rightarrow> string \<Rightarrow> string \<Rightarrow> raw \<Rightarrow> string \<Rightarrow> string \<Rightarrow> change_outcome script" where
  "force_entity_script env entityType entityID payload deviceID cid =
     Send (UpsertEntity entityType entityID (jsonb env (normalizePayload payload))) (\<lambda>n.
     Send (InsertEvent (event_at env cid entityType entityID (number n) deviceID OpUpsert payload StatusDone)) (\<lambda>a.
       commit_script (accepted (number n) (number a))))"

section \<open>Statements\<close>

text \<open>What a transaction has written and not yet committed.\<close>

datatype row_write =
    PutBook string book_row
  | PutEntity string string entity_row
  | AddEvent event_row
  | AddConflict conflict_row

fun apply_write :: "row_write \<Rightarrow> pg \<Rightarrow> pg" where
  "apply_write (PutBook u r) s = put_book_row u r s"
| "apply_write (PutEntity t i r) s = put_entity_row t i r s"
| "apply_write (AddEvent e) s = s\<lparr>db_sync_events := db_sync_events s @ [e]\<rparr>"
| "apply_write (AddConflict k) s = s\<lparr>db_conflicts := db_conflicts s @ [k]\<rparr>"

text \<open>A statement on what its transaction sees: the answer and the rows it writes.\<close>

fun reply :: "sql \<Rightarrow> pg \<Rightarrow> error + answer \<times> row_write list" where
  "reply (SelectChange changeID) v = Inr (Flag (\<exists>e\<in>set (db_sync_events v). vr_change_id e = changeID), [])"
| "reply (SelectForUpdate k) v = Inr (Row (row_at k v), [])"
| "reply SelectLive v = Inr (Names (live_rows v), [])"
| "reply (InsertBook u row) v =
     (case row of
        None \<Rightarrow> Inl ErrDatabase
      | Some r \<Rightarrow> if book_row_of u v \<noteq> None then Inl ErrDatabase else Inr (Done, [PutBook u r]))"
| "reply (UpdateBook u f) v =
     (case f of
        None \<Rightarrow> Inl ErrDatabase
      | Some g \<Rightarrow> Inr (Done, case book_row_of u v of None \<Rightarrow> [] | Some r \<Rightarrow> [PutBook u (g r)]))"
| "reply (UpsertBook u columns) v =
     (case columns of
        None \<Rightarrow> Inl ErrDatabase
      | Some row \<Rightarrow>
          (case book_row_of u v of
             None \<Rightarrow> Inr (Number 1, [PutBook u (row 1 0)])
           | Some old \<Rightarrow> Inr (Number (br_revision old + 1),
               [PutBook u (row (br_revision old + 1) (br_progress_revision old))])))"
| "reply (TombstoneBook u) v =
     (case book_row_of u v of
        None \<Rightarrow> Inl ErrNoRows
      | Some old \<Rightarrow> Inr (Number (br_revision old + 1),
          [PutBook u (old\<lparr>br_revision := br_revision old + 1, br_deleted := True\<rparr>)]))"
| "reply (InsertEntity t i r) v =
     (if db_entities v (t, i) \<noteq> None then Inl ErrDatabase else Inr (Done, [PutEntity t i r]))"
| "reply (UpdateEntity t i g) v =
     Inr (Done, case db_entities v (t, i) of None \<Rightarrow> [] | Some r \<Rightarrow> [PutEntity t i (g r)])"
| "reply (UpsertEntity t i p) v =
     (let newRev = (case db_entities v (t, i) of None \<Rightarrow> 1 | Some r \<Rightarrow> er_revision r + 1)
      in Inr (Number newRev, [PutEntity t i \<lparr>er_revision = newRev, er_deleted = False, er_payload = p\<rparr>]))"
| "reply (InsertEvent row) v = Inr (Number (db_event_seq v + 1), [AddEvent (row (db_event_seq v + 1))])"
| "reply (InsertConflictRow row) v =
     Inr (Number (db_conflict_seq v + 1), [AddConflict (row (db_conflict_seq v + 1))])"

text \<open>The sequence that a statement moves, and the row that it locks.\<close>

fun draw :: "sql \<Rightarrow> pg \<Rightarrow> pg" where
  "draw (InsertEvent row) s = s\<lparr>db_event_seq := db_event_seq s + 1\<rparr>"
| "draw (InsertConflictRow row) s = s\<lparr>db_conflict_seq := db_conflict_seq s + 1\<rparr>"
| "draw _ s = s"

definition if_there :: "row_key \<Rightarrow> pg \<Rightarrow> row_key option" where
  "if_there k v = (if row_at k v = BookIs None \<or> row_at k v = EntityIs None then None else Some k)"

fun locks_row :: "sql \<Rightarrow> pg \<Rightarrow> row_key option" where
  "locks_row (SelectForUpdate k) v = if_there k v"
| "locks_row (UpdateBook u f) v = if_there (BookKey u) v"
| "locks_row (TombstoneBook u) v = if_there (BookKey u) v"
| "locks_row (UpdateEntity t i g) v = if_there (EntityKey t i) v"
| "locks_row (InsertBook u row) v = Some (BookKey u)"
| "locks_row (UpsertBook u columns) v = Some (BookKey u)"
| "locks_row (InsertEntity t i r) v = Some (EntityKey t i)"
| "locks_row (UpsertEntity t i p) v = Some (EntityKey t i)"
| "locks_row _ v = None"

section \<open>A script that runs alone\<close>

definition exec_sql :: "sql \<Rightarrow> (pg, answer) op" where
  "exec_sql q s =
     (case reply q s of
        Inl e \<Rightarrow> (Inl e, draw q s)
      | Inr (a, ws) \<Rightarrow> (Inr a, fold apply_write ws (draw q s)))"

primrec run_script :: "'a script \<Rightarrow> (pg, 'a tx_end) op" where
  "run_script (Finish r) = (\<lambda>s. (r, s))"
| "run_script (Send q k) = bindE (exec_sql q) (\<lambda>a. run_script (k a))"

section \<open>Transactions in progress\<close>

datatype tx_request =
    ApplyBook change string
  | ApplyEntity change string
  | ForceBook string raw string string
  | ForceEntity string string raw string string
  | RestoreBooks raw string "nat \<Rightarrow> string"

datatype tx_result = Outcome change_outcome | Restored restore_result

fun request_script :: "pg_env \<Rightarrow> tx_request \<Rightarrow> tx_result script" where
  "request_script env (ApplyBook c deviceID) = map_script Outcome (book_script env c deviceID)"
| "request_script env (ApplyEntity c deviceID) = map_script Outcome (entity_script env c deviceID)"
| "request_script env (ForceBook u payload deviceID cid) = map_script Outcome (force_script env u payload deviceID cid)"
| "request_script env (ForceEntity t i payload deviceID cid) =
     map_script Outcome (force_entity_script env t i payload deviceID cid)"
| "request_script env (RestoreBooks snapshot deviceID cids) =
     map_script Restored (restore_script env snapshot deviceID cids)"

text \<open>\<open>SyncService\<close> hands each store its own kind of entity only.\<close>

definition request_ok :: "tx_request \<Rightarrow> bool" where
  "request_ok q = (case q of
       ApplyBook c _ \<Rightarrow> c_EntityType c = EntityBook
     | ApplyEntity c _ \<Rightarrow> c_EntityType c \<noteq> EntityBook
     | ForceEntity t _ _ _ _ \<Rightarrow> t \<noteq> EntityBook
     | _ \<Rightarrow> True)"

record txn =
  tn_request :: tx_request
  tn_script :: "tx_result script"
  tn_writes :: "row_write list"
  tn_locks :: "row_key list"
  tn_result :: "(error + tx_result) option"

record overlap =
  ov_db :: pg
  ov_txns :: "txn list"

definition new_txn :: "pg_env \<Rightarrow> tx_request \<Rightarrow> txn" where
  "new_txn env req = \<lparr>tn_request = req, tn_script = request_script env req, tn_writes = [], tn_locks = [], tn_result = None\<rparr>"

definition close_txn :: "error + tx_result \<Rightarrow> txn \<Rightarrow> txn" where
  "close_txn r t = t\<lparr>tn_writes := [], tn_locks := [], tn_result := Some r\<rparr>"

definition tx_view :: "overlap \<Rightarrow> txn \<Rightarrow> pg" where
  "tx_view s t = fold apply_write (tn_writes t) (ov_db s)"

definition held_by_other :: "nat \<Rightarrow> row_key \<Rightarrow> overlap \<Rightarrow> bool" where
  "held_by_other i k s \<longleftrightarrow> (\<exists>j<length (ov_txns s). j \<noteq> i \<and> k \<in> set (tn_locks (ov_txns s ! j)))"

definition tx_open :: "nat \<Rightarrow> overlap \<Rightarrow> bool" where
  "tx_open i s \<longleftrightarrow> i < length (ov_txns s) \<and> tn_result (ov_txns s ! i) = None"

definition set_txn :: "nat \<Rightarrow> txn \<Rightarrow> overlap \<Rightarrow> overlap" where
  "set_txn i t s = s\<lparr>ov_txns := (ov_txns s)[i := t]\<rparr>"

definition add_lock :: "row_key option \<Rightarrow> row_key list \<Rightarrow> row_key list" where
  "add_lock l ls = (case l of None \<Rightarrow> ls | Some k \<Rightarrow> List.insert k ls)"

text \<open>One statement of transaction \<open>i\<close>; \<open>None\<close> while it has to wait.\<close>

definition tx_send :: "nat \<Rightarrow> overlap \<Rightarrow> overlap option" where
  "tx_send i s =
     (if \<not> tx_open i s then None
      else let t = ov_txns s ! i in
        case tn_script t of
          Finish r \<Rightarrow> None
        | Send q k \<Rightarrow>
            (let v = tx_view s t; l = locks_row q v in
             if (case l of None \<Rightarrow> False | Some x \<Rightarrow> held_by_other i x s) then None
             else case reply q v of
                 Inl e \<Rightarrow> Some (set_txn i (close_txn (Inl e) t) (s\<lparr>ov_db := draw q (ov_db s)\<rparr>))
               | Inr (a, ws) \<Rightarrow> Some (set_txn i
                   (t\<lparr>tn_script := k a, tn_writes := tn_writes t @ ws, tn_locks := add_lock l (tn_locks t)\<rparr>)
                   (s\<lparr>ov_db := draw q (ov_db s)\<rparr>))))"

text \<open>Its end, when all statements are sent.\<close>

definition tx_finish :: "nat \<Rightarrow> overlap \<Rightarrow> overlap option" where
  "tx_finish i s =
     (if \<not> tx_open i s then None
      else let t = ov_txns s ! i in
        case tn_script t of
          Send q k \<Rightarrow> None
        | Finish (Inl e) \<Rightarrow> Some (set_txn i (close_txn (Inl e) t) s)
        | Finish (Inr (Commit a)) \<Rightarrow> Some (set_txn i (close_txn (Inr a) t) (s\<lparr>ov_db := tx_view s t\<rparr>))
        | Finish (Inr (Leave a)) \<Rightarrow> Some (set_txn i (close_txn (Inr a) t) s))"

definition tx_abort :: "nat \<Rightarrow> overlap \<Rightarrow> overlap" where
  "tx_abort i s = (if tx_open i s then set_txn i (close_txn (Inl ErrDatabase) (ov_txns s ! i)) s else s)"

text \<open>What comes next in transaction \<open>i\<close>, if it does not have to wait.\<close>

definition tx_next :: "nat \<Rightarrow> overlap \<Rightarrow> overlap" where
  "tx_next i s =
     (case tx_send i s of Some t \<Rightarrow> t | None \<Rightarrow> (case tx_finish i s of Some t \<Rightarrow> t | None \<Rightarrow> s))"

definition tx_begin :: "pg_env \<Rightarrow> tx_request \<Rightarrow> overlap \<Rightarrow> overlap" where
  "tx_begin env req s = s\<lparr>ov_txns := ov_txns s @ [new_txn env req]\<rparr>"

text \<open>
  The steps: a request begins, a transaction sends a statement or ends, it fails for reasons of its own
  (a failed statement, a lost connection, PostgreSQL's deadlock detection), or another operation of the
  stores, which is a single statement, runs.
\<close>

inductive ov_step :: "overlap \<Rightarrow> overlap \<Rightarrow> bool" where
  ov_begin: "jsonb_ok env \<Longrightarrow> request_ok req \<Longrightarrow> ov_step s (tx_begin env req s)"
| ov_send: "tx_send i s = Some t \<Longrightarrow> ov_step s t"
| ov_finish: "tx_finish i s = Some t \<Longrightarrow> ov_step s t"
| ov_abort: "ov_step s (tx_abort i s)"
| ov_cursor: "ov_step s (s\<lparr>ov_db := snd (pg_UpdateCursor dev n (ov_db s))\<rparr>)"
| ov_resolved: "ov_step s (s\<lparr>ov_db := snd (pg_MarkResolved n dev (ov_db s))\<rparr>)"
| ov_history: "ov_step s (s\<lparr>ov_db := snd (pg_InsertSnapshot env opType tag p (ov_db s))\<rparr>)"
| ov_version: "ov_step s (s\<lparr>ov_db := snd (pg_SetBookVersion v (ov_db s))\<rparr>)"

inductive ov_reach :: "overlap \<Rightarrow> bool" where
  ov_start: "ov_reach \<lparr>ov_db = empty_db [], ov_txns = []\<rparr>"
| ov_next: "ov_reach s \<Longrightarrow> ov_step s t \<Longrightarrow> ov_reach t"

inductive_cases ov_stepE: "ov_step s t"

end
