(* ===== verification/PgSteps.thy ===== *)
theory PgSteps
  imports PgInv Restore
begin

text \<open>
  What each transaction of the PostgreSQL stores does on a database without faults, in terms of the
  lock's decision and of the elementary writes, and that it keeps the invariant.
\<close>

section \<open>Elementary writes\<close>

definition pg_seen :: "pg \<Rightarrow> string set" where
  "pg_seen s = vr_change_id ` set (db_sync_events s)"

definition conflict_row_of :: "pg_env \<Rightarrow> change \<Rightarrow> int \<Rightarrow> int \<Rightarrow> pg \<Rightarrow> conflict_row" where
  "conflict_row_of env c eid r s = \<lparr>kr_id = db_conflict_seq s + 1, kr_event_id = eid,
     kr_entity_type = c_EntityType c, kr_entity_id = c_EntityID c, kr_base_revision = c_BaseRevision c,
     kr_current_revision = r, kr_status = ConflictOpen, kr_resolved_by = None,
     kr_created_at = pe_clock env (ConflictStamp (db_conflict_seq s + 1))\<rparr>"

definition change_event :: "pg_env \<Rightarrow> change \<Rightarrow> string \<Rightarrow> int \<Rightarrow> string \<Rightarrow> pg \<Rightarrow> event_row" where
  "change_event env c dev r st s =
     event_row_of env (c_ChangeID c) (c_EntityType c) (c_EntityID c) r dev (c_Op c) (c_Payload c) st s"

definition pg_with_conflict :: "pg_env \<Rightarrow> change \<Rightarrow> string \<Rightarrow> int \<Rightarrow> pg \<Rightarrow> pg" where
  "pg_with_conflict env c dev r s =
     (add_event (change_event env c dev r StatusConflict s) s)
       \<lparr>db_conflict_seq := db_conflict_seq s + 1,
        db_conflicts := db_conflicts s @ [conflict_row_of env c (db_event_seq s + 1) r s]\<rparr>"

lemma insertConflict_run:
  "db_faults s = [] \<Longrightarrow> insertConflict env c dev r s =
     (Inr (db_conflict_seq s + 1), pg_with_conflict env c dev r s)"
  by (simp add: insertConflict_def insertEvent_run pg_with_conflict_def change_event_def conflict_row_of_def Let_def)

lemma pg_with_conflict_fields [simp]:
  "db_sync_events (pg_with_conflict env c dev r s) =
     db_sync_events s @ [change_event env c dev r StatusConflict s]"
  "db_event_seq (pg_with_conflict env c dev r s) = db_event_seq s + 1"
  "db_current_book (pg_with_conflict env c dev r s) = db_current_book s"
  "db_entities (pg_with_conflict env c dev r s) = db_entities s"
  "db_conflicts (pg_with_conflict env c dev r s) =
     db_conflicts s @ [conflict_row_of env c (db_event_seq s + 1) r s]"
  "db_conflict_seq (pg_with_conflict env c dev r s) = db_conflict_seq s + 1"
  "db_book_history (pg_with_conflict env c dev r s) = db_book_history s"
  "db_history_seq (pg_with_conflict env c dev r s) = db_history_seq s"
  "book_row_of u (pg_with_conflict env c dev r s) = book_row_of u s"
  "db_faults (pg_with_conflict env c dev r s) = db_faults s"
  by (simp_all add: pg_with_conflict_def book_row_of_def)

lemma change_event_fields [simp]:
  "vr_id (change_event env c dev r st s) = db_event_seq s + 1"
  "vr_change_id (change_event env c dev r st s) = c_ChangeID c"
  "vr_entity_type (change_event env c dev r st s) = c_EntityType c"
  "vr_entity_id (change_event env c dev r st s) = c_EntityID c"
  "vr_revision (change_event env c dev r st s) = r"
  "vr_op (change_event env c dev r st s) = c_Op c"
  "vr_payload (change_event env c dev r st s) = jsonb env (c_Payload c)"
  "vr_status (change_event env c dev r st s) = st"
  by (simp_all add: change_event_def)

lemma conflict_row_of_fields [simp]:
  "kr_id (conflict_row_of env c eid r s) = db_conflict_seq s + 1"
  "kr_event_id (conflict_row_of env c eid r s) = eid"
  "kr_status (conflict_row_of env c eid r s) = ConflictOpen"
  by (simp_all add: conflict_row_of_def)

lemma event_row_of_put [simp]:
  "event_row_of env cid t i r dev opn p st (put_book_row u x s) = event_row_of env cid t i r dev opn p st s"
  "event_row_of env cid t i r dev opn p st (put_entity_row a b y s) = event_row_of env cid t i r dev opn p st s"
  "event_row_of env cid t i r dev opn p st (s\<lparr>db_random := rs\<rparr>) = event_row_of env cid t i r dev opn p st s"
  by (simp_all add: event_row_of_def)

lemma pg_with_conflict_inv:
  assumes inv: "pg_inv s"
  shows "pg_inv (pg_with_conflict env c dev r s)"
proof -
  let ?t = "pg_with_conflict env c dev r s"
  have nd: "\<not> pg_deliverable (change_event env c dev r StatusConflict s)" by (simp add: pg_deliverable_def)
  have "pg_ids_ok ?t"
    using inv increasing_snoc [of "map vr_id (db_sync_events s)" "db_event_seq s"]
      increasing_snoc [of "map kr_id (db_conflicts s)" "db_conflict_seq s"]
    by (auto simp: pg_inv_def pg_ids_ok_def)
  moreover have "pg_status_ok ?t" using inv by (auto simp: pg_inv_def pg_status_ok_def)
  moreover have "pg_rows_ok ?t" using inv by (auto simp: pg_inv_def pg_rows_ok_def)
  moreover have "pg_log_ok ?t"
  proof -
    have "pg_log ?t = pg_log s" using nd by (simp add: pg_log_def)
    moreover have "pg_library ?t = pg_library s" "pg_entities ?t = pg_entities s"
      by (simp_all add: pg_library_def pg_entities_def fun_eq_iff)
    moreover have "pg_book_rev u ?t = pg_book_rev u s" "pg_entity_rev k ?t = pg_entity_rev k s" for u k
      by (simp_all add: pg_book_rev_def pg_entity_rev_def)
    ultimately show ?thesis
      using inv by (simp add: pg_inv_def pg_log_ok_def writes_book_def writes_entity_def)
  qed
  ultimately show ?thesis by (simp add: pg_inv_def)
qed

section \<open>The transactions against the lock's decision\<close>

definition pg_book_verdict :: "pg \<Rightarrow> change \<Rightarrow> verdict" where
  "pg_book_verdict s c = lock_verdict (c_ChangeID c \<in> pg_seen s)
     (map_option br_revision (book_row_of (c_EntityID c) s)) (c_Op c) (c_BaseRevision c)"

definition pg_entity_verdict :: "pg \<Rightarrow> change \<Rightarrow> verdict" where
  "pg_entity_verdict s c = lock_verdict (c_ChangeID c \<in> pg_seen s)
     (map_option er_revision (db_entities s (c_EntityType c, c_EntityID c))) (c_Op c) (c_BaseRevision c)"

text \<open>The row that a write leaves; \<open>None\<close> when the database refuses its values.\<close>

definition written_book_row :: "pg_env \<Rightarrow> change \<Rightarrow> book_row option \<Rightarrow> int \<Rightarrow> book_row option" where
  "written_book_row env c old r =
     (if c_Op c = OpDelete then map_option (\<lambda>o1. o1\<lparr>br_revision := r, br_deleted := True\<rparr>) old
      else map_option (\<lambda>f. f r (case old of None \<Rightarrow> 0 | Some o1 \<Rightarrow> br_progress_revision o1))
             (payload_columns env (parseBookPayload (c_Payload c))))"

definition written_entity_row :: "pg_env \<Rightarrow> change \<Rightarrow> entity_row option \<Rightarrow> int \<Rightarrow> entity_row" where
  "written_entity_row env c old r =
     \<lparr>er_revision = r, er_deleted = (c_Op c = OpDelete),
      er_payload = (if c_Op c = OpDelete then (case old of None \<Rightarrow> None | Some e \<Rightarrow> er_payload e)
                    else jsonb env (normalizePayload (c_Payload c)))\<rparr>"

lemma pg_outcomes [simp]:
  "duplicate = duplicate_outcome" "no_outcome\<lparr>oc_Accepted := True\<rparr> = accepted_outcome"
  "no_outcome\<lparr>oc_Reason := ReasonConflict\<rparr> = reject_outcome"
  by (simp_all add: duplicate_def duplicate_outcome_def accepted_outcome_def reject_outcome_def)

lemma insertEvent_change:
  "db_faults s = [] \<Longrightarrow> t = c_EntityType c \<Longrightarrow> opn = c_Op c \<Longrightarrow>
     insertEvent env (c_ChangeID c) t (c_EntityID c) r dev opn (c_Payload c) st s =
     (Inr (db_event_seq s + 1), add_event (change_event env c dev r st s) s)"
  by (simp add: insertEvent_run change_event_def)

lemma change_event_put [simp]:
  "change_event env c dev r st (put_book_row u x s) = change_event env c dev r st s"
  "change_event env c dev r st (put_entity_row a b y s) = change_event env c dev r st s"
  by (simp_all add: change_event_def)

lemma change_exists_run: "db_faults s = [] \<Longrightarrow> change_exists i s = (Inr (i \<in> pg_seen s), s)"
  by (auto simp: change_exists_def pg_seen_def)

lemma row_updates:
  "e\<lparr>er_revision := r, er_deleted := d\<rparr> = \<lparr>er_revision = r, er_deleted = d, er_payload = er_payload e\<rparr>"
  "e\<lparr>er_revision := r, er_deleted := d, er_payload := p\<rparr> = \<lparr>er_revision = r, er_deleted = d, er_payload = p\<rparr>"
  by (cases e; simp)+

lemma pg_entity_tx_run:
  assumes "db_faults s = []"
  shows "pg_entity_tx env c dev s =
    (let old = db_entities s (c_EntityType c, c_EntityID c) in
     case pg_entity_verdict s c of
       VDuplicate \<Rightarrow> (Inr (Leave duplicate_outcome), s)
     | VNothing \<Rightarrow> (Inr (Commit accepted_outcome), s)
     | VReject \<Rightarrow> (Inr (Commit reject_outcome), s)
     | VConflict r \<Rightarrow> (Inr (Commit (refused (db_conflict_seq s + 1))), pg_with_conflict env c dev r s)
     | VWrite r \<Rightarrow> (Inr (Commit (accepted r (db_event_seq s + 1))),
         add_event (change_event env c dev r StatusDone s)
           (put_entity_row (c_EntityType c) (c_EntityID c) (written_entity_row env c old r) s)))"
proof (cases "db_entities s (c_EntityType c, c_EntityID c)")
  case None
  with assms show ?thesis
    by (simp add: pg_entity_tx_def pg_entity_verdict_def lock_verdict_def pg_entity_new_def change_exists_run
        bindE_Inr commitOutcome_def insertEvent_change written_entity_row_def Let_def)
next
  case (Some row)
  with assms show ?thesis
    by (simp add: pg_entity_tx_def pg_entity_verdict_def lock_verdict_def pg_entity_next_def change_exists_run
        bindE_Inr commitOutcome_def insertConflict_run insertEvent_change written_entity_row_def row_updates Let_def)
qed

lemma pg_book_tx_run:
  assumes "db_faults s = []" "c_Op c \<noteq> OpProgress" "c_EntityType c = EntityBook"
  shows "pg_book_tx env c dev s =
    (let old = book_row_of (c_EntityID c) s in
     case pg_book_verdict s c of
       VDuplicate \<Rightarrow> (Inr (Commit duplicate_outcome), s)
     | VNothing \<Rightarrow> (Inr (Commit accepted_outcome), s)
     | VReject \<Rightarrow> (Inr (Commit reject_outcome), s)
     | VConflict r \<Rightarrow> (Inr (Commit (refused (db_conflict_seq s + 1))), pg_with_conflict env c dev r s)
     | VWrite r \<Rightarrow>
         (case written_book_row env c old r of
            None \<Rightarrow> (Inl ErrDatabase, s)
          | Some row \<Rightarrow> (Inr (Commit (accepted r (db_event_seq s + 1))),
              add_event (change_event env c dev r StatusDone s) (put_book_row (c_EntityID c) row s))))"
proof (cases "book_row_of (c_EntityID c) s")
  case None
  with assms show ?thesis
    by (simp add: insertEvent_change pg_book_tx_def pg_book_verdict_def lock_verdict_def pg_book_new_def change_exists_run
        bindE_Inr commitOutcome_def written_book_row_def Let_def split: option.split)
next
  case (Some row)
  with assms show ?thesis
    by (simp add: insertEvent_change pg_book_tx_def pg_book_verdict_def lock_verdict_def pg_book_next_def change_exists_run
        bindE_Inr commitOutcome_def insertConflict_run written_book_row_def Let_def split: option.split)
qed

text \<open>A progress change: no lock, no new revision.\<close>

definition progressed :: "change \<Rightarrow> book_row \<Rightarrow> book_row" where
  "progressed c r = r\<lparr>br_current_page := bp_CurrentPage (parseBookPayload (c_Payload c)),
     br_progress_revision := br_progress_revision r + 1\<rparr>"

lemma pg_progress_tx_run:
  assumes "db_faults s = []" "c_Op c = OpProgress" "c_EntityType c = EntityBook"
  shows "pg_book_tx env c dev s =
    (if c_ChangeID c \<in> pg_seen s then (Inr (Commit duplicate_outcome), s)
     else case book_row_of (c_EntityID c) s of
       None \<Rightarrow> (Inr (Commit accepted_outcome), s)
     | Some r \<Rightarrow>
         if \<not> in_int32 (bp_CurrentPage (parseBookPayload (c_Payload c))) then (Inl ErrDatabase, s)
         else (Inr (Commit accepted_outcome),
           add_event (change_event env c dev (br_revision r) StatusDone s)
             (put_book_row (c_EntityID c) (progressed c r) s)))"
  using assms
  by (simp add: insertEvent_change pg_book_tx_def pg_book_progress_def change_exists_run bindE_Inr commitOutcome_def
      progressed_def Let_def split: option.split)

end
