(* ===== verification/PgWrites.thy ===== *)
theory PgWrites
  imports PgSteps
begin

text \<open>
  What the written rows say: a book row has the content of the event logged with it.  The writes that the
  server makes of its own accord: forced upserts and restores.
\<close>

section \<open>Contents\<close>

lemma parse_item_payload:
  assumes "it_Files i = Some f" "f \<noteq> JNull" "in_int64 (it_CurrentPage i)"
  shows "parseBookPayload (snapshotItemPayload i) = \<lparr>bp_Name = it_Name i, bp_CurrentPage = it_CurrentPage i,
    bp_CoverHash = it_CoverHash i, bp_Files = fst (dec_files None f)\<rparr>"
  using assms
  by (auto simp: snapshotItemPayload_def enc_raw_def parseBookPayload_def json_Unmarshal_def dec_payload_def
      zero_payload_def dec_files_def dec_field_def nilOrString_def dec_string_def case_prod_beta)

lemma null_if_empty_inv [simp]: "(case null_if_empty h of None \<Rightarrow> [] | Some g \<Rightarrow> g) = h"
  by (simp add: null_if_empty_def)

lemma int32_int64: "in_int32 i \<Longrightarrow> in_int64 i"
  by (simp add: in_int32_def in_int64_def)

lemma book_columns_eq:
  "book_columns env name pg cover files = Some g \<longleftrightarrow>
     (\<exists>f. files = Some f \<and> in_int32 pg \<and>
       g = (\<lambda>revision progress. \<lparr>br_name = name, br_current_page = pg, br_cover_hash = null_if_empty cover,
              br_files = pe_jsonb env f, br_revision = revision, br_progress_revision = progress,
              br_deleted = False\<rparr>))"
  by (auto simp: book_columns_def split: option.splits if_splits)

lemma columns_shape:
  "book_columns env n p h fs = Some g \<Longrightarrow> br_revision (g r q) = r \<and> \<not> br_deleted (g r q)"
  "payload_columns env w = Some g \<Longrightarrow> br_revision (g r q) = r \<and> \<not> br_deleted (g r q)"
  by (auto simp: book_columns_eq payload_columns_def)

lemma payload_columns_content:
  assumes "jsonb_ok env" "payload_columns env (parseBookPayload p) = Some g"
  shows "row_content (g r q) = book_content (jsonb env p)"
proof -
  let ?p = "parseBookPayload p"
  from assms(2) obtain fs where fs: "bp_Files ?p = Some fs" and g:
    "g = (\<lambda>revision progress. \<lparr>br_name = bp_Name ?p, br_current_page = bp_CurrentPage ?p,
      br_cover_hash = null_if_empty (bp_CoverHash ?p), br_files = pe_jsonb env (enc_files (Some fs)),
      br_revision = revision, br_progress_revision = progress, br_deleted = False\<rparr>)"
    by (auto simp: payload_columns_def book_columns_eq filesJSON_def split: if_splits)
  have "list_all file_ok (slice_list (Some fs))" using parse_ok [of p] fs by (simp add: payload_ok_def)
  then have "fst (dec_files None (enc_files (Some fs))) = Some fs" using dec_files_enc by fastforce
  with assms(1) fs show ?thesis
    by (simp add: row_content_def g jsonb_ok_def book_content_def Let_def)
qed

lemma item_columns_content:
  assumes "jsonb_ok env"
    and "book_columns env (it_Name i) (it_CurrentPage i) (it_CoverHash i) (normalizePayload (it_Files i)) = Some g"
  shows "row_content (g r q) = book_content (jsonb env (snapshotItemPayload i))"
proof -
  from assms(2) obtain f where f: "it_Files i = Some f" "f \<noteq> JNull" "in_int32 (it_CurrentPage i)" and g:
    "g = (\<lambda>revision progress. \<lparr>br_name = it_Name i, br_current_page = it_CurrentPage i,
      br_cover_hash = null_if_empty (it_CoverHash i), br_files = pe_jsonb env f,
      br_revision = revision, br_progress_revision = progress, br_deleted = False\<rparr>)"
    by (auto simp: book_columns_eq normalizePayload_def split: if_splits)
  with assms(1) parse_item_payload [OF f(1,2) int32_int64 [OF f(3)]] show ?thesis
    by (simp add: row_content_def g jsonb_ok_def book_content_def Let_def)
qed

lemma normalize_jsonb: "jsonb_ok env \<Longrightarrow> jsonb env (normalizePayload p) = normalizePayload (jsonb env p)"
  by (auto simp: jsonb_ok_def jsonb_def normalizePayload_def)

section \<open>Writes by the server\<close>

lemma serverChangeID_run:
  "\<exists>cid rs. serverChangeID env s = (Inr cid, s\<lparr>db_random := rs\<rparr>)"
proof (cases "db_random s")
  case Nil
  then have "s\<lparr>db_random := []\<rparr> = s" by (cases s) simp
  with Nil have "serverChangeID env s =
      (Inr (''server-'' @ itoa (pe_clock env (EventStamp (db_event_seq s)))), s\<lparr>db_random := []\<rparr>)"
    by (simp add: serverChangeID_def rand_read_def bindE_def)
  then show ?thesis by blast
next
  case (Cons b rs)
  then show ?thesis
    by (cases b) (auto simp: serverChangeID_def rand_read_def bindE_def)
qed

definition next_rev :: "string \<Rightarrow> pg \<Rightarrow> int" where
  "next_rev u s = pg_book_rev u s + 1"

definition upserted ::
  "pg_env \<Rightarrow> string \<Rightarrow> string \<Rightarrow> (int \<Rightarrow> int \<Rightarrow> book_row) \<Rightarrow> string \<Rightarrow> raw \<Rightarrow> pg \<Rightarrow> pg" where
  "upserted env cid u f dev p s =
     add_event (event_row_of env cid EntityBook u (next_rev u s) dev OpUpsert p StatusDone s)
       (put_book_row u (f (next_rev u s) (case book_row_of u s of None \<Rightarrow> 0 | Some r \<Rightarrow> br_progress_revision r)) s)"

lemma random_fields [simp]:
  "book_row_of u (s\<lparr>db_random := rs\<rparr>) = book_row_of u s" "pg_book_rev u (s\<lparr>db_random := rs\<rparr>) = pg_book_rev u s"
  "put_book_row u r (s\<lparr>db_random := rs\<rparr>) = (put_book_row u r s)\<lparr>db_random := rs\<rparr>"
  "put_entity_row t i e (s\<lparr>db_random := rs\<rparr>) = (put_entity_row t i e s)\<lparr>db_random := rs\<rparr>"
  by (simp_all add: book_row_of_def pg_book_rev_def put_book_row_def put_entity_row_def)

lemma upsert_event_run:
  assumes "db_faults s = []"
  obtains "cols = None"
      "bindE (upsert_book u cols) (\<lambda>r. bindE (serverChangeID env) (\<lambda>cid.
         bindE (insertEvent env cid EntityBook u r dev OpUpsert p StatusDone) (k r))) s = (Inl ErrDatabase, s)"
  | f cid rs where "cols = Some f"
      "bindE (upsert_book u cols) (\<lambda>r. bindE (serverChangeID env) (\<lambda>cid.
         bindE (insertEvent env cid EntityBook u r dev OpUpsert p StatusDone) (k r))) s =
       k (next_rev u s) (db_event_seq s + 1) (upserted env cid u f dev p (s\<lparr>db_random := rs\<rparr>))"
proof (cases cols)
  case None
  with assms that(1) show ?thesis by (simp add: upsert_book_def bindE_Inl)
next
  case (Some f)
  let ?row = "f (next_rev u s) (case book_row_of u s of None \<Rightarrow> 0 | Some r \<Rightarrow> br_progress_revision r)"
  have up: "upsert_book u cols s = (Inr (next_rev u s), put_book_row u ?row s)"
    using assms Some by (simp add: upsert_book_def next_rev_def pg_book_rev_def split: option.split)
  obtain cid rs where "serverChangeID env (put_book_row u ?row s) = (Inr cid, (put_book_row u ?row s)\<lparr>db_random := rs\<rparr>)"
    using serverChangeID_run by blast
  with up assms have "bindE (upsert_book u cols) (\<lambda>r. bindE (serverChangeID env) (\<lambda>cid.
         bindE (insertEvent env cid EntityBook u r dev OpUpsert p StatusDone) (k r))) s =
       k (next_rev u s) (db_event_seq s + 1) (upserted env cid u f dev p (s\<lparr>db_random := rs\<rparr>))"
    by (simp add: bindE_Inr insertEvent_run upserted_def next_rev_def)
  with Some that(2) show ?thesis by blast
qed

lemma upserted_inv:
  assumes "pg_inv s" "\<And>r q. row_content (f r q) = book_content (jsonb env p)"
    "\<And>r q. br_revision (f r q) = r \<and> \<not> br_deleted (f r q)"
  shows "pg_inv (upserted env cid u f dev p s)"
  unfolding upserted_def using assms by (intro pg_book_write_inv) (auto simp: next_rev_def const_distinct)

end
