(* ===== verification/OverlapInv.thy ===== *)
theory OverlapInv
  imports Overlap PgWrites
begin

text \<open>
  What a script of \<open>Overlap\<close> keeps to: it runs alone as the transaction of \<open>PgSync\<close> does; it writes only
  rows that it has locked, and commits only what fits the rows as they were when it locked them.
\<close>

section \<open>Alone\<close>

lemma exec_sql_event:
  "db_faults s = [] \<Longrightarrow> exec_sql (InsertEvent (event_at env cid t i r dev opn p st)) s =
     (case insertEvent env cid t i r dev opn p st s of (Inr n, s') \<Rightarrow> (Inr (Number n), s') | (Inl e, s') \<Rightarrow> (Inl e, s'))"
  by (simp add: exec_sql_def insertEvent_def event_at_def Let_def)

lemma exec_sql_conflict:
  "db_faults s = [] \<Longrightarrow> exec_sql (InsertConflictRow (conflict_at env c eid r)) s =
     (Inr (Number (db_conflict_seq s + 1)), s\<lparr>db_conflict_seq := db_conflict_seq s + 1,
        db_conflicts := db_conflicts s @ [conflict_row_of env c eid r s]\<rparr>)"
  by (simp add: exec_sql_def conflict_at_def conflict_row_of_def)

lemma conflict_script_alone:
  "db_faults s = [] \<Longrightarrow> run_script (conflict_script env c dev r) s =
     bindE (insertConflict env c dev r) (\<lambda>n. commitOutcome (refused n)) s"
  by (simp add: conflict_script_def commit_script_def bindE_def exec_sql_event insertEvent_run insertConflict_run
      pg_with_conflict_def change_event_def exec_sql_conflict ret_def commitOutcome_def conflict_row_of_def)

lemma done_script_alone:
  "db_faults s = [] \<Longrightarrow> run_script (done_script env c t dev r) s =
     bindE (insertEvent env (c_ChangeID c) t (c_EntityID c) r dev (c_Op c) (c_Payload c) StatusDone)
       (\<lambda>n. commitOutcome (accepted r n)) s"
  by (simp add: done_script_def commit_script_def bindE_def exec_sql_event insertEvent_run ret_def commitOutcome_def)

lemma exec_sql_select:
  "exec_sql (SelectChange cid) s = (Inr (Flag (\<exists>e\<in>set (db_sync_events s). vr_change_id e = cid)), s)"
  "exec_sql (SelectForUpdate k) s = (Inr (Row (row_at k s)), s)"
  by (simp_all add: exec_sql_def)

lemma run_commit: "run_script (commit_script a) s = commitOutcome a s"
  by (simp add: commit_script_def commitOutcome_def ret_def)

lemma progress_script_alone:
  "db_faults s = [] \<Longrightarrow> book_row_of (c_EntityID c) s = row \<Longrightarrow>
     run_script (progress_script env c dev row) s = pg_book_progress env c dev row s"
  by (auto simp: progress_script_def pg_book_progress_def Let_def bindE_def exec_sql_def run_commit
      insertEvent_def event_at_def put_book_row_def split: option.split)

lemma new_script_alone:
  "db_faults s = [] \<Longrightarrow> book_row_of (c_EntityID c) s = None \<Longrightarrow>
     run_script (new_script env c dev) s = pg_book_new env c dev s"
  by (cases "payload_columns env (parseBookPayload (c_Payload c))")
    (simp_all add: new_script_def pg_book_new_def run_commit bindE_Inl bindE_Inr exec_sql_def done_script_alone)

lemma next_script_alone:
  "db_faults s = [] \<Longrightarrow> book_row_of (c_EntityID c) s = Some old \<Longrightarrow>
     run_script (next_script env c dev old) s = pg_book_next env c dev old s"
  by (cases "payload_columns env (parseBookPayload (c_Payload c))")
    (auto simp: next_script_def pg_book_next_def Let_def bindE_Inl bindE_Inr exec_sql_def
      done_script_alone conflict_script_alone)

lemma book_script_alone:
  assumes "db_faults s = []"
  shows "run_script (book_script env c dev) s = pg_book_tx env c dev s"
  using assms progress_script_alone [OF assms, of c "book_row_of (c_EntityID c) s" env dev]
    new_script_alone [OF assms, of c env dev] next_script_alone [OF assms, of c _ env dev]
  by (auto simp: book_script_def pg_book_tx_def locked_script_def change_exists_def bindE_Inr exec_sql_select
      run_commit split: option.split)

lemma entity_script_alone:
  assumes "db_faults s = []"
  shows "run_script (entity_script env c dev) s = pg_entity_tx env c dev s"
proof -
  let ?row = "db_entities s (c_EntityType c, c_EntityID c)"
  have new: "?row = None \<Longrightarrow> run_script (entity_new_script env c dev) s = pg_entity_new env c dev s"
    using assms by (simp add: entity_new_script_def pg_entity_new_def run_commit bindE_Inr exec_sql_def done_script_alone)
  have upd: "?row = Some r \<Longrightarrow> run_script (entity_next_script env c dev r) s = pg_entity_next env c dev r s" for r
    using assms by (auto simp: entity_next_script_def pg_entity_next_def Let_def bindE_Inr exec_sql_def
        done_script_alone conflict_script_alone)
  from assms new upd show ?thesis
    by (auto simp: entity_script_def pg_entity_tx_def change_exists_def bindE_Inr exec_sql_select ret_def
        split: option.split)
qed

lemma map_script_fold: "map_script f (commit_script a) = commit_script (f a)"
  by (simp add: commit_script_def)

definition map_end :: "('a \<Rightarrow> 'b) \<Rightarrow> error + 'a tx_end \<Rightarrow> error + 'b tx_end" where
  "map_end f = map_sum id (map_tx_end f)"

lemma run_map_script: "run_script (map_script f sc) s = (case run_script sc s of (r, t) \<Rightarrow> (map_end f r, t))"
proof (induction sc arbitrary: s)
  case (Send q k)
  then show ?case by (auto simp: bindE_def map_end_def split: prod.split sum.split)
qed (simp add: map_end_def)

section \<open>What may be committed\<close>

text \<open>\<open>rows\<close> has the rows that are locked, as they were committed; \<open>consistent\<close>: nobody has changed them.\<close>

definition consistent :: "(row_key \<rightharpoonup> table_row) \<Rightarrow> pg \<Rightarrow> bool" where
  "consistent rows v \<longleftrightarrow> (\<forall>k x. rows k = Some x \<longrightarrow> row_at k v = x)"

definition key_of :: "event_row \<Rightarrow> row_key" where
  "key_of e = (if vr_entity_type e = EntityBook then BookKey (vr_entity_id e)
               else EntityKey (vr_entity_type e) (vr_entity_id e))"

definition row_rev :: "book_row option \<Rightarrow> int" where
  "row_rev b = (case b of None \<Rightarrow> 0 | Some r \<Rightarrow> br_revision r)"

definition entity_rev :: "entity_row option \<Rightarrow> int" where
  "entity_rev b = (case b of None \<Rightarrow> 0 | Some r \<Rightarrow> er_revision r)"

definition book_write :: "string \<Rightarrow> book_row option \<Rightarrow> book_row \<Rightarrow> event_row \<Rightarrow> bool" where
  "book_write u b r e \<longleftrightarrow> vr_entity_type e = EntityBook \<and> vr_entity_id e = u \<and> vr_status e = StatusDone \<and>
     (if vr_op e = OpProgress
      then (\<exists>old. b = Some old \<and> br_revision r = br_revision old \<and> br_deleted r = br_deleted old \<and>
        row_content r = (row_content old)\<lparr>bp_CurrentPage := bp_CurrentPage (parseBookPayload (vr_payload e))\<rparr>)
      else vr_revision e = row_rev b + 1 \<and> br_revision r = row_rev b + 1 \<and> (br_deleted r \<longleftrightarrow> vr_op e = OpDelete) \<and>
        (\<not> br_deleted r \<longrightarrow> row_content r = book_content (vr_payload e)))"

definition entity_write :: "string \<Rightarrow> string \<Rightarrow> entity_row option \<Rightarrow> entity_row \<Rightarrow> event_row \<Rightarrow> bool" where
  "entity_write t i b r e \<longleftrightarrow> vr_entity_type e = t \<and> t \<noteq> EntityBook \<and> vr_entity_id e = i \<and>
     vr_status e = StatusDone \<and> vr_revision e = entity_rev b + 1 \<and> er_revision r = entity_rev b + 1 \<and>
     (er_deleted r \<longleftrightarrow> vr_op e = OpDelete) \<and>
     (\<not> er_deleted r \<longrightarrow> er_payload r = normalizePayload (vr_payload e))"

definition put_row :: "row_key \<Rightarrow> table_row \<Rightarrow> (row_key \<rightharpoonup> table_row) \<Rightarrow> (row_key \<rightharpoonup> table_row)" where
  "put_row k x rows = rows(k \<mapsto> x)"

text \<open>Every row is written with its event, every conflict recorded with one.\<close>

fun good :: "(row_key \<rightharpoonup> table_row) \<Rightarrow> row_write list \<Rightarrow> bool" where
  "good rows [] = True"
| "good rows (PutBook u r # AddEvent e # ws) =
     ((\<exists>b. rows (BookKey u) = Some (BookIs b) \<and> book_write u b r e) \<and>
      good (put_row (BookKey u) (BookIs (Some r)) rows) ws)"
| "good rows (PutEntity t i r # AddEvent e # ws) =
     ((\<exists>b. rows (EntityKey t i) = Some (EntityIs b) \<and> entity_write t i b r e) \<and>
      good (put_row (EntityKey t i) (EntityIs (Some r)) rows) ws)"
| "good rows (AddEvent e # AddConflict k # ws) =
     (vr_status e = StatusConflict \<and> kr_status k = ConflictOpen \<and> good rows ws)"
| "good rows (w # ws) = False"

fun rows_after :: "(row_key \<rightharpoonup> table_row) \<Rightarrow> row_write list \<Rightarrow> (row_key \<rightharpoonup> table_row)" where
  "rows_after rows [] = rows"
| "rows_after rows (PutBook u r # ws) = rows_after (put_row (BookKey u) (BookIs (Some r)) rows) ws"
| "rows_after rows (PutEntity t i r # ws) = rows_after (put_row (EntityKey t i) (EntityIs (Some r)) rows) ws"
| "rows_after rows (w # ws) = rows_after rows ws"

text \<open>The rows that a list of writes touches.\<close>

fun write_key :: "row_write \<Rightarrow> row_key option" where
  "write_key (PutBook u r) = Some (BookKey u)"
| "write_key (PutEntity t i r) = Some (EntityKey t i)"
| "write_key _ = None"

definition writes_in :: "row_key set \<Rightarrow> row_write list \<Rightarrow> bool" where
  "writes_in K ws \<longleftrightarrow> (\<forall>w\<in>set ws. \<forall>k. write_key w = Some k \<longrightarrow> k \<in> K)"

lemma writes_in_simps [simp]:
  "writes_in K []" "writes_in K (ws @ ws') \<longleftrightarrow> writes_in K ws \<and> writes_in K ws'"
  "writes_in K (w # ws) \<longleftrightarrow> (\<forall>k. write_key w = Some k \<longrightarrow> k \<in> K) \<and> writes_in K ws"
  by (auto simp: writes_in_def)

lemma good_append: "good rows ws \<Longrightarrow> good rows (ws @ ws') = good (rows_after rows ws) ws'"
  by (induction rows ws rule: good.induct) simp_all

lemma rows_after_append [simp]: "rows_after rows (ws @ ws') = rows_after (rows_after rows ws) ws'"
proof (induction ws arbitrary: rows)
  case (Cons w ws)
  then show ?case by (cases w) simp_all
qed simp

lemma put_row_mono: "rows \<subseteq>\<^sub>m rows' \<Longrightarrow> put_row k x rows \<subseteq>\<^sub>m put_row k x rows'"
  by (auto simp: put_row_def map_le_def)

lemma good_mono: "good rows ws \<Longrightarrow> rows \<subseteq>\<^sub>m rows' \<Longrightarrow> good rows' ws"
proof (induction rows ws arbitrary: rows' rule: good.induct)
  case (2 rows u r e ws)
  with put_row_mono show ?case by (fastforce simp: map_le_def dom_def)
next
  case (3 rows t i r e ws)
  with put_row_mono show ?case by (fastforce simp: map_le_def dom_def)
qed simp_all

lemma row_at_write: "row_at k (apply_write w v) = (case w of
     PutBook u r \<Rightarrow> if k = BookKey u then BookIs (Some r) else row_at k v
   | PutEntity t i r \<Rightarrow> if k = EntityKey t i then EntityIs (Some r) else row_at k v
   | _ \<Rightarrow> row_at k v)"
  by (cases k; cases w) (auto simp: book_row_of_def put_entity_row_def put_book_row_def update_conv)

lemma row_at_other: "writes_in K ws \<Longrightarrow> k \<notin> K \<Longrightarrow> row_at k (fold apply_write ws v) = row_at k v"
proof (induction ws arbitrary: v)
  case (Cons w ws)
  then have "row_at k (apply_write w v) = row_at k v" by (auto simp: row_at_write split: row_write.split)
  with Cons show ?case by simp
qed simp

lemma consistent_rows_after: "consistent rows v \<Longrightarrow> consistent (rows_after rows ws) (fold apply_write ws v)"
proof (induction ws arbitrary: rows v)
  case (Cons w ws)
  have "consistent (rows_after rows [w]) (apply_write w v)"
    using Cons.prems by (cases w) (auto simp: consistent_def put_row_def row_at_write simp del: apply_write.simps)
  from Cons.IH [OF this] show ?case by (cases w) simp_all
qed simp

lemma dom_rows_after: "k \<in> dom rows \<Longrightarrow> k \<in> dom (rows_after rows ws)"
proof (induction ws arbitrary: rows)
  case (Cons w ws)
  then have "k \<in> dom (rows_after rows [w])" by (cases w) (auto simp: put_row_def)
  from Cons.IH [OF this] show ?case by (cases w) simp_all
qed simp

text \<open>What a transaction sees of a row that it has locked.\<close>

lemma seen_row:
  "consistent rows v \<Longrightarrow> k \<in> dom rows \<Longrightarrow> rows_after rows ws k = Some (row_at k (fold apply_write ws v))"
  using consistent_rows_after [of rows v ws] dom_rows_after [of k rows ws] by (auto simp: consistent_def)

section \<open>What a script keeps to\<close>

fun sql_key :: "sql \<Rightarrow> row_key option" where
  "sql_key (SelectForUpdate k) = Some k"
| "sql_key (InsertBook u r) = Some (BookKey u)"
| "sql_key (UpdateBook u f) = Some (BookKey u)"
| "sql_key (UpsertBook u f) = Some (BookKey u)"
| "sql_key (TombstoneBook u) = Some (BookKey u)"
| "sql_key (InsertEntity t i r) = Some (EntityKey t i)"
| "sql_key (UpdateEntity t i f) = Some (EntityKey t i)"
| "sql_key (UpsertEntity t i p) = Some (EntityKey t i)"
| "sql_key _ = None"

text \<open>A statement concerns rows of \<open>K\<close> only, and an event is of a row that is locked.\<close>

definition sql_fits :: "row_key set \<Rightarrow> (row_key \<rightharpoonup> table_row) \<Rightarrow> sql \<Rightarrow> bool" where
  "sql_fits K rows q \<longleftrightarrow> (\<forall>k. sql_key q = Some k \<longrightarrow> k \<in> K) \<and>
     (\<forall>f. q = InsertEvent f \<longrightarrow> (\<forall>n. vr_id (f n) = n \<and> key_of (f n) \<in> dom rows))"

definition lock_after :: "sql \<Rightarrow> row_write list \<Rightarrow> pg \<Rightarrow> (row_key \<rightharpoonup> table_row) \<Rightarrow> (row_key \<rightharpoonup> table_row)" where
  "lock_after q ws v rows =
     (case locks_row q (fold apply_write ws v) of
        None \<Rightarrow> rows | Some k \<Rightarrow> if k \<in> dom rows then rows else rows(k \<mapsto> row_at k v))"

text \<open>
  Whatever is committed meanwhile, as long as the locked rows stay as they were: \<open>ws\<close> is what the
  transaction has written so far.
\<close>

primrec fits :: "row_key set \<Rightarrow> (row_write list \<Rightarrow> 'a \<Rightarrow> bool) \<Rightarrow> (row_key \<rightharpoonup> table_row) \<Rightarrow> row_write list \<Rightarrow>
    'a script \<Rightarrow> bool" where
  "fits K ok rows ws (Finish r) =
     (case r of Inl e \<Rightarrow> True | Inr (Commit a) \<Rightarrow> good rows ws \<and> ok ws a | Inr (Leave a) \<Rightarrow> ok [] a)"
| "fits K ok rows ws (Send q k) = (sql_fits K rows q \<and>
     (\<forall>v a ws'. consistent rows v \<longrightarrow> reply q (fold apply_write ws v) = Inr (a, ws') \<longrightarrow>
        fits K ok (lock_after q ws v rows) (ws @ ws') (k a)))"

lemma fits_map: "fits K ok rows ws (map_script f sc) = fits K (\<lambda>ws a. ok ws (f a)) rows ws sc"
proof (induction sc arbitrary: rows ws)
  case (Finish r)
  then show ?case by (auto split: sum.split tx_end.split)
qed auto

lemma fits_commit [simp]: "fits K ok rows ws (commit_script a) \<longleftrightarrow> good rows ws \<and> ok ws a"
  by (simp add: commit_script_def)

lemma sql_fits_simps [simp]:
  "sql_fits K rows (SelectChange cid)" "sql_fits K rows SelectLive" "sql_fits K rows (InsertConflictRow g)"
  "sql_fits K rows (SelectForUpdate k) \<longleftrightarrow> k \<in> K" "sql_fits K rows (InsertBook u r) \<longleftrightarrow> BookKey u \<in> K"
  "sql_fits K rows (UpdateBook u f) \<longleftrightarrow> BookKey u \<in> K" "sql_fits K rows (UpsertBook u c) \<longleftrightarrow> BookKey u \<in> K"
  "sql_fits K rows (TombstoneBook u) \<longleftrightarrow> BookKey u \<in> K" "sql_fits K rows (InsertEntity t i x) \<longleftrightarrow> EntityKey t i \<in> K"
  "sql_fits K rows (UpdateEntity t i g') \<longleftrightarrow> EntityKey t i \<in> K" "sql_fits K rows (UpsertEntity t i p) \<longleftrightarrow> EntityKey t i \<in> K"
  "sql_fits K rows (InsertEvent h) \<longleftrightarrow> (\<forall>n. vr_id (h n) = n \<and> key_of (h n) \<in> dom rows)"
  by (auto simp: sql_fits_def)

lemma lock_after_simps [simp]:
  "lock_after (SelectChange cid) ws v rows = rows" "lock_after SelectLive ws v rows = rows"
  "lock_after (InsertEvent f) ws v rows = rows" "lock_after (InsertConflictRow g) ws v rows = rows"
  by (simp_all add: lock_after_def)

lemma locks_row_key: "locks_row q v = Some k \<Longrightarrow> sql_key q = Some k"
  by (cases q) (auto simp: if_there_def split: if_splits)

lemma lock_after_held: "sql_key q = Some k \<Longrightarrow> k \<in> dom rows \<Longrightarrow> lock_after q ws v rows = rows"
  by (auto simp: lock_after_def dest!: locks_row_key split: option.split)

lemma event_at_fields [simp]:
  "vr_id (event_at env cid t i r dev opn p st n) = n"
  "vr_entity_type (event_at env cid t i r dev opn p st n) = t"
  "vr_entity_id (event_at env cid t i r dev opn p st n) = i"
  "vr_revision (event_at env cid t i r dev opn p st n) = r"
  "vr_op (event_at env cid t i r dev opn p st n) = opn"
  "vr_payload (event_at env cid t i r dev opn p st n) = jsonb env p"
  "vr_status (event_at env cid t i r dev opn p st n) = st"
  "vr_change_id (event_at env cid t i r dev opn p st n) = cid"
  "key_of (event_at env cid t i r dev opn p st n) = (if t = EntityBook then BookKey i else EntityKey t i)"
  by (simp_all add: event_at_def key_of_def)

lemma conflict_at_status [simp]: "kr_status (conflict_at env c eid r n) = ConflictOpen"
  by (simp add: conflict_at_def)

section \<open>Answers\<close>

definition no_write :: "change_outcome \<Rightarrow> bool" where
  "no_write a \<longleftrightarrow> oc_EventID a = 0 \<and> oc_Revision a = 0"

lemma no_write_outcomes [simp]:
  "no_write (refused n)" "no_write duplicate_outcome" "no_write accepted_outcome" "no_write reject_outcome"
  by (simp_all add: no_write_def refused_def duplicate_outcome_def accepted_outcome_def reject_outcome_def no_outcome_def)

text \<open>The entry that a request writes, where it is one, and the base revision of a change.\<close>

fun request_key :: "tx_request \<Rightarrow> row_key option" where
  "request_key (ApplyBook c dev) = Some (BookKey (c_EntityID c))"
| "request_key (ApplyEntity c dev) = Some (EntityKey (c_EntityType c) (c_EntityID c))"
| "request_key (ForceBook u p dev cid) = Some (BookKey u)"
| "request_key (ForceEntity t i p dev cid) = Some (EntityKey t i)"
| "request_key (RestoreBooks p dev cids) = None"

definition request_keys :: "tx_request \<Rightarrow> row_key set" where
  "request_keys q = (case request_key q of None \<Rightarrow> range BookKey | Some k \<Rightarrow> {k})"

fun request_base :: "tx_request \<Rightarrow> int option" where
  "request_base (ApplyBook c dev) = Some (c_BaseRevision c)"
| "request_base (ApplyEntity c dev) = Some (c_BaseRevision c)"
| "request_base _ = None"

definition writes_at :: "row_key \<Rightarrow> event_row \<Rightarrow> bool" where
  "writes_at k e \<longleftrightarrow> key_of e = k \<and> vr_status e = StatusDone \<and> (vr_entity_type e = EntityBook \<longrightarrow> vr_op e \<noteq> OpProgress)"

definition outcome_fits :: "row_key \<Rightarrow> int option \<Rightarrow> row_write list \<Rightarrow> change_outcome \<Rightarrow> bool" where
  "outcome_fits k base ws a \<longleftrightarrow> no_write a \<or>
     (\<exists>e. AddEvent e \<in> set ws \<and> vr_id e = oc_EventID a \<and> writes_at k e \<and> vr_revision e = oc_Revision a) \<and>
     (\<forall>b. base = Some b \<longrightarrow> oc_Revision a = b + 1)"

fun answer_fits :: "tx_request \<Rightarrow> row_write list \<Rightarrow> tx_result \<Rightarrow> bool" where
  "answer_fits q ws (Outcome a) = (\<exists>k. request_key q = Some k \<and> outcome_fits k (request_base q) ws a)"
| "answer_fits q ws (Restored r) = True"

end
