(* ===== verification/OverlapFits.thy ===== *)
theory OverlapFits
  imports OverlapInv
begin

text \<open>
  Every request's script keeps to what \<open>OverlapInv\<close> asks of it.
\<close>

section \<open>Changes of one entry\<close>

lemma fits_conflict:
  assumes "(if c_EntityType c = EntityBook then BookKey (c_EntityID c) else EntityKey (c_EntityType c) (c_EntityID c))
    \<in> dom rows"
  shows "fits K (outcome_fits k base) rows [] (conflict_script env c dev n)"
  using assms by (auto simp: conflict_script_def outcome_fits_def split: if_splits)

lemma fits_done_book:
  assumes "u = c_EntityID c" "rows (BookKey u) = Some (BookIs b)" "c_Op c \<noteq> OpProgress"
    and "base = row_rev b" "n = row_rev b + 1"
    and "br_revision r = n" "br_deleted r \<longleftrightarrow> c_Op c = OpDelete"
      "c_Op c \<noteq> OpDelete \<Longrightarrow> row_content r = book_content (jsonb env (c_Payload c))"
  shows "fits K (outcome_fits (BookKey u) (Some base)) rows [PutBook u r] (done_script env c EntityBook dev n)"
  using assms by (auto simp: done_script_def book_write_def outcome_fits_def writes_at_def accepted_def no_outcome_def)

lemma fits_done_entity:
  assumes "t = c_EntityType c" "i = c_EntityID c" "rows (EntityKey t i) = Some (EntityIs b)" "t \<noteq> EntityBook"
    and "base = entity_rev b" "n = entity_rev b + 1"
    and "er_revision r = n" "er_deleted r \<longleftrightarrow> c_Op c = OpDelete"
      "c_Op c \<noteq> OpDelete \<Longrightarrow> er_payload r = normalizePayload (jsonb env (c_Payload c))"
  shows "fits K (outcome_fits (EntityKey t i) (Some base)) rows [PutEntity t i r] (done_script env c t dev n)"
  using assms by (auto simp: done_script_def entity_write_def outcome_fits_def writes_at_def accepted_def no_outcome_def)

definition locked_row :: "row_key \<Rightarrow> table_row \<Rightarrow> (row_key \<rightharpoonup> table_row)" where
  "locked_row k x = (if x = BookIs None \<or> x = EntityIs None then (\<lambda>_. None) else [k \<mapsto> x])"

lemma lock_for_update: "lock_after (SelectForUpdate k) [] v (\<lambda>_. None) = locked_row k (row_at k v)"
  by (auto simp: lock_after_def if_there_def locked_row_def)

lemma consistent_locked: "consistent (locked_row k x) v \<Longrightarrow> x \<noteq> BookIs None \<Longrightarrow> x \<noteq> EntityIs None \<Longrightarrow> row_at k v = x"
  by (simp add: consistent_def locked_row_def)

lemma fits_next:
  assumes "c_EntityType c = EntityBook" "c_Op c \<noteq> OpProgress" "jsonb_ok env"
  shows "fits {BookKey (c_EntityID c)} (outcome_fits (BookKey (c_EntityID c)) (Some (c_BaseRevision c)))
    (locked_row (BookKey (c_EntityID c)) (BookIs (Some old))) [] (next_script env c dev old)"
proof -
  let ?u = "c_EntityID c" and ?rows = "locked_row (BookKey (c_EntityID c)) (BookIs (Some old))"
  have rows: "?rows (BookKey ?u) = Some (BookIs (Some old))" by (simp add: locked_row_def)
  then have held: "lock_after (UpdateBook ?u f) [] v ?rows = ?rows" for f v
    by (intro lock_after_held [where k = "BookKey ?u"]) auto
  show ?thesis
    unfolding next_script_def Let_def
    using assms payload_columns_content [OF assms(3)] columns_shape(2) rows
    by (auto simp: held row_rev_def dest!: consistent_locked
        intro!: fits_conflict fits_done_book [where b = "Some old"] split: option.splits)
qed

lemma fits_new:
  assumes "c_EntityType c = EntityBook" "c_Op c \<noteq> OpProgress" "jsonb_ok env"
  shows "fits {BookKey (c_EntityID c)} (outcome_fits (BookKey (c_EntityID c)) (Some (c_BaseRevision c)))
    (\<lambda>_. None) [] (new_script env c dev)"
  using assms payload_columns_content [OF assms(3)] columns_shape(2)
  by (auto simp: new_script_def lock_after_def row_rev_def outcome_fits_def
      intro!: fits_done_book [where b = None] split: option.splits if_splits)

lemma fits_progress:
  assumes "c_EntityType c = EntityBook" "jsonb_ok env"
  shows "fits {BookKey (c_EntityID c)} (outcome_fits (BookKey (c_EntityID c)) (Some (c_BaseRevision c)))
    (locked_row (BookKey (c_EntityID c)) (BookIs row)) [] (progress_script env c dev row)"
proof (cases row)
  case (Some old)
  let ?u = "c_EntityID c" and ?rows = "locked_row (BookKey (c_EntityID c)) (BookIs row)"
  have rows: "?rows (BookKey ?u) = Some (BookIs (Some old))" by (simp add: locked_row_def Some)
  then have held: "lock_after (UpdateBook ?u f) [] v ?rows = ?rows" for f v
    by (intro lock_after_held [where k = "BookKey ?u"]) auto
  have "parseBookPayload (jsonb env p) = parseBookPayload p" for p using assms(2) by (simp add: jsonb_ok_def)
  with rows show ?thesis
    by (auto simp: progress_script_def Some Let_def held [unfolded Some] book_write_def row_content_def outcome_fits_def
        dest!: consistent_locked split: if_splits)
qed (simp add: progress_script_def outcome_fits_def)

lemma fits_book:
  assumes "c_EntityType c = EntityBook" "jsonb_ok env"
  shows "fits {BookKey (c_EntityID c)} (outcome_fits (BookKey (c_EntityID c)) (Some (c_BaseRevision c)))
    (\<lambda>_. None) [] (book_script env c dev)"
proof -
  let ?fits = "fits {BookKey (c_EntityID c)} (outcome_fits (BookKey (c_EntityID c)) (Some (c_BaseRevision c)))"
  have "?fits (locked_row (BookKey (c_EntityID c)) (BookIs row)) [] (locked_script env c dev row)" for row
    using assms fits_progress [OF assms, of row] fits_next [OF assms(1) _ assms(2)] fits_new [OF assms(1) _ assms(2)]
    by (auto simp: locked_script_def locked_row_def split: option.split)
  then show ?thesis
    by (auto simp: book_script_def lock_for_update outcome_fits_def)
qed

section \<open>Entities\<close>

lemma fits_entity:
  assumes "c_EntityType c \<noteq> EntityBook" "jsonb_ok env"
  defines "k \<equiv> EntityKey (c_EntityType c) (c_EntityID c)"
  shows "fits {k} (outcome_fits k (Some (c_BaseRevision c))) (\<lambda>_. None) [] (entity_script env c dev)"
proof -
  let ?fits = "fits {k} (outcome_fits k (Some (c_BaseRevision c)))"
  have new: "?fits (\<lambda>_. None) [] (entity_new_script env c dev)"
    using assms normalize_jsonb [OF assms(2)]
    by (auto simp: entity_new_script_def lock_after_def entity_rev_def outcome_fits_def
        intro!: fits_done_entity [where b = None])
  have upd: "?fits (locked_row k (EntityIs (Some old))) [] (entity_next_script env c dev old)" for old
  proof -
    let ?rows = "locked_row k (EntityIs (Some old))"
    have rows: "?rows k = Some (EntityIs (Some old))" by (simp add: locked_row_def)
    then have held: "lock_after (UpdateEntity (c_EntityType c) (c_EntityID c) f) [] v ?rows = ?rows" for f v
      by (intro lock_after_held [where k = k]) (auto simp: k_def)
    show ?thesis
      unfolding entity_next_script_def Let_def
      using assms normalize_jsonb [OF assms(2)] rows
      by (auto simp: held [unfolded k_def] entity_rev_def dest!: consistent_locked
          intro!: fits_conflict fits_done_entity [where b = "Some old"])
  qed
  show ?thesis
    using new upd by (auto simp: entity_script_def lock_for_update outcome_fits_def locked_row_def k_def split: option.split)
qed

section \<open>Writes of the server's own accord\<close>

lemma lock_after_grows:
  assumes "consistent rows v"
  shows "rows \<subseteq>\<^sub>m lock_after q ws v rows" "consistent (lock_after q ws v rows) v"
    and "locks_row q (fold apply_write ws v) = Some k \<Longrightarrow> k \<in> dom (lock_after q ws v rows)"
  using assms by (auto simp: lock_after_def consistent_def map_le_def split: option.split)

text \<open>A statement that writes a row whatever it was, and the event of the write.\<close>

lemma fits_row_event:
  assumes "good rows ws" "sql_key q = Some (BookKey u)" "BookKey u \<in> K"
    and shape: "\<And>w a ws'. reply q w = Inr (a, ws') \<Longrightarrow> locks_row q w = Some (BookKey u) \<and>
      (\<exists>row. a = Number (br_revision row) \<and> ws' = [PutBook u row] \<and>
        (\<forall>n. book_write u (book_row_of u w) row (E (br_revision row) n)))"
    and E: "\<And>r n. vr_id (E r n) = n \<and> key_of (E r n) = BookKey u"
    and cont: "\<And>rows' row n. good rows' (ws @ [PutBook u row, AddEvent (E (br_revision row) n)]) \<Longrightarrow>
      fits K ok rows' (ws @ [PutBook u row, AddEvent (E (br_revision row) n)]) (k (br_revision row) n)"
  shows "fits K ok rows ws (Send q (\<lambda>a. Send (InsertEvent (E (number a))) (\<lambda>b. k (number a) (number b))))"
proof -
  have "sql_fits K rows q" using assms(2,3) by (auto simp: sql_fits_def)
  moreover have "fits K ok (lock_after q ws v rows) (ws @ ws') (Send (InsertEvent (E (number a))) (\<lambda>b. k (number a) (number b)))"
    if v: "consistent rows v" and r: "reply q (fold apply_write ws v) = Inr (a, ws')" for v a ws'
  proof -
    let ?rows = "lock_after q ws v rows" and ?w = "fold apply_write ws v"
    note grow = lock_after_grows [OF v, of q ws]
    from shape [OF r] obtain row where l: "locks_row q ?w = Some (BookKey u)" and a: "a = Number (br_revision row)"
      and ws': "ws' = [PutBook u row]" and w: "\<And>n. book_write u (book_row_of u ?w) row (E (br_revision row) n)"
      by blast
    have u: "BookKey u \<in> dom ?rows" using grow(3) [OF l] .
    with seen_row [OF grow(2) u] have "rows_after ?rows ws (BookKey u) = Some (BookIs (book_row_of u ?w))" by simp
    moreover have "good ?rows ws" using good_mono [OF assms(1) grow(1)] .
    ultimately have "good ?rows (ws @ [PutBook u row, AddEvent (E (br_revision row) n)])" for n
      using w by (simp add: good_append)
    from cont [OF this] show ?thesis using E u by (auto simp: a ws')
  qed
  ultimately show ?thesis by simp
qed

lemma fits_upsert:
  assumes "good rows ws" "BookKey u \<in> K"
    and "\<And>f r q. cols = Some f \<Longrightarrow> row_content (f r q) = book_content (jsonb env p) \<and> br_revision (f r q) = r \<and> \<not> br_deleted (f r q)"
    and "\<And>rows' row n e. good rows' (ws @ [PutBook u row, AddEvent e]) \<Longrightarrow> vr_id e = n \<Longrightarrow>
      writes_at (BookKey u) e \<Longrightarrow> vr_revision e = br_revision row \<Longrightarrow>
      fits K ok rows' (ws @ [PutBook u row, AddEvent e]) (k (br_revision row) n)"
  shows "fits K ok rows ws (Send (UpsertBook u cols) (\<lambda>a.
    Send (InsertEvent (event_at env cid EntityBook u (number a) dev OpUpsert p StatusDone)) (\<lambda>b. k (number a) (number b))))"
  using assms by (intro fits_row_event [where u = u])
    (auto simp: book_write_def row_rev_def const_distinct writes_at_def split: option.splits)

lemma fits_tombstone:
  assumes "good rows ws" "BookKey u \<in> K"
    and "\<And>rows' row n e. good rows' (ws @ [PutBook u row, AddEvent e]) \<Longrightarrow>
      fits K ok rows' (ws @ [PutBook u row, AddEvent e]) (k (br_revision row) n)"
  shows "fits K ok rows ws (Send (TombstoneBook u) (\<lambda>a.
    Send (InsertEvent (event_at env cid EntityBook u (number a) dev OpDelete None StatusDone)) (\<lambda>b. k (number a) (number b))))"
  using assms by (intro fits_row_event [where u = u])
    (auto simp: book_write_def row_rev_def const_distinct if_there_def split: option.splits)

lemma fits_force:
  assumes "jsonb_ok env"
  shows "fits {BookKey u} (outcome_fits (BookKey u) None) (\<lambda>_. None) [] (force_script env u p dev cid)"
  unfolding force_script_def
  using payload_columns_content [OF assms, of p] columns_shape(2)
  by (intro fits_upsert [where k = "\<lambda>r n. commit_script (accepted r n)"])
    (auto simp: outcome_fits_def accepted_def no_outcome_def)

lemma fits_items:
  assumes "jsonb_ok env" "range BookKey \<subseteq> K"
    and "\<And>rows ws n m. good rows ws \<Longrightarrow> fits K ok rows ws (k n m)"
  shows "good rows ws \<Longrightarrow> fits K ok rows ws (items_script env dev cids n its m k)"
proof (induction its arbitrary: rows ws n m)
  case (Cons item its)
  have "fits K ok rows ws (Send (UpsertBook (it_UUID item) (book_columns env (it_Name item) (it_CurrentPage item)
        (it_CoverHash item) (normalizePayload (it_Files item)))) (\<lambda>a.
      Send (InsertEvent (event_at env (cids n) EntityBook (it_UUID item) (number a) dev OpUpsert
        (snapshotItemPayload item) StatusDone)) (\<lambda>b.
      (\<lambda>r (_ :: int). items_script env dev cids (Suc n) its (if r > m then r else m) k) (number a) (number b))))"
    using Cons assms(2) item_columns_content [OF assms(1), of item] columns_shape(1)
    by (intro fits_upsert) auto
  then show ?case by simp
qed (use assms in simp)

lemma fits_deletes:
  assumes "range BookKey \<subseteq> K" "\<And>rows ws m. good rows ws \<Longrightarrow> fits K ok rows ws (k m)"
  shows "good rows ws \<Longrightarrow> fits K ok rows ws (deletes_script env dev cids n us m k)"
proof (induction us arbitrary: rows ws n m)
  case (Cons u us)
  have "fits K ok rows ws (Send (TombstoneBook u) (\<lambda>a.
      Send (InsertEvent (event_at env (cids n) EntityBook u (number a) dev OpDelete None StatusDone)) (\<lambda>b.
      (\<lambda>r (_ :: int). deletes_script env dev cids (Suc n) us (if r > m then r else m) k) (number a) (number b))))"
    using Cons assms(1) by (intro fits_tombstone) auto
  then show ?case by simp
qed (use assms in simp)

lemma fits_restore:
  assumes "jsonb_ok env"
  shows "fits (range BookKey) (\<lambda>ws r. True) (\<lambda>_. None) [] (restore_script env p dev cids)"
proof (cases "json_Unmarshal dec_items None p")
  case (Pair items ok)
  show ?thesis
    unfolding restore_script_def Pair
    by (auto simp: Let_def intro!: fits_items [OF assms] fits_deletes)
qed

lemma fits_force_entity:
  assumes "jsonb_ok env" "t \<noteq> EntityBook"
  shows "fits {EntityKey t i} (outcome_fits (EntityKey t i) None) (\<lambda>_. None) [] (force_entity_script env t i p dev cid)"
  using assms(2) normalize_jsonb [OF assms(1)]
  by (auto simp: force_entity_script_def lock_after_def Let_def entity_write_def entity_rev_def outcome_fits_def
      writes_at_def accepted_def no_outcome_def const_distinct split: option.splits)

text \<open>Together.\<close>

lemma fits_request:
  assumes "request_ok q" "jsonb_ok env"
  shows "fits (request_keys q) (answer_fits q) (\<lambda>_. None) [] (request_script env q)"
proof (cases q)
  case (ApplyBook c dev)
  with assms fits_book [OF _ assms(2), of c dev] show ?thesis
    by (simp add: request_ok_def request_keys_def fits_map)
next
  case (ApplyEntity c dev)
  with assms fits_entity [OF _ assms(2), of c dev] show ?thesis
    by (simp add: request_ok_def request_keys_def fits_map)
next
  case (ForceBook u p dev cid)
  with fits_force [OF assms(2), of u p dev cid] show ?thesis by (simp add: request_keys_def fits_map)
next
  case (ForceEntity t i p dev cid)
  with assms fits_force_entity [OF assms(2), of t i p dev cid] show ?thesis
    by (simp add: request_ok_def request_keys_def fits_map)
next
  case (RestoreBooks p dev cids)
  with fits_restore [OF assms(2), of p dev cids] show ?thesis by (simp add: request_keys_def fits_map)
qed

end
