(* ===== verification/OverlapReach.thy ===== *)
theory OverlapReach
  imports OverlapFits
begin

text \<open>
  The invariant of transactions that overlap, and that every step keeps it.
\<close>

section \<open>The tables\<close>

fun added_events :: "row_write list \<Rightarrow> event_row list" where
  "added_events [] = []"
| "added_events (AddEvent e # ws) = e # added_events ws"
| "added_events (w # ws) = added_events ws"

lemma added_events_append [simp]: "added_events (ws @ ws') = added_events ws @ added_events ws'"
  by (induction ws rule: added_events.induct) simp_all

lemma added_events_set: "e \<in> set (added_events ws) \<longleftrightarrow> AddEvent e \<in> set ws"
  by (induction ws rule: added_events.induct) auto

definition event_ids :: "pg \<Rightarrow> int set" where
  "event_ids db = vr_id ` set (db_sync_events db)"

text \<open>
  As in \<open>pg_inv\<close>, but for the order of the identifiers: the events lie in the order of the commits, and
  only those of one entry are in the order of their identifiers too.
\<close>

definition ov_db_ok :: "pg \<Rightarrow> bool" where
  "ov_db_ok db \<longleftrightarrow> pg_data_ok db \<and> db_faults db = [] \<and> distinct (map vr_id (db_sync_events db)) \<and>
     (\<forall>n\<in>event_ids db. 0 < n \<and> n \<le> db_event_seq db) \<and> 0 \<le> db_event_seq db \<and>
     (\<forall>k. sorted_wrt (<) (map vr_id (filter (\<lambda>e. key_of e = k) (db_sync_events db))))"

lemma pg_data_ok_same:
  assumes "db_sync_events t = db_sync_events s" "db_current_book t = db_current_book s"
    "db_entities t = db_entities s"
    "\<forall>k\<in>set (db_conflicts t). kr_status k = ConflictOpen \<or> kr_status k = ConflictResolved"
    and "pg_data_ok s"
  shows "pg_data_ok t"
proof -
  have "pg_log t = pg_log s" "book_row_of u t = book_row_of u s" for u
    using assms by (simp_all add: pg_log_def book_row_of_def)
  moreover from this assms have "pg_library t = pg_library s" "pg_entities t = pg_entities s"
    by (simp_all add: pg_library_def pg_entities_def fun_eq_iff)
  ultimately show ?thesis
    using assms by (simp add: pg_data_ok_def pg_status_ok_def pg_rows_ok_def pg_log_ok_def
        pg_book_rev_def pg_entity_rev_def)
qed

lemma pg_data_ok_conflicts:
  "pg_data_ok s \<Longrightarrow> k \<in> set (db_conflicts s) \<Longrightarrow> kr_status k = ConflictOpen \<or> kr_status k = ConflictResolved"
  by (simp add: pg_data_ok_def pg_status_ok_def)

text \<open>What the invariant of the transactions reads of the tables.\<close>

definition same_rows :: "pg \<Rightarrow> pg \<Rightarrow> bool" where
  "same_rows s t \<longleftrightarrow> db_sync_events t = db_sync_events s \<and> db_current_book t = db_current_book s \<and>
     db_entities t = db_entities s \<and> db_faults t = db_faults s \<and> db_event_seq s \<le> db_event_seq t \<and>
     (pg_data_ok s \<longrightarrow> (\<forall>k\<in>set (db_conflicts t). kr_status k = ConflictOpen \<or> kr_status k = ConflictResolved))"

lemma same_rows_views:
  assumes "same_rows s t"
  shows "row_at k t = row_at k s" "event_ids t = event_ids s" "db_sync_events t = db_sync_events s"
    "db_event_seq s \<le> db_event_seq t"
  using assms by (cases k; simp add: same_rows_def event_ids_def book_row_of_def)+

lemma ov_db_ok_same: "same_rows s t \<Longrightarrow> ov_db_ok s \<Longrightarrow> ov_db_ok t"
  using same_rows_views [of s t]
  by (fastforce simp: ov_db_ok_def same_rows_def intro: pg_data_ok_same)

lemma same_rows_draw: "same_rows s (draw q s)"
  using pg_data_ok_conflicts by (cases q) (auto simp: same_rows_def)

lemma same_rows_statements:
  assumes "db_faults s = []"
  shows "same_rows s (snd (pg_UpdateCursor dev n s))" "same_rows s (snd (pg_MarkResolved n dev s))"
    "same_rows s (snd (pg_InsertSnapshot env opType tag p s))" "same_rows s (snd (pg_SetBookVersion v s))"
  using assms pg_data_ok_conflicts [of s]
  by (auto simp: same_rows_def pg_UpdateCursor_def pg_MarkResolved_def pg_InsertSnapshot_def pg_SetBookVersion_def
      Let_def resolve_row_def)

section \<open>Commits\<close>

lemma fold_writes_events [simp]:
  "db_sync_events (fold apply_write ws s) = db_sync_events s @ added_events ws"
  "db_event_seq (fold apply_write ws s) = db_event_seq s" "db_faults (fold apply_write ws s) = db_faults s"
  "event_ids (fold apply_write ws s) = event_ids s \<union> vr_id ` set (added_events ws)"
proof (induction ws arbitrary: s)
  case (Cons w ws)
  { case 1 show ?case by (cases w) (simp_all add: Cons) }
  { case 2 show ?case by (cases w) (simp_all add: Cons) }
  { case 3 show ?case by (cases w) (simp_all add: Cons) }
  { case 4 show ?case by (cases w) (auto simp: Cons event_ids_def) }
qed simp_all

lemma pg_data_ok_seq [simp]: "pg_data_ok (s\<lparr>db_event_seq := n\<rparr>) = pg_data_ok s"
proof
  assume "pg_data_ok (s\<lparr>db_event_seq := n\<rparr>)"
  then show "pg_data_ok s"
    using pg_data_ok_conflicts [OF \<open>pg_data_ok (s\<lparr>db_event_seq := n\<rparr>)\<close>]
    by (elim pg_data_ok_same [rotated 4]) auto
next
  assume "pg_data_ok s"
  then show "pg_data_ok (s\<lparr>db_event_seq := n\<rparr>)"
    using pg_data_ok_conflicts [OF \<open>pg_data_ok s\<close>] by (elim pg_data_ok_same [rotated 4]) auto
qed

lemma add_event_write:
  "apply_write (AddEvent e) s = (add_event e s)\<lparr>db_event_seq := db_event_seq s\<rparr>"
  by (simp add: add_event_def)

lemma conflict_data:
  assumes "pg_data_ok s" "vr_status e = StatusConflict" "kr_status k = ConflictOpen"
  shows "pg_data_ok (apply_write (AddConflict k) (apply_write (AddEvent e) s))"
proof -
  let ?t = "apply_write (AddConflict k) (apply_write (AddEvent e) s)"
  have "pg_log ?t = pg_log s" using assms by (simp add: pg_log_def pg_deliverable_def)
  moreover have "book_row_of u ?t = book_row_of u s" for u by (simp add: book_row_of_def)
  moreover from this have "pg_library ?t = pg_library s" "pg_entities ?t = pg_entities s"
    by (simp_all add: pg_library_def pg_entities_def fun_eq_iff del: apply_write.simps) simp_all
  ultimately show ?thesis
    using assms by (simp add: pg_data_ok_def pg_status_ok_def pg_rows_ok_def pg_log_ok_def
        pg_book_rev_def pg_entity_rev_def writes_book_def writes_entity_def)
qed

lemma book_write_data:
  assumes "pg_data_ok s" "book_write u (book_row_of u s) r e"
  shows "pg_data_ok (apply_write (AddEvent e) (apply_write (PutBook u r) s))"
proof -
  have "pg_data_ok (add_event e (put_book_row u r s))"
  proof (cases "vr_op e = OpProgress")
    case True
    with assms show ?thesis by (auto simp: book_write_def intro: pg_progress_data)
  next
    case False
    have "row_rev (book_row_of u s) = pg_book_rev u s" by (simp add: row_rev_def pg_book_rev_def)
    with False assms show ?thesis by (auto simp: book_write_def intro!: pg_book_write_data)
  qed
  then show ?thesis by (simp add: add_event_write del: apply_write.simps(3))
qed

lemma entity_write_data:
  assumes "pg_data_ok s" "entity_write t i (db_entities s (t, i)) r e"
  shows "pg_data_ok (apply_write (AddEvent e) (apply_write (PutEntity t i r) s))"
proof -
  have "entity_rev (db_entities s (t, i)) = pg_entity_rev (t, i) s" by (simp add: entity_rev_def pg_entity_rev_def)
  with assms have "pg_data_ok (add_event e (put_entity_row t i r s))"
    by (auto simp: entity_write_def intro!: pg_entity_write_data)
  then show ?thesis by (simp add: add_event_write del: apply_write.simps(3))
qed

lemma consistentD: "consistent rows s \<Longrightarrow> rows k = Some x \<Longrightarrow> row_at k s = x"
  by (simp add: consistent_def)

lemma good_data: "good rows ws \<Longrightarrow> consistent rows s \<Longrightarrow> pg_data_ok s \<Longrightarrow> pg_data_ok (fold apply_write ws s)"
proof (induction rows ws arbitrary: s rule: good.induct)
  case (2 rows u r e ws)
  let ?s = "apply_write (AddEvent e) (apply_write (PutBook u r) s)"
  from 2(2,3) consistentD [OF 2(3), of "BookKey u"] have "book_write u (book_row_of u s) r e" by auto
  with 2 have "pg_data_ok ?s" by (intro book_write_data)
  moreover have "consistent (put_row (BookKey u) (BookIs (Some r)) rows) ?s"
    using consistent_rows_after [OF 2(3), of "[PutBook u r, AddEvent e]"] by simp
  ultimately show ?case using 2 by simp
next
  case (3 rows t i r e ws)
  let ?s = "apply_write (AddEvent e) (apply_write (PutEntity t i r) s)"
  from 3(2,3) consistentD [OF 3(3), of "EntityKey t i"] have "entity_write t i (db_entities s (t, i)) r e" by auto
  with 3 have "pg_data_ok ?s" by (intro entity_write_data)
  moreover have "consistent (put_row (EntityKey t i) (EntityIs (Some r)) rows) ?s"
    using consistent_rows_after [OF 3(3), of "[PutEntity t i r, AddEvent e]"] by simp
  ultimately show ?case using 3 by simp
next
  case (4 rows e k ws)
  let ?s = "apply_write (AddConflict k) (apply_write (AddEvent e) s)"
  from 4 have "pg_data_ok ?s" by (intro conflict_data) simp_all
  moreover have "consistent rows ?s"
    using consistent_rows_after [OF 4(3), of "[AddEvent e, AddConflict k]"] by simp
  ultimately show ?case using 4 by simp
qed simp_all

section \<open>Transactions in progress\<close>

definition open_ok :: "pg \<Rightarrow> txn \<Rightarrow> (row_key \<rightharpoonup> table_row) \<Rightarrow> bool" where
  "open_ok db t rows \<longleftrightarrow>
     fits (request_keys (tn_request t)) (answer_fits (tn_request t)) rows (tn_writes t) (tn_script t) \<and>
     set (tn_locks t) = dom rows \<and> dom rows \<subseteq> request_keys (tn_request t) \<and> consistent rows db \<and>
     writes_in (dom rows) (tn_writes t) \<and> sorted_wrt (<) (map vr_id (added_events (tn_writes t))) \<and>
     (\<forall>e\<in>set (added_events (tn_writes t)). key_of e \<in> dom rows \<and> 0 < vr_id e \<and> vr_id e \<le> db_event_seq db \<and>
        vr_id e \<notin> event_ids db \<and> (\<forall>e'\<in>set (db_sync_events db). key_of e' = key_of e \<longrightarrow> vr_id e' < vr_id e))"

text \<open>An outcome that speaks of a write: its event is there.\<close>

definition outcome_ok :: "pg \<Rightarrow> tx_request \<Rightarrow> tx_result \<Rightarrow> bool" where
  "outcome_ok db q r \<longleftrightarrow> (\<forall>a. r = Outcome a \<longrightarrow> no_write a \<or>
     (\<exists>k. request_key q = Some k \<and>
       (\<exists>e\<in>set (db_sync_events db). vr_id e = oc_EventID a \<and> writes_at k e \<and> vr_revision e = oc_Revision a) \<and>
       (\<forall>b. request_base q = Some b \<longrightarrow> oc_Revision a = b + 1)))"

definition txn_ok :: "pg \<Rightarrow> txn \<Rightarrow> bool" where
  "txn_ok db t \<longleftrightarrow>
     (case tn_result t of
        None \<Rightarrow> \<exists>rows. open_ok db t rows
      | Some r \<Rightarrow> tn_writes t = [] \<and> tn_locks t = [] \<and> (\<forall>a. r = Inr a \<longrightarrow> outcome_ok db (tn_request t) a))"

definition result_ids :: "txn \<Rightarrow> int set" where
  "result_ids t = (case tn_result t of Some (Inr (Outcome a)) \<Rightarrow> {oc_EventID a} - {0} | _ \<Rightarrow> {})"

definition pair_ok :: "txn \<Rightarrow> txn \<Rightarrow> bool" where
  "pair_ok t t' \<longleftrightarrow> set (tn_locks t) \<inter> set (tn_locks t') = {} \<and> result_ids t \<inter> result_ids t' = {} \<and>
     vr_id ` set (added_events (tn_writes t)) \<inter> vr_id ` set (added_events (tn_writes t')) = {}"

definition ov_inv :: "overlap \<Rightarrow> bool" where
  "ov_inv s \<longleftrightarrow> ov_db_ok (ov_db s) \<and> (\<forall>t\<in>set (ov_txns s). txn_ok (ov_db s) t) \<and>
     (\<forall>i<length (ov_txns s). \<forall>j<length (ov_txns s). i \<noteq> j \<longrightarrow> pair_ok (ov_txns s ! i) (ov_txns s ! j))"

lemma pair_ok_sym: "pair_ok t t' \<Longrightarrow> pair_ok t' t"
  by (auto simp: pair_ok_def)

lemma ov_inv_set:
  assumes "ov_inv s" "i < length (ov_txns s)" "ov_db_ok db" "txn_ok db t"
    and "\<And>j. j < length (ov_txns s) \<Longrightarrow> j \<noteq> i \<Longrightarrow> txn_ok db (ov_txns s ! j) \<and> pair_ok t (ov_txns s ! j)"
  shows "ov_inv (set_txn i t (s\<lparr>ov_db := db\<rparr>))"
  using assms by (fastforce simp: ov_inv_def set_txn_def in_set_conv_nth nth_list_update intro: pair_ok_sym)

lemma ov_inv_nth: "ov_inv s \<Longrightarrow> i < length (ov_txns s) \<Longrightarrow> txn_ok (ov_db s) (ov_txns s ! i)"
  by (simp add: ov_inv_def)

lemma ov_inv_pair:
  "ov_inv s \<Longrightarrow> i < length (ov_txns s) \<Longrightarrow> j < length (ov_txns s) \<Longrightarrow> i \<noteq> j \<Longrightarrow> pair_ok (ov_txns s ! i) (ov_txns s ! j)"
  by (simp add: ov_inv_def)

lemma ov_inv_db: "ov_inv s \<Longrightarrow> ov_db_ok (ov_db s)"
  by (simp add: ov_inv_def)

lemma open_ok_same: "same_rows db db' \<Longrightarrow> open_ok db t rows \<Longrightarrow> open_ok db' t rows"
  using same_rows_views [of db db'] by (fastforce simp: open_ok_def consistent_def)

lemma txn_ok_same: "same_rows db db' \<Longrightarrow> txn_ok db t \<Longrightarrow> txn_ok db' t"
  using same_rows_views(3) [of db db'] open_ok_same [of db db']
  by (auto simp: txn_ok_def outcome_ok_def split: option.splits)

lemma ov_inv_same: "same_rows (ov_db s) db \<Longrightarrow> ov_inv s \<Longrightarrow> ov_inv (s\<lparr>ov_db := db\<rparr>)"
  by (simp add: ov_inv_def ov_db_ok_same txn_ok_same)

lemma close_txn_fields [simp]:
  "tn_result (close_txn r t) = Some r" "tn_request (close_txn r t) = tn_request t" "tn_writes (close_txn r t) = []"
  "tn_locks (close_txn r t) = []"
  by (simp_all add: close_txn_def)

text \<open>A transaction that writes nothing in the end is gone without a trace.\<close>

lemma ov_inv_close:
  assumes "ov_inv s" "i < length (ov_txns s)" "same_rows (ov_db s) db"
    and "\<And>w. r = Inr (Outcome w) \<Longrightarrow> no_write w"
  shows "ov_inv (set_txn i (close_txn r (ov_txns s ! i)) (s\<lparr>ov_db := db\<rparr>))"
proof (rule ov_inv_set [OF assms(1,2)])
  show "ov_db_ok db" using assms(3) ov_inv_db [OF assms(1)] by (rule ov_db_ok_same)
  show "txn_ok db (close_txn r (ov_txns s ! i))"
    using assms(4) by (auto simp: txn_ok_def outcome_ok_def)
  have "result_ids (close_txn r (ov_txns s ! i)) = {}"
    using assms(4) by (auto simp: result_ids_def no_write_def split: sum.split tx_result.split)
  moreover fix j assume "j < length (ov_txns s)"
  ultimately show "txn_ok db (ov_txns s ! j) \<and> pair_ok (close_txn r (ov_txns s ! i)) (ov_txns s ! j)"
    using ov_inv_nth [OF assms(1)] txn_ok_same [OF assms(3)] by (auto simp: pair_ok_def)
qed

section \<open>Statements\<close>

lemma if_there_key: "if_there k v = Some k' \<Longrightarrow> k' = k"
  by (simp add: if_there_def split: if_splits)

lemma reply_writes:
  assumes "reply q v = Inr (a, ws)"
  shows "writes_in (set_option (locks_row q v)) ws"
    and "added_events ws = [] \<or> (\<exists>f. q = InsertEvent f \<and> added_events ws = [f (db_event_seq v + 1)])"
  using assms by (cases q; auto simp: if_there_def Let_def split: option.splits if_splits)+

lemma writes_in_mono: "writes_in K ws \<Longrightarrow> K \<subseteq> K' \<Longrightarrow> writes_in K' ws"
  by (auto simp: writes_in_def)

lemma add_lock_set: "set (add_lock l ls) = set_option l \<union> set ls"
  by (auto simp: add_lock_def split: option.split)

lemma lock_after_dom: "dom (lock_after q ws v rows) = set_option (locks_row q (fold apply_write ws v)) \<union> dom rows"
  by (auto simp: lock_after_def split: option.split if_splits)

lemma open_ok_send:
  assumes "open_ok db t rows" "tn_script t = Send q k" "ov_db_ok db"
    and "reply q (fold apply_write (tn_writes t) db) = Inr (a, ws)"
  shows "open_ok (draw q db) (t\<lparr>tn_script := k a, tn_writes := tn_writes t @ ws,
     tn_locks := add_lock (locks_row q (fold apply_write (tn_writes t) db)) (tn_locks t)\<rparr>)
     (lock_after q (tn_writes t) db rows)"
    (is "open_ok ?db ?t ?rows")
proof -
  let ?v = "fold apply_write (tn_writes t) db"
  from assms(1,2) have f: "sql_fits (request_keys (tn_request t)) rows q" and c: "consistent rows db"
    and run: "fits (request_keys (tn_request t)) (answer_fits (tn_request t)) ?rows (tn_writes t @ ws) (k a)"
    using assms(4) by (auto simp: open_ok_def)
  note dom = lock_after_dom [of q "tn_writes t" db rows] and writes = reply_writes [OF assms(4)]
  have ids: "0 \<le> db_event_seq db" "\<And>n. n \<in> event_ids db \<Longrightarrow> n \<le> db_event_seq db"
    using assms(3) by (auto simp: ov_db_ok_def)
  have old: "open_ok ?db t rows" using same_rows_draw assms(1) by (rule open_ok_same)
  have "dom ?rows \<subseteq> request_keys (tn_request t)"
    using assms(1) f dom by (auto simp: open_ok_def sql_fits_def dest!: locks_row_key)
  moreover have "consistent ?rows ?db"
    using lock_after_grows(2) [OF c, of q "tn_writes t"] same_rows_views(1) [OF same_rows_draw] by (simp add: consistent_def)
  moreover have "writes_in (dom ?rows) (tn_writes t @ ws)"
    using assms(1) writes(1) dom by (auto simp: open_ok_def intro: writes_in_mono)
  moreover have "sorted_wrt (<) (map vr_id (added_events (tn_writes t @ ws))) \<and>
      (\<forall>e\<in>set (added_events (tn_writes t @ ws)). key_of e \<in> dom ?rows \<and> 0 < vr_id e \<and> vr_id e \<le> db_event_seq ?db \<and>
        vr_id e \<notin> event_ids ?db \<and> (\<forall>e'\<in>set (db_sync_events ?db). key_of e' = key_of e \<longrightarrow> vr_id e' < vr_id e))"
  proof (cases "added_events ws = []")
    case True
    with old dom show ?thesis by (auto simp: open_ok_def)
  next
    case False
    with writes(2) obtain g where q: "q = InsertEvent g" and es: "added_events ws = [g (db_event_seq db + 1)]" by auto
    let ?e = "g (db_event_seq db + 1)"
    have e: "vr_id ?e = db_event_seq db + 1" "key_of ?e \<in> dom rows" using f q by auto
    have db: "db_event_seq ?db = db_event_seq db + 1" "event_ids ?db = event_ids db"
      "db_sync_events ?db = db_sync_events db"
      by (simp_all add: q event_ids_def)
    have "\<forall>e'\<in>set (added_events (tn_writes t)). vr_id e' < vr_id ?e"
      using assms(1) by (fastforce simp: open_ok_def e(1))
    moreover have "vr_id ?e \<notin> event_ids db" "\<forall>e'\<in>set (db_sync_events db). vr_id e' < vr_id ?e"
      using ids by (fastforce simp: e(1) event_ids_def)+
    ultimately show ?thesis
      using old e ids(1) dom unfolding open_ok_def by (auto simp: es db sorted_wrt_append)
  qed
  moreover have "set (tn_locks ?t) = dom ?rows" using assms(1) dom by (auto simp: open_ok_def add_lock_set)
  ultimately show ?thesis using run unfolding open_ok_def by simp
qed

lemma txn_ok_ids: "txn_ok db t \<Longrightarrow> n \<in> vr_id ` set (added_events (tn_writes t)) \<Longrightarrow> n \<le> db_event_seq db"
  by (auto simp: txn_ok_def open_ok_def split: option.splits)

lemma tx_send_inv:
  assumes inv: "ov_inv s" and send: "tx_send i s = Some s'"
  shows "ov_inv s'"
proof -
  let ?t = "ov_txns s ! i"
  from send have i: "i < length (ov_txns s)" and result: "tn_result ?t = None"
    by (auto simp: tx_send_def tx_open_def split: if_splits)
  from ov_inv_nth [OF inv i] result obtain rows where ok: "open_ok (ov_db s) ?t rows" by (auto simp: txn_ok_def)
  from send obtain q k where sc: "tn_script ?t = Send q k"
    by (auto simp: tx_send_def Let_def split: if_splits script.splits)
  let ?v = "fold apply_write (tn_writes ?t) (ov_db s)" let ?l = "locks_row q ?v"
  have free: "\<And>x. ?l = Some x \<Longrightarrow> \<not> held_by_other i x s"
    using send sc by (auto simp: tx_send_def Let_def tx_view_def split: if_splits option.splits)
  show ?thesis
  proof (cases "reply q ?v")
    case (Inl e)
    with send sc have "s' = set_txn i (close_txn (Inl e) ?t) (s\<lparr>ov_db := draw q (ov_db s)\<rparr>)"
      by (auto simp: tx_send_def Let_def tx_view_def split: if_splits option.splits)
    with ov_inv_close [OF inv i same_rows_draw, of "Inl e"] show ?thesis by simp
  next
    case (Inr r)
    obtain a ws where r: "r = (a, ws)" by fastforce
    let ?t' = "?t\<lparr>tn_script := k a, tn_writes := tn_writes ?t @ ws, tn_locks := add_lock ?l (tn_locks ?t)\<rparr>"
    have s': "s' = set_txn i ?t' (s\<lparr>ov_db := draw q (ov_db s)\<rparr>)"
      using send sc Inr r by (auto simp: tx_send_def Let_def tx_view_def split: if_splits option.splits)
    note db = ov_inv_db [OF inv]
    have new: "\<forall>e\<in>set (added_events ws). vr_id e = db_event_seq (ov_db s) + 1"
      using reply_writes(2) [OF Inr [unfolded r]] ok sc by (auto simp: open_ok_def sql_fits_def)
    show ?thesis
      unfolding s'
    proof (rule ov_inv_set [OF inv i])
      show "ov_db_ok (draw q (ov_db s))" using same_rows_draw db by (rule ov_db_ok_same)
      show "txn_ok (draw q (ov_db s)) ?t'"
        using open_ok_send [OF ok sc db Inr [unfolded r]] result by (auto simp: txn_ok_def)
      fix j assume j: "j < length (ov_txns s)" "j \<noteq> i"
      have p: "pair_ok ?t (ov_txns s ! j)" using ov_inv_pair [OF inv i j(1)] j(2) by simp
      have tj: "txn_ok (ov_db s) (ov_txns s ! j)" using inv j(1) by (rule ov_inv_nth)
      have "\<And>x. ?l = Some x \<Longrightarrow> x \<notin> set (tn_locks (ov_txns s ! j))"
        using free j by (auto simp: held_by_other_def)
      moreover have "vr_id e \<notin> vr_id ` set (added_events (tn_writes (ov_txns s ! j)))" if "e \<in> set (added_events ws)" for e
        using new that txn_ok_ids [OF tj, of "vr_id e"] by auto
      ultimately have "pair_ok ?t' (ov_txns s ! j)"
        using p result by (auto simp: pair_ok_def result_ids_def add_lock_set)
      then show "txn_ok (draw q (ov_db s)) (ov_txns s ! j) \<and> pair_ok ?t' (ov_txns s ! j)"
        using txn_ok_same [OF same_rows_draw tj] by blast
    qed
  qed
qed

section \<open>Ends\<close>

lemma open_ok_commit:
  assumes "open_ok db t rows" "tn_script t = Finish (Inr (Commit a))"
  shows "good rows (tn_writes t)" "answer_fits (tn_request t) (tn_writes t) a"
  using assms by (simp_all add: open_ok_def)

lemma commit_db_ok:
  assumes "open_ok db t rows" "tn_script t = Finish (Inr (Commit a))" "ov_db_ok db"
  shows "ov_db_ok (fold apply_write (tn_writes t) db)"
proof -
  let ?es = "added_events (tn_writes t)"
  have sorted: "sorted_wrt (<) (map vr_id ?es)" and
    es: "\<And>e. e \<in> set ?es \<Longrightarrow> 0 < vr_id e \<and> vr_id e \<le> db_event_seq db \<and> vr_id e \<notin> event_ids db \<and>
      (\<forall>e'\<in>set (db_sync_events db). key_of e' = key_of e \<longrightarrow> vr_id e' < vr_id e)"
    using assms(1) by (auto simp: open_ok_def)
  have "pg_data_ok (fold apply_write (tn_writes t) db)"
    using open_ok_commit(1) [OF assms(1,2)] assms(1,3) by (auto simp: ov_db_ok_def open_ok_def intro: good_data)
  moreover have "distinct (map vr_id (db_sync_events db @ ?es))"
  proof -
    have "distinct (map vr_id ?es)" using sorted strict_sorted_iff by blast
    moreover have "event_ids db \<inter> vr_id ` set ?es = {}" using es by blast
    moreover have "distinct (map vr_id (db_sync_events db))" using assms(3) by (simp add: ov_db_ok_def)
    ultimately show ?thesis by (simp add: event_ids_def)
  qed
  moreover have "sorted_wrt (<) (map vr_id (filter (\<lambda>e. key_of e = k) (db_sync_events db @ ?es)))" for k
  proof -
    have "sorted_wrt (\<lambda>x y. vr_id x < vr_id y) (filter (\<lambda>e. key_of e = k) ?es)"
      by (rule sorted_wrt_filter) (use sorted in \<open>simp add: sorted_wrt_map\<close>)
    then show ?thesis using assms(3) es by (auto simp: ov_db_ok_def sorted_wrt_append sorted_wrt_map)
  qed
  ultimately show ?thesis using assms(3) es by (auto simp: ov_db_ok_def)
qed

text \<open>What another transaction knows of its own rows is not touched by the commit.\<close>

lemma open_ok_other_commit:
  assumes "open_ok db t rows" "open_ok db t' rows'" "pair_ok t t'"
  shows "open_ok (fold apply_write (tn_writes t) db) t' rows'"
proof -
  let ?db = "fold apply_write (tn_writes t) db"
  have disj: "dom rows \<inter> dom rows' = {}" using assms by (auto simp: open_ok_def pair_ok_def)
  have "row_at k ?db = row_at k db" if "k \<in> dom rows'" for k
    using assms(1) disj that by (intro row_at_other [where K = "dom rows"]) (auto simp: open_ok_def)
  then have "consistent rows' ?db" using assms(2) by (auto simp: open_ok_def consistent_def domI)
  moreover have "key_of e' \<noteq> key_of e" if "e \<in> set (added_events (tn_writes t'))" "e' \<in> set (added_events (tn_writes t))" for e e'
    using assms(1,2) disj that unfolding open_ok_def by (metis disjoint_iff)
  moreover have "vr_id e \<notin> vr_id ` set (added_events (tn_writes t))" if "e \<in> set (added_events (tn_writes t'))" for e
    using assms(3) that by (auto simp: pair_ok_def)
  ultimately show ?thesis using assms(2) unfolding open_ok_def by auto
qed

lemma txn_ok_other_commit:
  assumes "open_ok db t rows" "txn_ok db t'" "pair_ok t t'"
  shows "txn_ok (fold apply_write (tn_writes t) db) t'"
proof (cases "tn_result t'")
  case None
  with assms(2) obtain rows' where "open_ok db t' rows'" by (auto simp: txn_ok_def)
  with None open_ok_other_commit [OF assms(1) this assms(3)] show ?thesis by (auto simp: txn_ok_def)
next
  case (Some r)
  with assms(2) show ?thesis by (fastforce simp: txn_ok_def outcome_ok_def)
qed

lemma result_ids_in: "txn_ok db t \<Longrightarrow> result_ids t \<subseteq> event_ids db"
proof
  fix n assume "txn_ok db t" "n \<in> result_ids t"
  then obtain a where "tn_result t = Some (Inr (Outcome a))" "n = oc_EventID a" "n \<noteq> 0"
    by (auto simp: result_ids_def split: option.splits sum.splits tx_result.splits)
  with \<open>txn_ok db t\<close> show "n \<in> event_ids db"
    by (auto simp: txn_ok_def outcome_ok_def no_write_def event_ids_def) (metis imageI)
qed

lemma commit_result:
  assumes "answer_fits q ws a"
  shows "outcome_ok (fold apply_write ws db) q a"
    and "tn_result t = Some (Inr a) \<Longrightarrow> result_ids t \<subseteq> vr_id ` set (added_events ws)"
proof -
  show "outcome_ok (fold apply_write ws db) q a"
    using assms by (cases a) (fastforce simp: outcome_ok_def outcome_fits_def added_events_set)+
  show "result_ids t \<subseteq> vr_id ` set (added_events ws)" if "tn_result t = Some (Inr a)"
  proof (cases a)
    case (Outcome w)
    with assms have "oc_EventID w = 0 \<or> (\<exists>e\<in>set (added_events ws). vr_id e = oc_EventID w)"
      by (auto simp: outcome_fits_def no_write_def added_events_set)
    with Outcome that show ?thesis by (auto simp: result_ids_def) (metis imageI)
  qed (use that in \<open>simp add: result_ids_def\<close>)
qed

lemma tx_finish_inv:
  assumes inv: "ov_inv s" and finish: "tx_finish i s = Some s'"
  shows "ov_inv s'"
proof -
  let ?t = "ov_txns s ! i"
  from finish have i: "i < length (ov_txns s)" and result: "tn_result ?t = None"
    by (auto simp: tx_finish_def tx_open_def split: if_splits)
  from ov_inv_nth [OF inv i] result obtain rows where ok: "open_ok (ov_db s) ?t rows" by (auto simp: txn_ok_def)
  have same: "same_rows (ov_db s) (ov_db s)" using pg_data_ok_conflicts by (simp add: same_rows_def)
  from finish obtain e where sc: "tn_script ?t = Finish e"
    by (auto simp: tx_finish_def Let_def split: if_splits script.splits)
  consider (err) x where "e = Inl x" | (commit) a where "e = Inr (Commit a)" | (leave) a where "e = Inr (Leave a)"
    by (cases e; cases "projr e") auto
  then show ?thesis
  proof cases
    case err
    with finish sc ov_inv_close [OF inv i same, of "Inl x"] show ?thesis
      by (auto simp: tx_finish_def Let_def split: if_splits)
  next
    case leave
    with ok sc have "answer_fits (tn_request ?t) [] a" by (simp add: open_ok_def)
    then have "a = Outcome w \<Longrightarrow> no_write w" for w by (auto simp: outcome_fits_def)
    with leave finish sc ov_inv_close [OF inv i same, of "Inr a"] show ?thesis
      by (auto simp: tx_finish_def Let_def split: if_splits)
  next
    case commit
    let ?db = "fold apply_write (tn_writes ?t) (ov_db s)"
    note sc' = sc [unfolded commit]
    note answer = open_ok_commit(2) [OF ok sc']
    from finish sc' have s': "s' = set_txn i (close_txn (Inr a) ?t) (s\<lparr>ov_db := ?db\<rparr>)"
      by (auto simp: tx_finish_def Let_def tx_view_def split: if_splits)
    show ?thesis
      unfolding s'
    proof (rule ov_inv_set [OF inv i commit_db_ok [OF ok sc' ov_inv_db [OF inv]]])
      show "txn_ok ?db (close_txn (Inr a) ?t)" using commit_result(1) [OF answer] by (simp add: txn_ok_def)
      fix j assume j: "j < length (ov_txns s)" "j \<noteq> i"
      have p: "pair_ok ?t (ov_txns s ! j)" using ov_inv_pair [OF inv i j(1)] j(2) by simp
      have tj: "txn_ok (ov_db s) (ov_txns s ! j)" using inv j(1) by (rule ov_inv_nth)
      have "vr_id ` set (added_events (tn_writes ?t)) \<inter> event_ids (ov_db s) = {}"
        using ok by (auto simp: open_ok_def)
      then have "pair_ok (close_txn (Inr a) ?t) (ov_txns s ! j)"
        using result_ids_in [OF tj] commit_result(2) [OF answer, of "close_txn (Inr a) ?t"] by (auto simp: pair_ok_def)
      with txn_ok_other_commit [OF ok tj p]
      show "txn_ok ?db (ov_txns s ! j) \<and> pair_ok (close_txn (Inr a) ?t) (ov_txns s ! j)" by simp
    qed
  qed
qed

section \<open>Reachable states\<close>

lemma tx_begin_inv:
  assumes "ov_inv s" "request_ok req" "jsonb_ok env"
  shows "ov_inv (tx_begin env req s)"
proof -
  have "open_ok (ov_db s) (new_txn env req) (\<lambda>_. None)"
    using fits_request [OF assms(2,3)] by (simp add: open_ok_def new_txn_def consistent_def)
  then have "txn_ok (ov_db s) (new_txn env req)" by (auto simp: txn_ok_def new_txn_def)
  moreover have "pair_ok (new_txn env req) t" "pair_ok t (new_txn env req)" for t
    by (simp_all add: pair_ok_def new_txn_def result_ids_def)
  ultimately show ?thesis
    using assms(1) by (auto simp: ov_inv_def tx_begin_def nth_append less_Suc_eq)
qed

lemma tx_abort_inv: "ov_inv s \<Longrightarrow> ov_inv (tx_abort i s)"
  using ov_inv_close [of s i "draw SelectLive (ov_db s)" "Inl ErrDatabase", OF _ _ same_rows_draw]
  by (simp add: tx_abort_def tx_open_def)

lemma ov_inv_faults: "ov_inv s \<Longrightarrow> db_faults (ov_db s) = []"
  by (simp add: ov_inv_def ov_db_ok_def)

lemma ov_step_inv: "ov_step s t \<Longrightarrow> ov_inv s \<Longrightarrow> ov_inv t"
proof (induction rule: ov_step.induct)
  case (ov_begin env req s)
  then show ?case using tx_begin_inv by blast
next
  case (ov_send i s t)
  then show ?case using tx_send_inv by blast
next
  case (ov_finish i s t)
  then show ?case using tx_finish_inv by blast
next
  case (ov_abort s i)
  then show ?case using tx_abort_inv by blast
qed (rule ov_inv_same; simp add: same_rows_statements ov_inv_faults)+

lemma ov_start_inv: "ov_inv \<lparr>ov_db = empty_db [], ov_txns = []\<rparr>"
proof -
  have "pg_data_ok (empty_db [])" using pg_inv_init [of "[]"] by (simp add: pg_inv_parts)
  then show ?thesis by (simp add: ov_inv_def ov_db_ok_def event_ids_def empty_db_def)
qed

lemma ov_reach_inv: "ov_reach s \<Longrightarrow> ov_inv s"
  by (induction rule: ov_reach.induct) (auto intro: ov_start_inv ov_step_inv)

end
