(* ===== verification/PgReach.thy ===== *)
theory PgReach
  imports PgWrites
begin

text \<open>
  The PostgreSQL stores as a transition system: every operation keeps the invariant, whatever statements
  the database fails; the contract of the optimistic lock.
\<close>

section \<open>Preservation of the invariant\<close>

lemma stmt_inv: "(\<And>t. pg_inv t \<Longrightarrow> pg_inv (snd (f t))) \<Longrightarrow> pg_inv s \<Longrightarrow> pg_inv (snd (stmt f s))"
  by (rule stmt_cases [of f s]) simp_all

lemma pg_entity_verdict_rev:
  "pg_entity_verdict s c = VWrite r \<Longrightarrow> r = pg_entity_rev (c_EntityType c, c_EntityID c) s + 1"
  by (auto simp: pg_entity_verdict_def lock_verdict_VWrite_iff pg_entity_rev_def split: option.splits)

lemma pg_book_verdict_rev: "pg_book_verdict s c = VWrite r \<Longrightarrow> r = pg_book_rev (c_EntityID c) s + 1"
  by (auto simp: pg_book_verdict_def lock_verdict_VWrite_iff pg_book_rev_def split: option.splits)

lemma pg_entity_tx_ops: "runs_clean (pg_entity_tx env c dev)" "goes_up (pg_entity_tx env c dev)"
  unfolding pg_entity_tx_def
  by (auto intro!: clean_ops runs_clean_query split: option.split)
     (auto intro!: up_ops split: option.split)

lemma pg_book_tx_ops: "runs_clean (pg_book_tx env c dev)" "goes_up (pg_book_tx env c dev)"
  unfolding pg_book_tx_def
  by (auto intro!: clean_ops runs_clean_query simp: book_row_of_def split: option.split)
     (auto intro!: up_ops split: option.split)

lemma pg_ApplyChange_inv:
  assumes "jsonb_ok env" "c_EntityType c \<noteq> EntityBook" "pg_inv s"
  shows "pg_inv (snd (pg_ApplyChange env c dev s))"
  unfolding pg_ApplyChange_def
proof (rule in_tx_inv [OF _ _ assms(3)])
  show "runs_clean (pg_entity_tx env c dev)" "goes_up (pg_entity_tx env c dev)" by (rule pg_entity_tx_ops)+
  fix a u assume "pg_entity_tx env c dev (clean s) = (Inr (Commit a), u)"
  then show "pg_inv u"
    using assms pg_with_conflict_inv [of "clean s"]
    by (auto simp: pg_entity_tx_run Let_def written_entity_row_def normalize_jsonb
        dest: pg_entity_verdict_rev split: verdict.splits intro!: pg_entity_write_inv)
qed

lemma written_row_content:
  assumes "jsonb_ok env" "written_book_row env c old r = Some row" "c_Op c \<noteq> OpProgress"
  shows "br_revision row = r \<and> (br_deleted row \<longleftrightarrow> c_Op c = OpDelete) \<and>
    (\<not> br_deleted row \<longrightarrow> row_content row = book_content (jsonb env (c_Payload c)))"
  using assms payload_columns_content [OF assms(1)]
  by (auto simp: written_book_row_def columns_shape split: if_splits)

lemma pg_ApplyBookChange_inv:
  assumes "jsonb_ok env" "c_EntityType c = EntityBook" "pg_inv s"
  shows "pg_inv (snd (pg_ApplyBookChange env c src dev s))"
  unfolding pg_ApplyBookChange_def
proof (rule in_tx_inv [OF _ _ assms(3)])
  show "runs_clean (pg_book_tx env c dev)" "goes_up (pg_book_tx env c dev)" by (rule pg_book_tx_ops)+
  fix a u assume run: "pg_book_tx env c dev (clean s) = (Inr (Commit a), u)"
  have s': "pg_inv (clean s)" using assms(3) by simp
  show "pg_inv u"
  proof (cases "c_Op c = OpProgress")
    case True
    have "row_content (progressed c r) = (row_content r)\<lparr>bp_CurrentPage :=
        bp_CurrentPage (parseBookPayload (jsonb env (c_Payload c)))\<rparr>" for r
      using assms(1) by (simp add: row_content_def progressed_def jsonb_ok_def)
    moreover have "br_revision (progressed c r) = br_revision r" "br_deleted (progressed c r) = br_deleted r" for r
      by (simp_all add: progressed_def)
    ultimately show ?thesis
      using True run s' assms(2) pg_progress_inv [OF s']
      by (auto simp: pg_progress_tx_run split: option.splits if_splits)
  next
    case False
    then show ?thesis
      using run s' assms(2) pg_with_conflict_inv [OF s']
      by (auto simp: pg_book_tx_run Let_def dest!: written_row_content [OF assms(1)] pg_book_verdict_rev
          split: verdict.splits option.splits intro!: pg_book_write_inv)
  qed
qed

lemma pg_ForceUpsert_inv:
  assumes "jsonb_ok env" "ty \<noteq> EntityBook" "pg_inv s"
  shows "pg_inv (snd (pg_ForceUpsert env ty i p dev s))"
  unfolding pg_ForceUpsert_def
proof (rule in_tx_inv [OF _ _ assms(3)])
  show "runs_clean (pg_force_tx env ty i p dev)" "goes_up (pg_force_tx env ty i p dev)"
    unfolding pg_force_tx_def
    by (auto intro!: clean_ops clean_stmtI simp: Let_def) (auto intro!: up_ops up_stmtI simp: Let_def)
  fix a u assume run: "pg_force_tx env ty i p dev (clean s) = (Inr (Commit a), u)"
  let ?r = "pg_entity_rev (ty, i) (clean s) + 1"
  let ?row = "\<lparr>er_revision = ?r, er_deleted = False, er_payload = jsonb env (normalizePayload p)\<rparr>"
  obtain cid rs where cid: "serverChangeID env (put_entity_row ty i ?row (clean s)) =
      (Inr cid, (put_entity_row ty i ?row (clean s))\<lparr>db_random := rs\<rparr>)"
    using serverChangeID_run by blast
  have "(case db_entities (clean s) (ty, i) of None \<Rightarrow> 1 | Some r \<Rightarrow> er_revision r + 1) = ?r"
    by (simp add: pg_entity_rev_def split: option.split)
  with run cid have "u = add_event (event_row_of env cid ty i ?r dev OpUpsert p StatusDone (clean s))
      (put_entity_row ty i ?row ((clean s)\<lparr>db_random := rs\<rparr>))"
    by (simp add: pg_force_tx_def Let_def bindE_Inr insertEvent_run commitOutcome_def)
  moreover have "pg_entity_rev k ((clean s)\<lparr>db_random := rs\<rparr>) = pg_entity_rev k (clean s)" for k
    by (simp add: pg_entity_rev_def)
  moreover have "pg_inv ((clean s)\<lparr>db_random := rs\<rparr>)" using assms(3) by simp
  ultimately show "pg_inv u"
    using assms by (auto simp: normalize_jsonb simp del: random_fields(4) intro!: pg_entity_write_inv)
qed

lemma pg_ForceUpsertBook_inv:
  assumes "jsonb_ok env" "pg_inv s"
  shows "pg_inv (snd (pg_ForceUpsertBook env u p dev s))"
  unfolding pg_ForceUpsertBook_def
proof (rule in_tx_inv [OF _ _ assms(2)])
  show "runs_clean (pg_force_book_tx env u p dev)" "goes_up (pg_force_book_tx env u p dev)"
    unfolding pg_force_book_tx_def by (auto intro!: clean_ops) (auto intro!: up_ops)
  fix a t assume run: "pg_force_book_tx env u p dev (clean s) = (Inr (Commit a), t)"
  show "pg_inv t"
    by (rule upsert_event_run [OF clean_faults,
          of "payload_columns env (parseBookPayload p)" u env dev p "\<lambda>r e. commitOutcome (accepted r e)" s])
      (use run assms payload_columns_content [OF assms(1), of p] columns_shape(2) in
        \<open>auto simp: pg_force_book_tx_def commitOutcome_def intro!: upserted_inv\<close>)
qed

lemma upserted_faults [simp]: "db_faults (upserted env cid u f dev p s) = db_faults s"
  by (simp add: upserted_def)

lemma pg_restore_items_inv:
  assumes "jsonb_ok env"
  shows "pg_inv s \<Longrightarrow> db_faults s = [] \<Longrightarrow> pg_restore_items env dev its m s = (Inr m', t) \<Longrightarrow>
    pg_inv t \<and> db_faults t = []"
proof (induction its arbitrary: m s)
  case (Cons it its)
  show ?case
  proof (rule upsert_event_run [OF Cons.prems(2), of "book_columns env (it_Name it) (it_CurrentPage it)
      (it_CoverHash it) (normalizePayload (it_Files it))" "it_UUID it" env dev "snapshotItemPayload it"
      "\<lambda>r _. pg_restore_items env dev its (if r > m then r else m)"], goal_cases)
    case (2 f cid rs)
    let ?t = "upserted env cid (it_UUID it) f dev (snapshotItemPayload it) (s\<lparr>db_random := rs\<rparr>)"
    have "pg_inv ?t"
      using 2(1) Cons.prems(1) item_columns_content [OF assms, of it] columns_shape(1)
      by (intro upserted_inv) auto
    with 2(2) Cons.prems Cons.IH [of ?t] show ?case by auto
  qed (use Cons.prems in auto)
qed simp

definition deleted_event :: "pg_env \<Rightarrow> string \<Rightarrow> string \<Rightarrow> string \<Rightarrow> pg \<Rightarrow> pg" where
  "deleted_event env cid u dev s =
     (case book_row_of u s of None \<Rightarrow> s | Some old \<Rightarrow>
        add_event (event_row_of env cid EntityBook u (br_revision old + 1) dev OpDelete None StatusDone s)
          (put_book_row u (old\<lparr>br_revision := br_revision old + 1, br_deleted := True\<rparr>) s))"

lemma pg_restore_delete_run:
  assumes "db_faults s = []" "book_row_of u s = Some old"
  obtains cid rs where "pg_restore_deletes env dev (u # us) m s =
    pg_restore_deletes env dev us (max (br_revision old + 1) m) (deleted_event env cid u dev (s\<lparr>db_random := rs\<rparr>))"
proof -
  let ?t = "put_book_row u (old\<lparr>br_revision := br_revision old + 1, br_deleted := True\<rparr>) s"
  obtain cid rs where "serverChangeID env ?t = (Inr cid, ?t\<lparr>db_random := rs\<rparr>)"
    using serverChangeID_run by blast
  with assms have "pg_restore_deletes env dev (u # us) m s =
    pg_restore_deletes env dev us (max (br_revision old + 1) m) (deleted_event env cid u dev (s\<lparr>db_random := rs\<rparr>))"
    by (simp add: bindE_Inr insertEvent_run deleted_event_def max_def)
  then show ?thesis by (rule that)
qed

lemma deleted_event_inv:
  assumes "pg_inv s"
  shows "pg_inv (deleted_event env cid u dev s)"
proof (cases "book_row_of u s")
  case (Some old)
  then have "pg_book_rev u s = br_revision old" by (simp add: pg_book_rev_def)
  with assms Some show ?thesis
    by (auto simp: deleted_event_def intro!: pg_book_write_inv)
qed (use assms in \<open>simp add: deleted_event_def\<close>)

lemma pg_restore_deletes_inv:
  "pg_inv s \<Longrightarrow> db_faults s = [] \<Longrightarrow> pg_restore_deletes env dev us m s = (Inr m', t) \<Longrightarrow> pg_inv t"
proof (induction us arbitrary: m s)
  case (Cons u us)
  show ?case
  proof (cases "book_row_of u s")
    case None
    with Cons.prems show ?thesis by (simp add: bindE_Inl)
  next
    case (Some old)
    then obtain cid rs where "pg_restore_deletes env dev (u # us) m s =
        pg_restore_deletes env dev us (max (br_revision old + 1) m) (deleted_event env cid u dev (s\<lparr>db_random := rs\<rparr>))"
      using pg_restore_delete_run [OF Cons.prems(2) Some] by blast
    moreover have "db_faults (deleted_event env cid u dev (s\<lparr>db_random := rs\<rparr>)) = []"
      using Cons.prems(2) Some by (simp add: deleted_event_def)
    moreover have "pg_inv (deleted_event env cid u dev (s\<lparr>db_random := rs\<rparr>))"
      using Cons.prems(1) deleted_event_inv by simp
    ultimately show ?thesis using Cons.prems(3) Cons.IH by (simp only:)
  qed
qed simp

lemma pg_restore_tx_run:
  assumes "pg_restore_tx env p dev s = (Inr b, t)" "db_faults s = []"
  shows "\<exists>its m m' s1. json_Unmarshal dec_items None p = (its, True) \<and>
    pg_restore_items env dev (slice_list its) 0 s = (Inr m, s1) \<and>
    pg_restore_deletes env dev
      (pe_iter env (filter (\<lambda>u. u \<notin> set (map it_UUID (slice_list its))) (live_rows s))) m s1 = (Inr m', t) \<and>
    b = Commit \<lparr>rr_Restored = int (length (slice_list its)), rr_Revision = m'\<rparr>"
  using assms
  by (cases "json_Unmarshal dec_items None p")
    (auto simp: pg_restore_tx_def Let_def bindE_Inr bindE_eq_Inr_iff split: if_splits)

lemma pg_restore_tx_ops:
  "runs_clean (pg_restore_tx env p dev)" "goes_up (pg_restore_tx env p dev)"
  by (auto simp: pg_restore_tx_def Let_def live_rows_def intro!: clean_ops runs_clean_query split: prod.split)
     (auto simp: pg_restore_tx_def Let_def intro!: up_ops split: prod.split)

lemma pg_restore_tx_inv:
  assumes "jsonb_ok env" "pg_inv s" "db_faults s = []" "pg_restore_tx env p dev s = (Inr b, t)"
  shows "pg_inv t"
proof -
  from pg_restore_tx_run [OF assms(4,3)] obtain its m us m' s1 where
    items: "pg_restore_items env dev its 0 s = (Inr m, s1)" and
    deletes: "pg_restore_deletes env dev us m s1 = (Inr m', t)"
    by (elim exE conjE) (rule that)
  from pg_restore_items_inv [OF assms(1-3) items] have "pg_inv s1" "db_faults s1 = []" by simp_all
  then show ?thesis using deletes by (rule pg_restore_deletes_inv)
qed

lemma pg_RestoreLibrary_inv:
  assumes "jsonb_ok env" "pg_inv s"
  shows "pg_inv (snd (pg_RestoreLibrary env p dev s))"
  unfolding pg_RestoreLibrary_def
proof (rule in_tx_inv [OF pg_restore_tx_ops assms(2)])
  have s: "pg_inv (clean s)" using assms(2) by simp
  fix a u assume "pg_restore_tx env p dev (clean s) = (Inr (Commit a), u)"
  then show "pg_inv u" by (rule pg_restore_tx_inv [OF assms(1) s clean_faults])
qed

lemma pg_inv_tables:
  assumes "pg_inv s" "db_sync_events t = db_sync_events s" "db_event_seq t = db_event_seq s"
    "db_current_book t = db_current_book s" "db_entities t = db_entities s"
    "increasing (map kr_id (db_conflicts t)) (db_conflict_seq t)"
    "\<forall>k\<in>set (db_conflicts t). kr_event_id k \<in> vr_id ` set (db_sync_events t) \<and>
       (kr_status k = ConflictOpen \<or> kr_status k = ConflictResolved)"
    "increasing (map bh_ID (db_book_history t)) (db_history_seq t)"
  shows "pg_inv t"
proof -
  have "pg_log t = pg_log s" "pg_library t = pg_library s" "pg_entities t = pg_entities s"
    "book_row_of u t = book_row_of u s" for u
    using assms(2,4,5) by (simp_all add: pg_log_def pg_library_def pg_entities_def book_row_of_def fun_eq_iff)
  with assms show ?thesis
    by (auto simp: pg_inv_def pg_ids_ok_def pg_status_ok_def pg_rows_ok_def pg_log_ok_def pg_book_rev_def
        pg_entity_rev_def simp del: split_paired_All)
qed

lemma pg_inv_conflicts: "pg_inv s \<Longrightarrow> increasing (map kr_id (db_conflicts s)) (db_conflict_seq s) \<and>
    (\<forall>k\<in>set (db_conflicts s). kr_event_id k \<in> vr_id ` set (db_sync_events s) \<and>
       (kr_status k = ConflictOpen \<or> kr_status k = ConflictResolved)) \<and>
    increasing (map bh_ID (db_book_history s)) (db_history_seq s)"
  by (simp add: pg_inv_def pg_ids_ok_def pg_status_ok_def)

lemma pg_inv_other:
  "pg_inv s \<Longrightarrow> pg_inv (s\<lparr>db_library_meta := v\<rparr>)" "pg_inv s \<Longrightarrow> pg_inv (s\<lparr>db_sync_cursors := cu\<rparr>)"
  using pg_inv_conflicts [of s] pg_inv_tables [of s] by simp_all

lemma pg_inv_other_tables:
  "pg_inv s \<Longrightarrow> pg_inv (s\<lparr>db_faults := fs, db_random := rs, db_devices := ds, db_book_upload := bu,
     db_book_upload_file := bf, db_file_meta := fm\<rparr>)"
  using pg_inv_conflicts [of s] pg_inv_tables [of s] by simp

lemma pg_InsertSnapshot_inv: "pg_inv s \<Longrightarrow> pg_inv (snd (pg_InsertSnapshot env ty tag p s))"
  unfolding pg_InsertSnapshot_def
proof (rule stmt_inv)
  fix t assume "pg_inv t"
  then show "pg_inv (snd (if p = None then (Inl ErrDatabase, t) else let ident = db_history_seq t + 1 in
      (Inr ident, t\<lparr>db_history_seq := ident, db_book_history := db_book_history t @
         [\<lparr>bh_ID = ident, bh_OpType = ty, bh_Tag = tag, bh_Payload = jsonb env p,
           bh_CreatedAt = pe_clock env (HistoryStamp ident)\<rparr>]\<rparr>)))"
    using increasing_snoc [of "map bh_ID (db_book_history t)" "db_history_seq t"]
      pg_inv_conflicts [of t]
    by (auto simp: Let_def intro!: pg_inv_tables [of t])
qed

lemma pg_UpdateCursor_inv: "pg_inv s \<Longrightarrow> pg_inv (snd (pg_UpdateCursor dev i s))"
  unfolding pg_UpdateCursor_def exec_def
  by (rule stmt_inv) (simp_all add: pg_inv_other)

lemma pg_SetBookVersion_inv: "pg_inv s \<Longrightarrow> pg_inv (snd (pg_SetBookVersion v s))"
  unfolding pg_SetBookVersion_def exec_def
  by (rule stmt_inv) (simp_all add: pg_inv_other)

lemma resolve_row_fields [simp]:
  "kr_id (resolve_row i dev r) = kr_id r" "kr_event_id (resolve_row i dev r) = kr_event_id r"
  "kr_status r = ConflictOpen \<or> kr_status r = ConflictResolved \<Longrightarrow>
     kr_status (resolve_row i dev r) = ConflictOpen \<or> kr_status (resolve_row i dev r) = ConflictResolved"
  by (auto simp: resolve_row_def)

lemma pg_MarkResolved_inv: "pg_inv s \<Longrightarrow> pg_inv (snd (pg_MarkResolved i dev s))"
  unfolding pg_MarkResolved_def
proof (rule stmt_inv)
  fix t assume t: "pg_inv t"
  let ?u = "t\<lparr>db_conflicts := map (resolve_row i dev) (db_conflicts t)\<rparr>"
  have "map kr_id (map (resolve_row i dev) (db_conflicts t)) = map kr_id (db_conflicts t)" by simp
  with pg_inv_conflicts [OF t] have "pg_inv ?u" using pg_inv_tables [OF t, of ?u] by (simp del: map_map)
  then show "pg_inv (snd (if \<exists>r\<in>set (db_conflicts t). kr_id r = i \<and> kr_status r = ConflictOpen
      then (Inr (), ?u) else (Inl ErrConflictResolved, t)))"
    using t by simp
qed

section \<open>Steps\<close>

text \<open>
  One step is one operation of a store, with any environment, or something else: the tables of devices,
  upload tasks and files and the process's randomness may change in any way, and the database may decide
  anew which statements it will fail.
\<close>

inductive pg_step :: "pg \<Rightarrow> pg \<Rightarrow> bool" where
  pg_entity: "jsonb_ok env \<Longrightarrow> c_EntityType c \<noteq> EntityBook \<Longrightarrow> pg_step s (snd (pg_ApplyChange env c dev s))"
| pg_book: "jsonb_ok env \<Longrightarrow> c_EntityType c = EntityBook \<Longrightarrow> pg_step s (snd (pg_ApplyBookChange env c src dev s))"
| pg_force: "jsonb_ok env \<Longrightarrow> ty \<noteq> EntityBook \<Longrightarrow> pg_step s (snd (pg_ForceUpsert env ty i p dev s))"
| pg_force_book: "jsonb_ok env \<Longrightarrow> pg_step s (snd (pg_ForceUpsertBook env u p dev s))"
| pg_restore: "jsonb_ok env \<Longrightarrow> pg_step s (snd (pg_RestoreLibrary env p dev s))"
| pg_history: "pg_step s (snd (pg_InsertSnapshot env opType tag p s))"
| pg_cursor: "pg_step s (snd (pg_UpdateCursor dev i s))"
| pg_resolved: "pg_step s (snd (pg_MarkResolved i dev s))"
| pg_version: "pg_step s (snd (pg_SetBookVersion v s))"
| pg_other: "pg_step s (s\<lparr>db_faults := fs, db_random := rs, db_devices := ds, db_book_upload := bu,
    db_book_upload_file := bf, db_file_meta := fm\<rparr>)"

inductive pg_reach :: "pg \<Rightarrow> bool" where
  pg_start: "pg_reach (empty_db fs)"
| pg_next: "pg_reach s \<Longrightarrow> pg_step s t \<Longrightarrow> pg_reach t"

lemma pg_step_inv: "pg_step s t \<Longrightarrow> pg_inv s \<Longrightarrow> pg_inv t"
  by (induction rule: pg_step.induct)
    (simp_all add: pg_ApplyChange_inv pg_ApplyBookChange_inv pg_ForceUpsert_inv pg_ForceUpsertBook_inv
      pg_RestoreLibrary_inv pg_InsertSnapshot_inv pg_UpdateCursor_inv pg_MarkResolved_inv pg_SetBookVersion_inv pg_inv_other_tables)

lemma pg_reach_inv: "pg_reach s \<Longrightarrow> pg_inv s"
  by (induction rule: pg_reach.induct) (auto intro: pg_inv_init pg_step_inv)

lemma pg_steps_reach: "pg_step\<^sup>*\<^sup>* s t \<Longrightarrow> pg_reach s \<Longrightarrow> pg_reach t"
  by (induction rule: rtranclp_induct) (auto intro: pg_next)

lemma pg_tx_up:
  "goes_up (pg_ApplyChange env c dev)" "goes_up (pg_ApplyBookChange env c src dev)"
  "goes_up (pg_ForceUpsert env ty i p dev)" "goes_up (pg_ForceUpsertBook env u p dev)"
  "goes_up (pg_RestoreLibrary env p dev)" "goes_up (pg_InsertSnapshot env ty tag p)"
  "goes_up (pg_UpdateCursor dev j)" "goes_up (pg_MarkResolved j dev)" "goes_up (pg_SetBookVersion v)"
  unfolding pg_ApplyChange_def pg_entity_tx_def pg_ApplyBookChange_def pg_book_tx_def pg_ForceUpsert_def
    pg_force_tx_def pg_ForceUpsertBook_def pg_force_book_tx_def pg_RestoreLibrary_def pg_InsertSnapshot_def
    pg_UpdateCursor_def pg_MarkResolved_def pg_SetBookVersion_def
  by (auto simp: Let_def only_up_def pg_restore_tx_ops intro!: goes_up_in_tx up_ops up_stmtI split: option.split)

lemma pg_step_up: "pg_step s t \<Longrightarrow> only_up s t"
  by (induction rule: pg_step.induct) (use pg_tx_up in \<open>auto simp: goes_up_def only_up_def\<close>)

lemma pg_steps_up: "pg_step\<^sup>*\<^sup>* s t \<Longrightarrow> only_up s t"
  by (induction rule: rtranclp_induct) (auto intro: only_up_trans pg_step_up)

end
