(* ===== verification/PgLock.thy ===== *)
theory PgLock
  imports PgReach
begin

text \<open>
  The contracts on the PostgreSQL stores: the optimistic lock for books and for entities, whatever
  statements the database fails, and the event feed while it fails none.
\<close>

section \<open>The optimistic lock\<close>

definition pg_current_book :: "change \<Rightarrow> pg \<Rightarrow> int option" where
  "pg_current_book c s = map_option br_revision (book_row_of (c_EntityID c) s)"

definition pg_current_entity :: "change \<Rightarrow> pg \<Rightarrow> int option" where
  "pg_current_entity c s = map_option er_revision (db_entities s (c_EntityType c, c_EntityID c))"

text \<open>Progress changes take no part in the lock.\<close>

definition locked_book_change :: "pg_env \<times> string \<times> string \<Rightarrow> change \<Rightarrow> bool" where
  "locked_book_change e c \<longleftrightarrow> jsonb_ok (fst e) \<and> c_EntityType c = EntityBook \<and> c_Op c \<noteq> OpProgress"

definition locked_entity_change :: "pg_env \<times> string \<Rightarrow> change \<Rightarrow> bool" where
  "locked_entity_change e c \<longleftrightarrow> jsonb_ok (fst e) \<and> c_EntityType c \<noteq> EntityBook"

definition pg_apply_book :: "pg_env \<times> string \<times> string \<Rightarrow> change \<Rightarrow> (pg, change_outcome) op" where
  "pg_apply_book e c = (case e of (env, src, dev) \<Rightarrow> pg_ApplyBookChange env c src dev)"

definition pg_apply_entity :: "pg_env \<times> string \<Rightarrow> change \<Rightarrow> (pg, change_outcome) op" where
  "pg_apply_entity e c = (case e of (env, dev) \<Rightarrow> pg_ApplyChange env c dev)"

lemma clean_views [simp]:
  "pg_seen (clean s) = pg_seen s" "pg_current_book c (clean s) = pg_current_book c s"
  "pg_current_entity c (clean s) = pg_current_entity c s"
  by (simp_all add: clean_def pg_seen_def pg_current_book_def pg_current_entity_def book_row_of_def)

lemma pg_seen_up: "only_up s t \<Longrightarrow> pg_seen s \<subseteq> pg_seen t"
  by (auto simp: only_up_def pg_seen_def)

lemma pg_revs_up:
  assumes "only_up s t" "pg_inv s" "pg_inv t"
  shows "pg_book_rev u s \<le> pg_book_rev u t" "fst k \<noteq> EntityBook \<Longrightarrow> pg_entity_rev k s \<le> pg_entity_rev k t"
proof -
  from assms(1) obtain es where es: "db_sync_events t = db_sync_events s @ es" by (auto simp: only_up_def)
  have len: "0 \<le> i \<Longrightarrow> 0 \<le> j \<Longrightarrow> upto_ids (nat j) = upto_ids (nat i) @ xs \<Longrightarrow> i \<le> j" for i j xs
    by (drule arg_cong [where f = length]) simp
  note nonneg = pg_rev_nonneg [OF assms(2)] pg_rev_nonneg [OF assms(3)]
  have "upto_ids (nat (pg_book_rev u t)) =
      upto_ids (nat (pg_book_rev u s)) @ map vr_revision (filter (writes_book u) es)"
    using assms(2,3) es by (auto simp: pg_inv_def pg_log_ok_def)
  with nonneg len show "pg_book_rev u s \<le> pg_book_rev u t" by blast
  show "pg_entity_rev k s \<le> pg_entity_rev k t" if "fst k \<noteq> EntityBook"
  proof -
    have "upto_ids (nat (pg_entity_rev k t)) =
        upto_ids (nat (pg_entity_rev k s)) @ map vr_revision (filter (writes_entity k) es)"
      using assms(2,3) es that by (cases k) (auto simp: pg_inv_def pg_log_ok_def)
    with nonneg len show ?thesis by blast
  qed
qed

lemma pg_current_up:
  assumes "only_up s t" "pg_inv s" "pg_inv t"
  shows "pg_current_book c s = Some r \<Longrightarrow> \<exists>q\<ge>r. pg_current_book c t = Some q"
    and "pg_current_entity c s = Some r \<Longrightarrow> \<exists>q\<ge>r. pg_current_entity c t = Some q"
proof -
  show "\<exists>q\<ge>r. pg_current_book c t = Some q" if "pg_current_book c s = Some r"
  proof -
    have "c_EntityID c \<in> dom (map_of (db_current_book s))"
      using that by (auto simp: pg_current_book_def book_row_of_def)
    then have "c_EntityID c \<in> dom (map_of (db_current_book t))" using assms(1) unfolding only_up_def by blast
    then show ?thesis using that pg_revs_up(1) [OF assms, of "c_EntityID c"]
      by (auto simp: pg_current_book_def pg_book_rev_def book_row_of_def)
  qed
  show "\<exists>q\<ge>r. pg_current_entity c t = Some q" if "pg_current_entity c s = Some r"
  proof -
    let ?k = "(c_EntityType c, c_EntityID c)"
    have "?k \<in> dom (db_entities s)" using that by (auto simp: pg_current_entity_def)
    moreover from this have "c_EntityType c \<noteq> EntityBook" using assms(2) by (auto simp: pg_inv_def pg_log_ok_def)
    moreover from calculation have "?k \<in> dom (db_entities t)" using assms(1) unfolding only_up_def by blast
    ultimately show ?thesis using that pg_revs_up(2) [OF assms, of ?k]
      by (auto simp: pg_current_entity_def pg_entity_rev_def)
  qed
qed

lemma accepted_kinds:
  "r \<noteq> 0 \<Longrightarrow> written (accepted r e)" "oc_Revision (accepted r e) = r" "i \<noteq> 0 \<Longrightarrow> conflicting (refused i)"
  by (simp_all add: written_def conflicting_def accepted_def refused_def no_outcome_def)

lemma pg_conflict_seq: "pg_inv s \<Longrightarrow> 0 \<le> db_conflict_seq s"
  by (simp add: pg_inv_def pg_ids_ok_def increasing_def)

lemma seen_after [simp]:
  "c_ChangeID c \<in> pg_seen (pg_with_conflict env c dev r s)"
  "c_ChangeID c \<in> pg_seen (add_event (change_event env c dev r st t) s)"
  by (simp_all add: pg_seen_def)

lemma current_after [simp]:
  "pg_current_book c (pg_with_conflict env d dev r s) = pg_current_book c s"
  "pg_current_entity c (pg_with_conflict env d dev r s) = pg_current_entity c s"
  "pg_current_book c (add_event e (put_book_row (c_EntityID c) row s)) = Some (br_revision row)"
  "pg_current_entity c (add_event e (put_entity_row (c_EntityType c) (c_EntityID c) en s)) = Some (er_revision en)"
  by (simp_all add: pg_current_book_def pg_current_entity_def)

text \<open>What a successful transaction has to answer and to leave behind.\<close>

definition decided ::
  "change \<Rightarrow> (change \<Rightarrow> pg \<Rightarrow> int option) \<Rightarrow> pg \<Rightarrow> change_outcome \<Rightarrow> pg \<Rightarrow> bool" where
  "decided c cur s w u \<longleftrightarrow>
     (case lock_verdict (c_ChangeID c \<in> pg_seen s) (cur c s) (c_Op c) (c_BaseRevision c) of
        VDuplicate \<Rightarrow> w = duplicate_outcome \<and> same_data s u
      | VNothing \<Rightarrow> w = accepted_outcome \<and> same_data s u
      | VReject \<Rightarrow> w = reject_outcome \<and> same_data s u
      | VConflict r \<Rightarrow> conflicting w \<and> c_ChangeID c \<in> pg_seen u \<and> cur c u = Some r
      | VWrite r \<Rightarrow> written w \<and> oc_Revision w = r \<and> c_ChangeID c \<in> pg_seen u \<and> cur c u = Some r)"

definition decides ::
  "change \<Rightarrow> (change \<Rightarrow> pg \<Rightarrow> int option) \<Rightarrow> (pg, change_outcome tx_end) op \<Rightarrow> bool" where
  "decides c cur body \<longleftrightarrow> (\<forall>s b u. pg_inv s \<longrightarrow> db_faults s = [] \<longrightarrow> body s = (Inr b, u) \<longrightarrow>
     (case b of Commit w \<Rightarrow> decided c cur s w u
      | Leave w \<Rightarrow> w = duplicate_outcome \<and> c_ChangeID c \<in> pg_seen s))"

lemma decidesD:
  "decides c cur body \<Longrightarrow> pg_inv s \<Longrightarrow> db_faults s = [] \<Longrightarrow> body s = (Inr b, u) \<Longrightarrow>
     (case b of Commit w \<Rightarrow> decided c cur s w u
      | Leave w \<Rightarrow> w = duplicate_outcome \<and> c_ChangeID c \<in> pg_seen s)"
  by (simp add: decides_def)

lemma entity_verdict:
  "lock_verdict (c_ChangeID c \<in> pg_seen s) (pg_current_entity c s) (c_Op c) (c_BaseRevision c) = pg_entity_verdict s c"
  by (simp add: pg_entity_verdict_def pg_current_entity_def)

lemma decided_entity:
  "decided c pg_current_entity s w u \<longleftrightarrow>
     (case pg_entity_verdict s c of
        VDuplicate \<Rightarrow> w = duplicate_outcome \<and> same_data s u
      | VNothing \<Rightarrow> w = accepted_outcome \<and> same_data s u
      | VReject \<Rightarrow> w = reject_outcome \<and> same_data s u
      | VConflict r \<Rightarrow> conflicting w \<and> c_ChangeID c \<in> pg_seen u \<and> pg_current_entity c u = Some r
      | VWrite r \<Rightarrow> written w \<and> oc_Revision w = r \<and> c_ChangeID c \<in> pg_seen u \<and> pg_current_entity c u = Some r)"
  by (simp only: decided_def entity_verdict)

lemma entity_decides: "decides c pg_current_entity (pg_entity_tx env c dev)"
  unfolding decides_def
proof (intro allI impI)
  fix s b u assume h: "pg_inv s" "db_faults s = []" "pg_entity_tx env c dev s = (Inr b, u)"
  have rev: "pg_entity_verdict s c = VWrite r \<Longrightarrow> r \<noteq> 0" for r
    using pg_rev_nonneg [OF h(1), of _ "(c_EntityType c, c_EntityID c)"] by (auto dest!: pg_entity_verdict_rev)
  have cur: "pg_entity_verdict s c = VConflict r \<Longrightarrow> pg_current_entity c s = Some r" for r
    by (auto simp: entity_verdict [symmetric] lock_verdict_def split: option.splits if_splits)
  have dup: "pg_entity_verdict s c = VDuplicate \<Longrightarrow> c_ChangeID c \<in> pg_seen s"
    by (auto simp: entity_verdict [symmetric] lock_verdict_def split: option.splits if_splits)
  show "case b of Commit w \<Rightarrow> decided c pg_current_entity s w u
      | Leave w \<Rightarrow> w = duplicate_outcome \<and> c_ChangeID c \<in> pg_seen s"
    using h rev cur dup pg_conflict_seq [OF h(1)]
    by (auto simp: pg_entity_tx_run Let_def accepted_kinds written_entity_row_def decided_entity
        split: verdict.splits)
qed

lemma book_verdict:
  "lock_verdict (c_ChangeID c \<in> pg_seen s) (pg_current_book c s) (c_Op c) (c_BaseRevision c) = pg_book_verdict s c"
  by (simp add: pg_book_verdict_def pg_current_book_def)

lemma decided_book:
  "decided c pg_current_book s w u \<longleftrightarrow>
     (case pg_book_verdict s c of
        VDuplicate \<Rightarrow> w = duplicate_outcome \<and> same_data s u
      | VNothing \<Rightarrow> w = accepted_outcome \<and> same_data s u
      | VReject \<Rightarrow> w = reject_outcome \<and> same_data s u
      | VConflict r \<Rightarrow> conflicting w \<and> c_ChangeID c \<in> pg_seen u \<and> pg_current_book c u = Some r
      | VWrite r \<Rightarrow> written w \<and> oc_Revision w = r \<and> c_ChangeID c \<in> pg_seen u \<and> pg_current_book c u = Some r)"
  by (simp only: decided_def book_verdict)

lemma book_decides:
  assumes "c_EntityType c = EntityBook" "c_Op c \<noteq> OpProgress"
  shows "decides c pg_current_book (pg_book_tx env c dev)"
  unfolding decides_def
proof (intro allI impI)
  fix s b u assume h: "pg_inv s" "db_faults s = []" "pg_book_tx env c dev s = (Inr b, u)"
  have rev: "pg_book_verdict s c = VWrite r \<Longrightarrow> r \<noteq> 0" for r
    using pg_rev_nonneg [OF h(1), of "c_EntityID c"] by (auto dest!: pg_book_verdict_rev)
  have cur: "pg_book_verdict s c = VConflict r \<Longrightarrow> pg_current_book c s = Some r" for r
    by (auto simp: book_verdict [symmetric] lock_verdict_def split: option.splits if_splits)
  have row: "written_book_row env c old r = Some row \<Longrightarrow> br_revision row = r" for old r row
    by (auto simp: written_book_row_def columns_shape split: if_splits)
  show "case b of Commit w \<Rightarrow> decided c pg_current_book s w u
      | Leave w \<Rightarrow> w = duplicate_outcome \<and> c_ChangeID c \<in> pg_seen s"
    using h rev cur row pg_conflict_seq [OF h(1)] assms
    by (auto simp: pg_book_tx_run Let_def accepted_kinds decided_book
        split: verdict.splits option.splits)
qed

lemma decided_law:
  assumes "(\<exists>e. res = Inl e \<and> same_data s t) \<or> (\<exists>w. res = Inr w \<and> decided c cur s w t)"
  shows "(\<exists>e. res = Inl e \<and> same_data s t) \<or>
    (case lock_verdict (c_ChangeID c \<in> pg_seen s) (cur c s) (c_Op c) (c_BaseRevision c) of
       VDuplicate \<Rightarrow> res = Inr duplicate_outcome \<and> same_data s t
     | VNothing \<Rightarrow> res = Inr accepted_outcome \<and> same_data s t
     | VReject \<Rightarrow> res = Inr reject_outcome \<and> same_data s t
     | VConflict r \<Rightarrow> \<exists>w. res = Inr w \<and> conflicting w \<and> c_ChangeID c \<in> pg_seen t \<and> cur c t = Some r
     | VWrite r \<Rightarrow> \<exists>w. res = Inr w \<and> written w \<and> oc_Revision w = r \<and>
         c_ChangeID c \<in> pg_seen t \<and> cur c t = Some r)"
  using assms
  by (cases "lock_verdict (c_ChangeID c \<in> pg_seen s) (cur c s) (c_Op c) (c_BaseRevision c)")
    (auto simp: decided_def)

lemma decided_tx:
  assumes "decides c cur body" "runs_clean body" "pg_inv s" "in_tx be body s = (res, t)"
    and "\<And>u. cur c (clean u) = cur c u"
  shows "(\<exists>e. res = Inl e \<and> same_data s t) \<or> (\<exists>w. res = Inr w \<and> decided c cur s w t)"
proof (cases res)
  case (Inl e)
  then show ?thesis using in_tx_fails assms(4) by blast
next
  case (Inr w)
  have inv: "pg_inv (clean s)" using assms(3) by simp
  from in_tx_commit [OF assms(4) [unfolded Inr] assms(2)] show ?thesis
  proof (elim disjE exE conjE)
    assume "body (clean s) = (Inr (Commit w), clean t)"
    from decidesD [OF assms(1) inv clean_faults this] Inr assms(5) show ?thesis
      by (auto simp: decided_def split: verdict.splits)
  next
    fix u assume u: "body (clean s) = (Inr (Leave w), u)" "clean t = clean (rollback s u)"
    then have "same_data s t" by (metis same_data_clean(2) same_data_rollback)
    with decidesD [OF assms(1) inv clean_faults u(1)] Inr show ?thesis
      by (simp add: decided_def lock_verdict_def)
  qed
qed

interpretation pg_books: lock_store pg_inv pg_step same_data locked_book_change pg_apply_book pg_seen
  pg_current_book
proof (unfold_locales, goal_cases)
  case (1 s t) then show ?case by (rule pg_step_inv [rotated])
next
  case (2 s t) then show ?case using pg_step_up pg_seen_up by blast
next
  case (3 s t c r) then show ?case using pg_step_up pg_step_inv pg_current_up(1) by blast
next
  case (4 s c r) then show ?case by (auto simp: pg_inv_def pg_rows_ok_def pg_current_book_def)
next
  case (5 env c s) then show ?case by (cases env) (simp add: pg_apply_book_def locked_book_change_def pg_book)
next
  case (6 s env c res t)
  obtain e src dev where env: "env = (e, src, dev)" by (cases env)
  have "decides c pg_current_book (pg_book_tx e c dev)"
    using 6(2) by (intro book_decides) (simp_all add: locked_book_change_def)
  from decided_law [OF decided_tx [OF this pg_book_tx_ops(1) 6(1)]] 6(3) show ?case
    by (simp only: env pg_apply_book_def pg_ApplyBookChange_def prod.case clean_views)
qed

interpretation pg_entities: lock_store pg_inv pg_step same_data locked_entity_change pg_apply_entity pg_seen
  pg_current_entity
proof (unfold_locales, goal_cases)
  case (1 s t) then show ?case by (rule pg_step_inv [rotated])
next
  case (2 s t) then show ?case using pg_step_up pg_seen_up by blast
next
  case (3 s t c r) then show ?case using pg_step_up pg_step_inv pg_current_up(2) by blast
next
  case (4 s c r) then show ?case by (auto simp: pg_inv_def pg_rows_ok_def pg_current_entity_def)
next
  case (5 env c s) then show ?case by (cases env) (simp add: pg_apply_entity_def locked_entity_change_def pg_entity)
next
  case (6 s env c res t)
  obtain e dev where env: "env = (e, dev)" by (cases env)
  from decided_law [OF decided_tx [OF entity_decides pg_entity_tx_ops(1) 6(1)]] 6(3) show ?case
    by (simp only: env pg_apply_entity_def pg_ApplyChange_def prod.case clean_views)
qed

end
