(* ===== verification/PgFiles.thy ===== *)
theory PgFiles
  imports Database ObjectStore
begin

text \<open>\<open>PGFileStore\<close> (\<open>internal/store/file_store.go\<close>): the table \<open>file_meta\<close>.\<close>

definition pg_UpsertMeta :: "string \<Rightarrow> int \<Rightarrow> string \<Rightarrow> (pg, unit) op" where
  "pg_UpsertMeta hash sz mimeType =
     exec (\<lambda>s. if db_file_meta s hash = None
       then s\<lparr>db_file_meta := (db_file_meta s)(hash \<mapsto> (sz, mimeType))\<rparr> else s)"

text \<open>The rows are collected into a map, so the order in which they come does not matter.\<close>

definition pg_HasHashes :: "string list \<Rightarrow> (pg, string \<rightharpoonup> bool) op" where
  "pg_HasHashes hashes =
     (if length hashes = 0 then ret (\<lambda>_. None)
      else wrapE ''query file_meta'' (query (\<lambda>s h.
             if h \<in> set hashes \<and> db_file_meta s h \<noteq> None then Some True else None)))"

end
