(* ===== verification/Minio.thy ===== *)
theory Minio
  imports ObjectStore
begin

text \<open>
  \<open>MinioObjectStore\<close> (\<open>internal/store/minio_object_store.go\<close>) over the MinIO client library, whose calls
  are the fields of \<open>minio_api\<close>.  A client is known by the endpoint it was made for; all are made with the
  same credentials.  The error with code \<open>NoSuchKey\<close> is \<open>NoSuchKey\<close>.
\<close>

section \<open>Host names\<close>

text \<open>\<open>strings.TrimSpace\<close> on ASCII text and \<open>net.SplitHostPort\<close>, \<open>net.JoinHostPort\<close>.\<close>

definition ascii_space :: "char \<Rightarrow> bool" where
  "ascii_space c \<longleftrightarrow> c \<in> {CHR '' '', CHR 0x09, CHR 0x0A, CHR 0x0B, CHR 0x0C, CHR 0x0D}"

definition TrimSpace :: "string \<Rightarrow> string" where
  "TrimSpace s = rev (dropWhile ascii_space (rev (dropWhile ascii_space s)))"

definition colon :: char where "colon = CHR '':''"
definition lbracket :: char where "lbracket = CHR ''[''"
definition rbracket :: char where "rbracket = CHR '']''"

text \<open>The text before and behind the last colon.\<close>

definition split_last_colon :: "string \<Rightarrow> (string \<times> string) option" where
  "split_last_colon s =
     (if colon \<notin> set s then None
      else let after = rev (takeWhile (\<lambda>c. c \<noteq> colon) (rev s))
           in Some (take (length s - length after - 1) s, after))"

text \<open>
  \<open>SplitHostPort\<close>: a host in brackets has to end just before the last colon; without brackets it must not
  hold a colon; no other bracket is allowed.
\<close>

definition SplitHostPort :: "string \<Rightarrow> (string \<times> string) option" where
  "SplitHostPort hostport =
     (case split_last_colon hostport of
        None \<Rightarrow> None
      | Some (before, port) \<Rightarrow>
          if hostport ! 0 = lbracket
          then (let host = takeWhile (\<lambda>c. c \<noteq> rbracket) (tl hostport) in
                if before = lbracket # host @ [rbracket] \<and> lbracket \<notin> set host \<and>
                   lbracket \<notin> set port \<and> rbracket \<notin> set port
                then Some (host, port) else None)
          else if colon \<in> set before \<or> lbracket \<in> set hostport \<or> rbracket \<in> set hostport then None
          else Some (before, port))"

definition JoinHostPort :: "string \<Rightarrow> string \<Rightarrow> string" where
  "JoinHostPort host port =
     (if colon \<in> set host then lbracket # host @ [rbracket, colon] @ port else host @ [colon] @ port)"

definition normalizeHost :: "string \<Rightarrow> string" where
  "normalizeHost host =
     (let h = TrimSpace host in case SplitHostPort h of Some (h1, _) \<Rightarrow> h1 | None \<Rightarrow> h)"

section \<open>The client library\<close>

definition NoSuchKey :: error where
  "NoSuchKey = ErrExternal ''NoSuchKey''"

text \<open>The first argument of each call is the client; \<open>mn_New\<close> says whether an endpoint is acceptable.\<close>

record 's minio_api =
  mn_New :: "string \<Rightarrow> bool"
  mn_BucketExists :: "string \<Rightarrow> string \<Rightarrow> ('s, bool) op"
  mn_MakeBucket :: "string \<Rightarrow> string \<Rightarrow> ('s, unit) op"
  mn_StatObject :: "string \<Rightarrow> string \<Rightarrow> string \<Rightarrow> ('s, int) op"
  mn_NewMultipartUpload :: "string \<Rightarrow> string \<Rightarrow> string \<Rightarrow> ('s, string) op"
  mn_PutObjectPart :: "string \<Rightarrow> string \<Rightarrow> string \<Rightarrow> string \<Rightarrow> int \<Rightarrow> bytes \<Rightarrow> ('s, string) op"
  mn_CompleteMultipartUpload :: "string \<Rightarrow> string \<Rightarrow> string \<Rightarrow> string \<Rightarrow> (int \<times> string) list \<Rightarrow> ('s, unit) op"
  mn_PutObject :: "string \<Rightarrow> string \<Rightarrow> string \<Rightarrow> reader \<Rightarrow> int \<Rightarrow> ('s, unit) op"
  mn_GetObject :: "string \<Rightarrow> string \<Rightarrow> string \<Rightarrow> ('s, bytes) op"
  mn_PresignedGetObject :: "string \<Rightarrow> string \<Rightarrow> string \<Rightarrow> int \<Rightarrow> ('s, string option) op"

record minio_store =
  mi_client :: string
  mi_bucket :: string
  mi_publicPort :: string
  mi_presignClient :: "string option"

definition NewMinioObjectStore ::
  "'s minio_api \<Rightarrow> string \<Rightarrow> string \<Rightarrow> string \<Rightarrow> string \<Rightarrow> error + minio_store" where
  "NewMinioObjectStore api endpoint bucket publicPort publicHost =
     (if \<not> mn_New api endpoint then Inl (ErrWrap ''init minio core'' (ErrExternal ''minio''))
      else Inr \<lparr>mi_client = endpoint, mi_bucket = bucket, mi_publicPort = publicPort,
        mi_presignClient = (if publicHost \<noteq> [] \<and> mn_New api publicHost then Some publicHost else None)\<rparr>)"

text \<open>\<open>presignClientFor\<close>, with its cache from host to client as state.\<close>

definition presignClientFor ::
  "'s minio_api \<Rightarrow> minio_store \<Rightarrow> string \<Rightarrow> (string \<rightharpoonup> string) \<Rightarrow> string \<times> (string \<rightharpoonup> string)" where
  "presignClientFor api ms host0 cache =
     (case mi_presignClient ms of
        Some c \<Rightarrow> (c, cache)
      | None \<Rightarrow>
          (let host = normalizeHost host0 in
           if host = [] then (mi_client ms, cache)
           else case cache host of
             Some c \<Rightarrow> (c, cache)
           | None \<Rightarrow>
               (let endpoint = (if mi_publicPort ms \<noteq> [] then JoinHostPort host (mi_publicPort ms) else host) in
                if mn_New api endpoint then (endpoint, cache(host \<mapsto> endpoint))
                else (mi_client ms, cache))))"

section \<open>The store\<close>

definition minio_EnsureBucket :: "'s minio_api \<Rightarrow> minio_store \<Rightarrow> ('s, unit) op" where
  "minio_EnsureBucket api ms =
     bindE (mn_BucketExists api (mi_client ms) (mi_bucket ms)) (\<lambda>exists.
       if \<not> exists then mn_MakeBucket api (mi_client ms) (mi_bucket ms) else ret ())"

definition minio_HasObject :: "'s minio_api \<Rightarrow> minio_store \<Rightarrow> string \<Rightarrow> ('s, bool) op" where
  "minio_HasObject api ms key =
     bindE (attempt (mn_StatObject api (mi_client ms) (mi_bucket ms) key)) (\<lambda>r.
       case r of
         Inr _ \<Rightarrow> ret True
       | Inl e \<Rightarrow> if errors_Is e NoSuchKey then ret False else throw e)"

definition minio_InitUpload :: "'s minio_api \<Rightarrow> minio_store \<Rightarrow> string \<Rightarrow> ('s, string) op" where
  "minio_InitUpload api ms key = mn_NewMultipartUpload api (mi_client ms) (mi_bucket ms) key"

definition minio_UploadPart ::
  "'s minio_api \<Rightarrow> minio_store \<Rightarrow> string \<Rightarrow> string \<Rightarrow> int \<Rightarrow> bytes \<Rightarrow> ('s, string) op" where
  "minio_UploadPart api ms key uploadID partNumber data =
     mn_PutObjectPart api (mi_client ms) (mi_bucket ms) key uploadID partNumber data"

definition minio_CompleteUpload ::
  "'s minio_api \<Rightarrow> minio_store \<Rightarrow> string \<Rightarrow> string \<Rightarrow> upload_part_meta list \<Rightarrow> ('s, unit) op" where
  "minio_CompleteUpload api ms key uploadID parts =
     mn_CompleteMultipartUpload api (mi_client ms) (mi_bucket ms) key uploadID
       (map (\<lambda>p. (pm_PartNumber p, pm_ETag p)) parts)"

definition minio_PutObject :: "'s minio_api \<Rightarrow> minio_store \<Rightarrow> string \<Rightarrow> int \<Rightarrow> reader \<Rightarrow> ('s, unit) op" where
  "minio_PutObject api ms key sz r = mn_PutObject api (mi_client ms) (mi_bucket ms) key r sz"

text \<open>
  The cache of presigning clients is a part of the state, read and written by \<open>get\<close> and \<open>put\<close>.  The link
  lives ten minutes, in seconds.
\<close>

definition minio_PresignDownload ::
  "'s minio_api \<Rightarrow> ('s \<Rightarrow> string \<rightharpoonup> string) \<Rightarrow> ((string \<rightharpoonup> string) \<Rightarrow> 's \<Rightarrow> 's) \<Rightarrow> minio_store \<Rightarrow>
     string \<Rightarrow> string \<Rightarrow> ('s, string) op" where
  "minio_PresignDownload api get put ms key host =
     bindE (minio_HasObject api ms key) (\<lambda>exists.
       if \<not> exists then throw ErrObjectNotFound
       else bindE (\<lambda>s. case presignClientFor api ms host (get s) of (c, cache) \<Rightarrow> (Inr c, put cache s)) (\<lambda>c.
            bindE (mn_PresignedGetObject api c (mi_bucket ms) key (10 * 60)) (\<lambda>url.
              case url of None \<Rightarrow> throw (ErrValidation ''presign failed: nil url'') | Some u \<Rightarrow> ret u)))"

text \<open>The size comes from a request of its own after the object was opened.\<close>

definition minio_GetObject :: "'s minio_api \<Rightarrow> minio_store \<Rightarrow> string \<Rightarrow> ('s, bytes \<times> int) op" where
  "minio_GetObject api ms key =
     bindE (mn_GetObject api (mi_client ms) (mi_bucket ms) key) (\<lambda>content.
     bindE (attempt (mn_StatObject api (mi_client ms) (mi_bucket ms) key)) (\<lambda>r.
       case r of
         Inl e \<Rightarrow> throw (if errors_Is e NoSuchKey then ErrObjectNotFound else e)
       | Inr sz \<Rightarrow> ret (content, sz)))"

definition minio_ObjectSize :: "'s minio_api \<Rightarrow> minio_store \<Rightarrow> string \<Rightarrow> ('s, int) op" where
  "minio_ObjectSize api ms key =
     bindE (attempt (mn_StatObject api (mi_client ms) (mi_bucket ms) key)) (\<lambda>r.
       case r of
         Inl e \<Rightarrow> throw (if errors_Is e NoSuchKey then ErrObjectNotFound else e)
       | Inr sz \<Rightarrow> ret sz)"

definition minio_object_store ::
  "'s minio_api \<Rightarrow> ('s \<Rightarrow> string \<rightharpoonup> string) \<Rightarrow> ((string \<rightharpoonup> string) \<Rightarrow> 's \<Rightarrow> 's) \<Rightarrow> minio_store \<Rightarrow> 's object_store" where
  "minio_object_store api get put ms = \<lparr>os_EnsureBucket = minio_EnsureBucket api ms,
     os_HasObject = minio_HasObject api ms, os_InitUpload = minio_InitUpload api ms,
     os_UploadPart = minio_UploadPart api ms, os_CompleteUpload = minio_CompleteUpload api ms,
     os_PresignDownload = minio_PresignDownload api get put ms, os_GetObject = minio_GetObject api ms,
     os_ObjectSize = minio_ObjectSize api ms, os_PutObject = minio_PutObject api ms\<rparr>"

end
