(* ===== verification/Uploads.thy ===== *)
theory Uploads
  imports PgSync Stores
begin

text \<open>
  Upload tasks: \<open>internal/model/upload.go\<close>, the order cache of \<open>internal/store/upload_order_store.go\<close> (in
  memory and in Redis), the task tables of \<open>internal/store/book_upload_store.go\<close> and the state machine of
  \<open>internal/service/upload_service.go\<close>.  The order in which PostgreSQL enumerates the files of a task is
  the parameter \<open>scan\<close>.  A Go slice that may be \<open>nil\<close> is an optional list.  \<open>UploadBookTask\<close>'s times are
  never set or read and are left out.
\<close>

section \<open>Data\<close>

record upload_init_book =
  ib_UUID :: string
  ib_ClientID :: string
  ib_Name :: string
  ib_Files :: "book_file_meta list option"
  ib_DataVersion :: string

record upload_init_result =
  ir_ClientID :: string
  ir_UUID :: string
  ir_TotalFiles :: int
  ir_PendingFiles :: "book_file_meta list option"

record upload_status_response =
  us_UUID :: string
  us_Name :: string
  us_Status :: string
  us_TotalFiles :: int
  us_DoneFiles :: int
  us_PendingFiles :: "book_file_meta list option"

record upload_complete_response =
  uc_UUID :: string
  uc_Done :: bool
  uc_Reason :: string
  uc_Revision :: int

record upload_book_task =
  ut_UUID :: string
  ut_Name :: string
  ut_Status :: string
  ut_TotalFiles :: int
  ut_DoneFiles :: int
  ut_DataVersion :: string
  ut_DeviceID :: string

definition UploadUploading :: string where "UploadUploading = ''uploading''"
definition FilePending :: string where "FilePending = ''pending''"

lemma upload_status_distinct [simp]:
  "UploadUploading \<noteq> StatusDone" "StatusDone \<noteq> UploadUploading" "FilePending \<noteq> StatusDone"
  "StatusDone \<noteq> FilePending" "UploadUploading \<noteq> StatusFailed" "StatusFailed \<noteq> UploadUploading"
  by (simp_all add: UploadUploading_def FilePending_def const_defs)

section \<open>Interfaces\<close>

record 's upload_order_store =
  uo_SaveOrder :: "string \<Rightarrow> book_file_meta list option \<Rightarrow> ('s, unit) op"
  uo_LoadOrder :: "string \<Rightarrow> ('s, book_file_meta list option) op"
  uo_DeleteOrder :: "string \<Rightarrow> ('s, unit) op"

record 's book_upload_store =
  up_InitUpload :: "string \<Rightarrow> string \<Rightarrow> string \<Rightarrow> string \<Rightarrow> book_file_meta list option \<Rightarrow>
    ('s, upload_book_task \<times> book_file_meta list option) op"
  up_GetTask :: "string \<Rightarrow> ('s, upload_book_task \<times> book_file_meta list option) op"
  up_ListAllFiles :: "string \<Rightarrow> ('s, book_file_meta list option) op"
  up_MarkFileDone :: "string \<Rightarrow> string \<Rightarrow> ('s, unit) op"
  up_Complete :: "string \<Rightarrow> ('s, bool) op"
  up_MarkFailed :: "string \<Rightarrow> ('s, unit) op"

section \<open>The order cache in memory\<close>

type_synonym mem_orders = "string \<rightharpoonup> book_file_meta list"

definition NewMemoryUploadOrderStore :: mem_orders where
  "NewMemoryUploadOrderStore = (\<lambda>_. None)"

text \<open>The copy that is stored is never \<open>nil\<close>.\<close>

definition mem_SaveOrder :: "string \<Rightarrow> book_file_meta list option \<Rightarrow> (mem_orders, unit) op" where
  "mem_SaveOrder uuid files s = (Inr (), s(uuid \<mapsto> slice_list files))"

definition mem_LoadOrder :: "string \<Rightarrow> (mem_orders, book_file_meta list option) op" where
  "mem_LoadOrder uuid s =
     (case s uuid of None \<Rightarrow> (Inl ErrUploadOrderLost, s) | Some files \<Rightarrow> (Inr (Some files), s))"

definition mem_DeleteOrder :: "string \<Rightarrow> (mem_orders, unit) op" where
  "mem_DeleteOrder uuid s = (Inr (), s(uuid := None))"

section \<open>The order cache in Redis\<close>

text \<open>What is stored for an order is the JSON document.\<close>

definition uploadOrderKeyPrefix :: string where "uploadOrderKeyPrefix = ''telebook:upord:''"
definition uploadOrderTTL :: int where "uploadOrderTTL = 7 * 24 * hour"

definition redis_SaveOrder ::
  "('s, json) redis_client \<Rightarrow> string \<Rightarrow> book_file_meta list option \<Rightarrow> ('s, unit) op" where
  "redis_SaveOrder rc uuid files =
     rc_Set rc (uploadOrderKeyPrefix @ uuid) (enc_files files) uploadOrderTTL"

definition redis_LoadOrder :: "('s, json) redis_client \<Rightarrow> string \<Rightarrow> ('s, book_file_meta list option) op" where
  "redis_LoadOrder rc uuid =
     bindE (rc_Get rc (uploadOrderKeyPrefix @ uuid)) (\<lambda>b.
       case b of
         None \<Rightarrow> throw ErrUploadOrderLost
       | Some j \<Rightarrow> (case json_Unmarshal dec_files None (Some j) of (files, ok) \<Rightarrow>
                     if ok then ret files else throw ErrJSON))"

definition redis_DeleteOrder :: "('s, json) redis_client \<Rightarrow> string \<Rightarrow> ('s, unit) op" where
  "redis_DeleteOrder rc uuid = rc_Del rc (uploadOrderKeyPrefix @ uuid)"

definition redis_order_store :: "('s, json) redis_client \<Rightarrow> 's upload_order_store" where
  "redis_order_store rc = \<lparr>uo_SaveOrder = redis_SaveOrder rc, uo_LoadOrder = redis_LoadOrder rc,
     uo_DeleteOrder = redis_DeleteOrder rc\<rparr>"

section \<open>\<open>PGBookUploadStore\<close>\<close>

text \<open>
  \<open>newUUID\<close>: sixteen random bytes with the version and variant bits set; a failing random source leaves
  zeros.
\<close>

definition uuid_of_bytes :: "string \<Rightarrow> string" where
  "uuid_of_bytes b0 =
     (let b1 = b0[6 := char_of (of_char (b0 ! 6) mod 16 + 64 :: nat)];
          b = b1[8 := char_of (of_char (b1 ! 8) mod 64 + 128 :: nat)]
      in hex (take 4 b) @ ''-'' @ hex (take 2 (drop 4 b)) @ ''-'' @ hex (take 2 (drop 6 b)) @ ''-'' @
         hex (take 2 (drop 8 b)) @ ''-'' @ hex (take 6 (drop 10 b)))"

definition newUUID :: "(pg, string) op" where
  "newUUID = bindE rand_read (\<lambda>r. ret (uuid_of_bytes (read_buffer 16 r)))"

definition put_task :: "string \<Rightarrow> upload_row \<Rightarrow> pg \<Rightarrow> pg" where
  "put_task uuid t s = s\<lparr>db_book_upload := (db_book_upload s)(uuid \<mapsto> t)\<rparr>"

definition put_task_files :: "string \<Rightarrow> upload_file_row list \<Rightarrow> pg \<Rightarrow> pg" where
  "put_task_files uuid fs s = s\<lparr>db_book_upload_file := (db_book_upload_file s)(uuid := fs)\<rparr>"

text \<open>The loop of inserts; a path that occurs twice violates the primary key.\<close>

fun insert_files :: "string \<Rightarrow> book_file_meta list \<Rightarrow> book_file_meta list \<Rightarrow> (pg, book_file_meta list) op" where
  "insert_files uuid [] pending = ret pending"
| "insert_files uuid (f # fs) pending =
     bindE (stmt (\<lambda>s.
         if fm_RelPath f \<in> uf_rel_path ` set (db_book_upload_file s uuid) then (Inl ErrDatabase, s)
         else (Inr (), put_task_files uuid (db_book_upload_file s uuid @
                [\<lparr>uf_rel_path = fm_RelPath f, uf_hash = fm_Hash f, uf_size = fm_Size f,
                  uf_status = FilePending\<rparr>]) s)))
       (\<lambda>_. insert_files uuid fs (pending @ [f]))"

definition init_task :: "string \<Rightarrow> int \<Rightarrow> string \<Rightarrow> string \<Rightarrow> upload_row" where
  "init_task name tot dataVersion deviceID =
     \<lparr>ur_name = name, ur_status = UploadUploading, ur_total_files = tot, ur_done_files = 0,
      ur_data_version = dataVersion, ur_device_id = deviceID\<rparr>"

definition init_tx ::
  "string \<Rightarrow> string \<Rightarrow> string \<Rightarrow> string \<Rightarrow> book_file_meta list option \<Rightarrow>
     (pg, (upload_book_task \<times> book_file_meta list option) tx_end) op" where
  "init_tx uuid name dataVersion deviceID files =
     (let tot = int (length (slice_list files)) in
      bindE (exec (put_task uuid (init_task name tot dataVersion deviceID))) (\<lambda>_.
      bindE (exec (put_task_files uuid [])) (\<lambda>_.
      bindE (insert_files uuid (slice_list files) []) (\<lambda>pending.
        ret (Commit (\<lparr>ut_UUID = uuid, ut_Name = name, ut_Status = UploadUploading, ut_TotalFiles = tot,
          ut_DoneFiles = 0, ut_DataVersion = dataVersion, ut_DeviceID = deviceID\<rparr>, Some pending))))))"

definition pg_InitUpload ::
  "string \<Rightarrow> string \<Rightarrow> string \<Rightarrow> string \<Rightarrow> book_file_meta list option \<Rightarrow>
     (pg, upload_book_task \<times> book_file_meta list option) op" where
  "pg_InitUpload uuid name dataVersion deviceID files =
     bindE (if uuid = [] then newUUID else ret uuid) (\<lambda>uuid'.
       in_tx ErrDatabase (init_tx uuid' name dataVersion deviceID files))"

text \<open>A slice that is declared and appended to: \<open>nil\<close> as long as nothing was.\<close>

definition appended :: "'a list \<Rightarrow> 'a list option" where
  "appended xs = (if xs = [] then None else Some xs)"

definition row_file :: "upload_file_row \<Rightarrow> book_file_meta" where
  "row_file r = \<lparr>fm_RelPath = uf_rel_path r, fm_Hash = uf_hash r, fm_Size = uf_size r\<rparr>"

type_synonym scan = "upload_file_row list \<Rightarrow> upload_file_row list"

definition pg_GetTask :: "scan \<Rightarrow> string \<Rightarrow> (pg, upload_book_task \<times> book_file_meta list option) op" where
  "pg_GetTask scan uuid =
     bindE (stmt (\<lambda>s. case db_book_upload s uuid of
         None \<Rightarrow> (Inl ErrNoRows, s)
       | Some t \<Rightarrow> (Inr \<lparr>ut_UUID = uuid, ut_Name = ur_name t, ut_Status = ur_status t,
           ut_TotalFiles = ur_total_files t, ut_DoneFiles = ur_done_files t,
           ut_DataVersion = ur_data_version t, ut_DeviceID = ur_device_id t\<rparr>, s))) (\<lambda>t.
     bindE (query (\<lambda>s. scan (db_book_upload_file s uuid))) (\<lambda>rows.
       ret (t, appended (map row_file (filter (\<lambda>r. uf_status r \<noteq> StatusDone) rows)))))"

definition pg_ListAllFiles :: "scan \<Rightarrow> string \<Rightarrow> (pg, book_file_meta list option) op" where
  "pg_ListAllFiles scan uuid =
     bindE (query (\<lambda>s. scan (db_book_upload_file s uuid))) (\<lambda>rows. ret (appended (map row_file rows)))"

definition done_count :: "string \<Rightarrow> pg \<Rightarrow> int" where
  "done_count uuid s = int (length (filter (\<lambda>r. uf_status r = StatusDone) (db_book_upload_file s uuid)))"

text \<open>Two statements outside a transaction.\<close>

definition pg_MarkFileDone :: "string \<Rightarrow> string \<Rightarrow> (pg, unit) op" where
  "pg_MarkFileDone uuid hash =
     bindE (stmt (\<lambda>s.
         let hit = (\<lambda>r. uf_hash r = hash \<and> uf_status r \<noteq> StatusDone);
             rows = db_book_upload_file s uuid
         in (Inr (length (filter hit rows)),
             put_task_files uuid (map (\<lambda>r. if hit r then r\<lparr>uf_status := StatusDone\<rparr> else r) rows) s)))
       (\<lambda>affected.
         if affected > 0
         then exec (\<lambda>s. case db_book_upload s uuid of
                None \<Rightarrow> s | Some t \<Rightarrow> put_task uuid (t\<lparr>ur_done_files := done_count uuid s\<rparr>) s)
         else ret ())"

definition pg_Complete :: "string \<Rightarrow> (pg, bool) op" where
  "pg_Complete uuid =
     bindE (stmt (\<lambda>s. case db_book_upload s uuid of
         None \<Rightarrow> (Inl ErrNoRows, s)
       | Some t \<Rightarrow> (Inr (ur_total_files t, done_count uuid s), s))) (\<lambda>(tot, finished).
     if finished \<ge> tot \<and> tot > 0
     then bindE (exec (\<lambda>s. case db_book_upload s uuid of
            None \<Rightarrow> s | Some t \<Rightarrow> put_task uuid (t\<lparr>ur_status := StatusDone\<rparr>) s)) (\<lambda>_. ret True)
     else ret False)"

definition pg_MarkFailed :: "string \<Rightarrow> (pg, unit) op" where
  "pg_MarkFailed uuid =
     exec (\<lambda>s. case db_book_upload s uuid of
       None \<Rightarrow> s | Some t \<Rightarrow> put_task uuid (t\<lparr>ur_status := StatusFailed\<rparr>) s)"

section \<open>\<open>UploadService\<close>\<close>

record 's upload_service =
  su_uploads :: "'s book_upload_store"
  su_books :: "'s book_store"
  su_orders :: "'s upload_order_store"

fun init_loop ::
  "'s upload_service \<Rightarrow> string \<Rightarrow> upload_init_book list \<Rightarrow> upload_init_result list \<Rightarrow>
     ('s, upload_init_result list) op" where
  "init_loop us deviceID [] acc = ret acc"
| "init_loop us deviceID (b # bs) acc =
     bindE (up_InitUpload (su_uploads us) (ib_UUID b) (ib_Name b) (ib_DataVersion b) deviceID (ib_Files b))
       (\<lambda>(task, pending).
     bindE (uo_SaveOrder (su_orders us) (ut_UUID task) (ib_Files b)) (\<lambda>_.
       init_loop us deviceID bs (acc @ [\<lparr>ir_ClientID = ib_ClientID b, ir_UUID = ut_UUID task,
         ir_TotalFiles = ut_TotalFiles task, ir_PendingFiles = pending\<rparr>])))"

definition UploadInit ::
  "'s upload_service \<Rightarrow> string \<Rightarrow> upload_init_book list \<Rightarrow> ('s, upload_init_result list) op" where
  "UploadInit us deviceID books = init_loop us deviceID books []"

definition UploadStatus :: "'s upload_service \<Rightarrow> string \<Rightarrow> ('s, upload_status_response) op" where
  "UploadStatus us uuid =
     bindE (up_GetTask (su_uploads us) uuid) (\<lambda>(task, pending).
       ret \<lparr>us_UUID = ut_UUID task, us_Name = ut_Name task, us_Status = ut_Status task,
         us_TotalFiles = ut_TotalFiles task,
         us_DoneFiles = ut_TotalFiles task - int (length (slice_list pending)), us_PendingFiles = pending\<rparr>)"

definition UploadFileDone :: "'s upload_service \<Rightarrow> string \<Rightarrow> string \<Rightarrow> ('s, unit) op" where
  "UploadFileDone us uuid hash = up_MarkFileDone (su_uploads us) uuid hash"

definition uploadPayload :: "'s upload_service \<Rightarrow> string \<Rightarrow> upload_book_task \<Rightarrow> ('s, raw) op" where
  "uploadPayload us uuid task =
     bindE (uo_LoadOrder (su_orders us) uuid) (\<lambda>fullFiles.
       ret (Some (enc_payload \<lparr>bp_Name = ut_Name task, bp_CurrentPage = 0, bp_CoverHash = [],
         bp_Files = fullFiles\<rparr>)))"

definition UploadComplete :: "'s upload_service \<Rightarrow> string \<Rightarrow> string \<Rightarrow> ('s, upload_complete_response) op" where
  "UploadComplete us deviceID uuid =
     bindE (up_GetTask (su_uploads us) uuid) (\<lambda>(task, _).
     bindE (uploadPayload us uuid task) (\<lambda>payload.
     bindE (up_Complete (su_uploads us) uuid) (\<lambda>complete.
       if \<not> complete
       then ret \<lparr>uc_UUID = uuid, uc_Done = False, uc_Reason = ''incomplete'', uc_Revision = 0\<rparr>
       else bindE (bs_ForceUpsertBook (su_books us) uuid payload deviceID) (\<lambda>outcome.
              ret \<lparr>uc_UUID = uuid, uc_Done = True, uc_Reason = ''ok'', uc_Revision = oc_Revision outcome\<rparr>))))"

definition UploadMarkFailed :: "'s upload_service \<Rightarrow> string \<Rightarrow> ('s, unit) op" where
  "UploadMarkFailed us uuid = up_MarkFailed (su_uploads us) uuid"

end
