(* ===== verification/Auth.thy ===== *)
theory Auth
  imports Database Stores
begin

text \<open>
  Authentication: \<open>internal/store/token_store.go\<close> with its in-memory and Redis implementations,
  \<open>internal/store/device_store.go\<close>, \<open>internal/service/jwt_service.go\<close> and \<open>internal/service/auth_service.go\<close>.
  The JWT library, bcrypt, SHA-256 and the random source are parameters; \<open>time.Now()\<close> is a parameter of
  each call that reads it.
\<close>

section \<open>Tokens\<close>

record 's token_store =
  ts_SaveRefreshToken :: "string \<Rightarrow> string \<Rightarrow> int \<Rightarrow> ('s, unit) op"
  ts_GetDeviceByRefreshToken :: "string \<Rightarrow> ('s, string) op"
  ts_DeleteRefreshToken :: "string \<Rightarrow> ('s, unit) op"

record memory_refresh_token =
  mt_deviceID :: string
  mt_expires :: time

type_synonym mem_tokens = "string \<rightharpoonup> memory_refresh_token"

definition NewMemoryTokenStore :: mem_tokens where
  "NewMemoryTokenStore = (\<lambda>_. None)"

definition mem_SaveRefreshToken :: "time \<Rightarrow> string \<Rightarrow> string \<Rightarrow> int \<Rightarrow> (mem_tokens, unit) op" where
  "mem_SaveRefreshToken now tokenHash deviceID ttl s =
     (Inr (), s(tokenHash \<mapsto> \<lparr>mt_deviceID = deviceID, mt_expires = now + ttl\<rparr>))"

definition mem_GetDeviceByRefreshToken :: "time \<Rightarrow> string \<Rightarrow> (mem_tokens, string) op" where
  "mem_GetDeviceByRefreshToken now tokenHash s =
     (case s tokenHash of
        None \<Rightarrow> (Inl ErrRefreshTokenNotFound, s)
      | Some t \<Rightarrow> if now > mt_expires t then (Inl ErrRefreshTokenNotFound, s) else (Inr (mt_deviceID t), s))"

definition mem_DeleteRefreshToken :: "string \<Rightarrow> (mem_tokens, unit) op" where
  "mem_DeleteRefreshToken tokenHash s = (Inr (), s(tokenHash := None))"

definition refreshTokenKeyPrefix :: string where "refreshTokenKeyPrefix = ''rt:''"

definition redis_SaveRefreshToken ::
  "('s, string) redis_client \<Rightarrow> string \<Rightarrow> string \<Rightarrow> int \<Rightarrow> ('s, unit) op" where
  "redis_SaveRefreshToken rc tokenHash deviceID ttl = rc_Set rc (refreshTokenKeyPrefix @ tokenHash) deviceID ttl"

definition redis_GetDeviceByRefreshToken :: "('s, string) redis_client \<Rightarrow> string \<Rightarrow> ('s, string) op" where
  "redis_GetDeviceByRefreshToken rc tokenHash =
     bindE (rc_Get rc (refreshTokenKeyPrefix @ tokenHash)) (\<lambda>r.
       case r of None \<Rightarrow> throw ErrRefreshTokenNotFound | Some deviceID \<Rightarrow> ret deviceID)"

definition redis_DeleteRefreshToken :: "('s, string) redis_client \<Rightarrow> string \<Rightarrow> ('s, unit) op" where
  "redis_DeleteRefreshToken rc tokenHash = rc_Del rc (refreshTokenKeyPrefix @ tokenHash)"

definition redis_token_store :: "('s, string) redis_client \<Rightarrow> 's token_store" where
  "redis_token_store rc = \<lparr>ts_SaveRefreshToken = redis_SaveRefreshToken rc,
     ts_GetDeviceByRefreshToken = redis_GetDeviceByRefreshToken rc,
     ts_DeleteRefreshToken = redis_DeleteRefreshToken rc\<rparr>"

section \<open>Devices\<close>

record device_info =
  de_ID :: string
  de_Name :: string
  de_Platform :: string
  de_KeyHash :: string
  de_CreatedAt :: time
  de_LastSeenAt :: time

record 's device_store =
  ds_CreateDevice :: "device_info \<Rightarrow> ('s, unit) op"
  ds_GetDeviceByID :: "string \<Rightarrow> ('s, device_info) op"
  ds_TouchDevice :: "string \<Rightarrow> ('s, unit) op"

definition pg_CreateDevice :: "time \<Rightarrow> device_info \<Rightarrow> (pg, unit) op" where
  "pg_CreateDevice now d =
     stmt (\<lambda>s. if db_devices s (de_ID d) \<noteq> None then (Inl ErrDatabase, s)
       else (Inr (), s\<lparr>db_devices := (db_devices s)(de_ID d \<mapsto>
         \<lparr>dr_name = de_Name d, dr_platform = de_Platform d, dr_key_hash = de_KeyHash d,
          dr_created_at = now, dr_last_seen_at = now\<rparr>)\<rparr>))"

definition pg_GetDeviceByID :: "string \<Rightarrow> (pg, device_info) op" where
  "pg_GetDeviceByID ident =
     stmt (\<lambda>s. case db_devices s ident of
       None \<Rightarrow> (Inl ErrDeviceNotFound, s)
     | Some r \<Rightarrow> (Inr \<lparr>de_ID = ident, de_Name = dr_name r, de_Platform = dr_platform r,
         de_KeyHash = dr_key_hash r, de_CreatedAt = dr_created_at r, de_LastSeenAt = dr_last_seen_at r\<rparr>, s))"

definition pg_TouchDevice :: "time \<Rightarrow> string \<Rightarrow> (pg, unit) op" where
  "pg_TouchDevice now ident =
     exec (\<lambda>s. s\<lparr>db_devices := (db_devices s)(ident :=
       map_option (\<lambda>r. r\<lparr>dr_last_seen_at := now\<rparr>) (db_devices s ident))\<rparr>)"

section \<open>JWT\<close>

record claims =
  cl_DeviceID :: string
  cl_DeviceName :: string
  cl_Issuer :: string
  cl_IssuedAt :: int
  cl_ExpiresAt :: int

record jwt_service =
  js_secret :: string
  js_ttl :: int

text \<open>
  What the code calls of the JWT library: signing with an algorithm and a secret, and parsing with a
  function from the token's algorithm to the key, the demanded issuer, the allowed algorithms and the
  current time in seconds; parsing answers the claims and \<open>parsed.Valid\<close>.
\<close>

record jwt_lib =
  jl_Sign :: "string \<Rightarrow> claims \<Rightarrow> string \<Rightarrow> error + string"
  jl_Parse :: "(string \<Rightarrow> error + string) \<Rightarrow> string \<Rightarrow> string list \<Rightarrow> int \<Rightarrow> string \<Rightarrow> error + (claims \<times> bool)"

definition jwt_issuer :: string where "jwt_issuer = ''TelebookServer''"
definition HS256 :: string where "HS256 = ''HS256''"

definition signing_method_HMAC :: "string \<Rightarrow> bool" where
  "signing_method_HMAC alg \<longleftrightarrow> alg \<in> {''HS256'', ''HS384'', ''HS512''}"

text \<open>\<open>NewNumericDate\<close> cuts a time to the second.\<close>

definition numeric_date :: "time \<Rightarrow> int" where
  "numeric_date t = t div second"

definition jwt_Issue :: "jwt_lib \<Rightarrow> time \<Rightarrow> jwt_service \<Rightarrow> string \<Rightarrow> string \<Rightarrow> error + string" where
  "jwt_Issue lib now js deviceID deviceName =
     jl_Sign lib HS256 \<lparr>cl_DeviceID = deviceID, cl_DeviceName = deviceName, cl_Issuer = jwt_issuer,
       cl_IssuedAt = numeric_date now, cl_ExpiresAt = numeric_date (now + js_ttl js)\<rparr> (js_secret js)"

definition jwt_Parse :: "jwt_lib \<Rightarrow> time \<Rightarrow> jwt_service \<Rightarrow> string \<Rightarrow> error + claims" where
  "jwt_Parse lib now js token =
     (case jl_Parse lib (\<lambda>alg. if signing_method_HMAC alg then Inr (js_secret js) else Inl ErrInvalidToken)
        jwt_issuer [HS256] (numeric_date now) token of
        Inl e \<Rightarrow> Inl ErrInvalidToken
      | Inr (c, valid) \<Rightarrow> if valid then Inr c else Inl ErrInvalidToken)"

section \<open>\<open>AuthService\<close>\<close>

record register_request =
  rg_ConnectionKey :: string
  rg_DeviceID :: string
  rg_DeviceName :: string
  rg_Platform :: string

record register_response =
  rr_AccessToken :: string
  rr_RefreshToken :: string
  rr_DeviceID :: string

record refresh_response =
  rf_AccessToken :: string
  rf_RefreshToken :: string

record 's auth_service =
  au_devices :: "'s device_store"
  au_tokens :: "'s token_store"
  au_jwt :: jwt_service
  au_syncSecret :: string
  au_refreshTTL :: int

text \<open>
  What a request takes from outside: the libraries, the reading of the clock when the access token is
  issued, the random source, and \<open>time.Now().String()\<close> for when it fails.
\<close>

record 's auth_env =
  ae_jwt :: jwt_lib
  ae_bcrypt :: "string \<Rightarrow> error + string"
  ae_sha :: "string \<Rightarrow> string"
  ae_issueNow :: time
  ae_rand :: "('s, string option) op"
  ae_timeString :: string

definition lift_result :: "error + 'a \<Rightarrow> ('s, 'a) op" where
  "lift_result r = (case r of Inl e \<Rightarrow> throw e | Inr a \<Rightarrow> ret a)"

definition refreshTokenHash :: "'s auth_env \<Rightarrow> string \<Rightarrow> string" where
  "refreshTokenHash env token = hex (ae_sha env token)"

definition newRefreshToken :: "'s auth_env \<Rightarrow> ('s, string \<times> string) op" where
  "newRefreshToken env =
     bindE (ae_rand env) (\<lambda>r.
       let token = (case r of None \<Rightarrow> hex (ae_timeString env) | Some b \<Rightarrow> hex (read_buffer 32 (Some b)))
       in ret (token, refreshTokenHash env token))"

definition register_device :: "'s auth_env \<Rightarrow> 's auth_service \<Rightarrow> register_request \<Rightarrow> ('s, unit) op" where
  "register_device env au req =
     bindE (attempt (ds_GetDeviceByID (au_devices au) (rg_DeviceID req))) (\<lambda>r.
       case r of
         Inr d \<Rightarrow> ret ()
       | Inl e \<Rightarrow>
           if errors_Is e ErrDeviceNotFound
           then bindE (lift_result (ae_bcrypt env (rg_ConnectionKey req))) (\<lambda>hash.
                bindE (attempt (ds_CreateDevice (au_devices au) \<lparr>de_ID = rg_DeviceID req,
                    de_Name = rg_DeviceName req, de_Platform = rg_Platform req, de_KeyHash = hash,
                    de_CreatedAt = 0, de_LastSeenAt = 0\<rparr>)) (\<lambda>c.
                  case c of Inl e \<Rightarrow> throw ErrDeviceConflict | Inr _ \<Rightarrow> ret ()))
           else throw e)"

definition Register ::
  "'s auth_env \<Rightarrow> 's auth_service \<Rightarrow> register_request \<Rightarrow> ('s, register_response) op" where
  "Register env au req =
     (if rg_ConnectionKey req \<noteq> au_syncSecret au then throw ErrInvalidKey
      else bindE (register_device env au req) (\<lambda>_.
           bindE (lift_result (jwt_Issue (ae_jwt env) (ae_issueNow env) (au_jwt au) (rg_DeviceID req)
               (rg_DeviceName req))) (\<lambda>access.
           bindE (newRefreshToken env) (\<lambda>(refresh, refreshHash).
           bindE (ts_SaveRefreshToken (au_tokens au) refreshHash (rg_DeviceID req) (au_refreshTTL au)) (\<lambda>_.
           bindE (attempt (ds_TouchDevice (au_devices au) (rg_DeviceID req))) (\<lambda>_.
             ret \<lparr>rr_AccessToken = access, rr_RefreshToken = refresh, rr_DeviceID = rg_DeviceID req\<rparr>))))))"

definition Refresh :: "'s auth_env \<Rightarrow> 's auth_service \<Rightarrow> string \<Rightarrow> ('s, refresh_response) op" where
  "Refresh env au token =
     (let hash = refreshTokenHash env token in
      bindE (attempt (ts_GetDeviceByRefreshToken (au_tokens au) hash)) (\<lambda>r.
        case r of
          Inl e \<Rightarrow> throw ErrInvalidRefreshToken
        | Inr deviceID \<Rightarrow>
            bindE (attempt (ds_GetDeviceByID (au_devices au) deviceID)) (\<lambda>r1.
              case r1 of
                Inl e \<Rightarrow>
                  bindE (attempt (ts_DeleteRefreshToken (au_tokens au) hash)) (\<lambda>_. throw ErrInvalidRefreshToken)
              | Inr d \<Rightarrow>
                  bindE (lift_result (jwt_Issue (ae_jwt env) (ae_issueNow env) (au_jwt au) (de_ID d)
                      (de_Name d))) (\<lambda>access.
                  bindE (ts_DeleteRefreshToken (au_tokens au) hash) (\<lambda>_.
                  bindE (newRefreshToken env) (\<lambda>(refresh, refreshHash).
                  bindE (ts_SaveRefreshToken (au_tokens au) refreshHash (de_ID d) (au_refreshTTL au)) (\<lambda>_.
                  bindE (attempt (ds_TouchDevice (au_devices au) (de_ID d))) (\<lambda>_.
                    ret \<lparr>rf_AccessToken = access, rf_RefreshToken = refresh\<rparr>))))))))"

end
