(* ===== verification/Config.thy ===== *)
theory Config
  imports Stores
begin

text \<open>
  \<open>internal/config/config.go\<close>.  \<open>getenv\<close> is the process environment after \<open>godotenv.Load\<close> has filled in
  what a \<open>.env\<close> file adds (\<open>os.Getenv\<close> reads the empty string for a name that is not set);
  \<open>parse_duration\<close> is \<open>time.ParseDuration\<close>, with \<open>None\<close> for its error.
\<close>

record server_config =
  cfg_HTTPAddr :: string
  cfg_DatabaseURL :: string
  cfg_SyncSecret :: string
  cfg_JWTSecret :: string
  cfg_JWTTTL :: int
  cfg_RefreshTTL :: int
  cfg_RedisAddr :: string
  cfg_Version :: string
  cfg_MinIOEndpoint :: string
  cfg_MinIOAccessKey :: string
  cfg_MinIOSecretKey :: string
  cfg_MinIOBucket :: string
  cfg_MinIOUseSSL :: bool
  cfg_MinIOPublicPort :: string
  cfg_MinIOPublicEndpoint :: string

definition getenv_or :: "(string \<Rightarrow> string) \<Rightarrow> string \<Rightarrow> string \<Rightarrow> string" where
  "getenv_or getenv key fallback = (if getenv key \<noteq> [] then getenv key else fallback)"

definition initial_config :: "(string \<Rightarrow> string) \<Rightarrow> server_config" where
  "initial_config getenv =
     \<lparr>cfg_HTTPAddr = getenv_or getenv ''HTTP_ADDR'' '':8080'',
      cfg_DatabaseURL = getenv ''DATABASE_URL'',
      cfg_SyncSecret = getenv ''SYNC_SECRET'',
      cfg_JWTSecret = getenv ''JWT_SECRET'',
      cfg_JWTTTL = 30 * 24 * hour,
      cfg_RefreshTTL = 30 * 24 * hour,
      cfg_RedisAddr = getenv ''REDIS_ADDR'',
      cfg_Version = ''0.1.0'',
      cfg_MinIOEndpoint = getenv ''MINIO_ENDPOINT'',
      cfg_MinIOAccessKey = getenv ''MINIO_ACCESS_KEY'',
      cfg_MinIOSecretKey = getenv ''MINIO_SECRET_KEY'',
      cfg_MinIOBucket = getenv_or getenv ''MINIO_BUCKET'' ''telebook'',
      cfg_MinIOUseSSL = (getenv ''MINIO_USE_SSL'' = ''true''),
      cfg_MinIOPublicPort = getenv_or getenv ''MINIO_PUBLIC_PORT'' ''9000'',
      cfg_MinIOPublicEndpoint = getenv ''MINIO_PUBLIC_ENDPOINT''\<rparr>"

definition Load ::
  "(string \<Rightarrow> int option) \<Rightarrow> (string \<Rightarrow> string) \<Rightarrow> error + server_config" where
  "Load parse_duration getenv =
     (let cfg = initial_config getenv; v = getenv ''JWT_REFRESH_TTL'' in
      if cfg_DatabaseURL cfg = [] then Inl (ErrValidation ''DATABASE_URL is required'')
      else if cfg_SyncSecret cfg = [] then Inl (ErrValidation ''SYNC_SECRET is required'')
      else if cfg_JWTSecret cfg = [] then Inl (ErrValidation ''JWT_SECRET is required'')
      else Inr (if v = [] then cfg
                else case parse_duration v of None \<Rightarrow> cfg | Some d \<Rightarrow> cfg\<lparr>cfg_RefreshTTL := d\<rparr>))"

end
