(* ===== verification/Http.thy ===== *)
theory Http
  imports SyncService FileService Uploads Auth Config
begin

text \<open>
  What the handlers of \<open>internal/api\<close> share: integers in query parameters, request bodies and their
  validation by gin's \<open>ShouldBindJSON\<close>, responses.
\<close>

section \<open>Integers in text\<close>

definition digit_value :: "char \<Rightarrow> nat option" where
  "digit_value c =
     (if 48 \<le> (of_char c :: nat) \<and> (of_char c :: nat) \<le> 57 then Some (of_char c - 48) else None)"

fun parse_digits :: "nat \<Rightarrow> string \<Rightarrow> nat option" where
  "parse_digits acc [] = Some acc"
| "parse_digits acc (c # cs) =
     (case digit_value c of None \<Rightarrow> None | Some d \<Rightarrow> parse_digits (10 * acc + d) cs)"

text \<open>\<open>strconv.ParseInt(s, 10, 64)\<close>, which on the server's platform \<open>strconv.Atoi\<close> agrees with.\<close>

definition ParseInt :: "string \<Rightarrow> int option" where
  "ParseInt s =
     (let neg = (s \<noteq> [] \<and> hd s = CHR ''-'');
          rest = (if s \<noteq> [] \<and> (hd s = CHR ''-'' \<or> hd s = CHR ''+'') then tl s else s)
      in if rest = [] then None
         else case parse_digits 0 rest of
                None \<Rightarrow> None
              | Some n \<Rightarrow> (let i = (if neg then - int n else int n) in if in_int64 i then Some i else None))"

section \<open>Responses\<close>

text \<open>
  A response: the status and what is handed to \<open>c.JSON\<close> (or written as it is), or what
  \<open>respondError\<close> of \<open>response.go\<close> sends.
\<close>

datatype 'b response = Reply int 'b | Failure int string string

definition respondError :: "int \<Rightarrow> string \<Rightarrow> string \<Rightarrow> 'b response" where
  "respondError st code message = Failure st code message"

definition internal_error :: "'b response" where
  "internal_error = respondError 500 ''internal'' ''internal error''"

definition validation_error :: "string \<Rightarrow> 'b response" where
  "validation_error message = respondError 422 ''validation_error'' message"

type_synonym ('s, 'b) handler = "'s \<Rightarrow> 'b response \<times> 's"

definition answer :: "'b response \<Rightarrow> ('s, 'b) handler" where
  "answer r s = (r, s)"

text \<open>Call a service; one answer for its error, one for its result.\<close>

definition respond ::
  "('s, 'a) op \<Rightarrow> (error \<Rightarrow> 'b response) \<Rightarrow> ('a \<Rightarrow> 'b response) \<Rightarrow> ('s, 'b) handler" where
  "respond m onError onResult s =
     (case m s of (Inl e, t) \<Rightarrow> (onError e, t) | (Inr a, t) \<Rightarrow> (onResult a, t))"

section \<open>Request bodies\<close>

text \<open>
  A body is the first JSON document in it, \<open>None\<close> when there is none or it is malformed.
  \<open>ShouldBindJSON\<close> decodes it over the zero value and then checks the fields marked \<open>required\<close>.
\<close>

definition ShouldBindJSON :: "'a decoder \<Rightarrow> 'a \<Rightarrow> ('a \<Rightarrow> bool) \<Rightarrow> raw \<Rightarrow> 'a option" where
  "ShouldBindJSON dec zero required body =
     (case json_Unmarshal dec zero body of (v, ok) \<Rightarrow> if ok \<and> required v then Some v else None)"

definition field_of ::
  "('a \<Rightarrow> 'f) \<Rightarrow> (('f \<Rightarrow> 'f) \<Rightarrow> 'a \<Rightarrow> 'a) \<Rightarrow> 'f decoder \<Rightarrow> 'a decoder" where
  "field_of get upd dec = dec_field get (\<lambda>x. upd (\<lambda>_. x)) dec"

definition zero_change :: change where
  "zero_change = \<lparr>c_ChangeID = [], c_EntityType = [], c_EntityID = [], c_Op = [], c_BaseRevision = 0,
     c_Payload = None\<rparr>"

definition dec_change :: "change decoder" where
  "dec_change = dec_struct (\<lambda>k.
     if k = ''CHANGE_ID'' then Some (field_of c_ChangeID c_ChangeID_update dec_string)
     else if k = ''ENTITY_TYPE'' then Some (field_of c_EntityType c_EntityType_update dec_string)
     else if k = ''ENTITY_ID'' then Some (field_of c_EntityID c_EntityID_update dec_string)
     else if k = ''OP'' then Some (field_of c_Op c_Op_update dec_string)
     else if k = ''BASE_REVISION'' then Some (field_of c_BaseRevision c_BaseRevision_update dec_int64)
     else if k = ''PAYLOAD'' then Some (field_of c_Payload c_Payload_update dec_raw)
     else None)"

record push_request =
  pq_Source :: string
  pq_Changes :: "change list option"

definition dec_push :: "push_request decoder" where
  "dec_push = dec_struct (\<lambda>k.
     if k = ''SOURCE'' then Some (field_of pq_Source pq_Source_update dec_string)
     else if k = ''CHANGES'' then
       Some (field_of pq_Changes pq_Changes_update (dec_slice dec_change zero_change))
     else None)"

definition bind_push :: "raw \<Rightarrow> push_request option" where
  "bind_push = ShouldBindJSON dec_push \<lparr>pq_Source = [], pq_Changes = None\<rparr> (\<lambda>r. pq_Changes r \<noteq> None)"

definition dec_register :: "register_request decoder" where
  "dec_register = dec_struct (\<lambda>k.
     if k = ''CONNECTION_KEY'' then Some (field_of rg_ConnectionKey rg_ConnectionKey_update dec_string)
     else if k = ''DEVICE_ID'' then Some (field_of rg_DeviceID rg_DeviceID_update dec_string)
     else if k = ''DEVICE_NAME'' then Some (field_of rg_DeviceName rg_DeviceName_update dec_string)
     else if k = ''PLATFORM'' then Some (field_of rg_Platform rg_Platform_update dec_string)
     else None)"

definition bind_register :: "raw \<Rightarrow> register_request option" where
  "bind_register = ShouldBindJSON dec_register
     \<lparr>rg_ConnectionKey = [], rg_DeviceID = [], rg_DeviceName = [], rg_Platform = []\<rparr>
     (\<lambda>r. rg_ConnectionKey r \<noteq> [] \<and> rg_DeviceID r \<noteq> [] \<and> rg_DeviceName r \<noteq> [] \<and> rg_Platform r \<noteq> [])"

definition dec_one_string :: "string \<Rightarrow> string decoder" where
  "dec_one_string name =
     dec_struct (\<lambda>k. if k = name then Some (field_of id (\<lambda>f x. f x) dec_string) else None)"

definition bind_refresh :: "raw \<Rightarrow> string option" where
  "bind_refresh = ShouldBindJSON (dec_one_string ''REFRESH_TOKEN'') [] (\<lambda>t. t \<noteq> [])"

record history_request =
  hq_OpType :: string
  hq_Tag :: string
  hq_Snapshot :: raw

definition dec_history :: "history_request decoder" where
  "dec_history = dec_struct (\<lambda>k.
     if k = ''OP_TYPE'' then Some (field_of hq_OpType hq_OpType_update dec_string)
     else if k = ''TAG'' then Some (field_of hq_Tag hq_Tag_update dec_string)
     else if k = ''SNAPSHOT'' then Some (field_of hq_Snapshot hq_Snapshot_update dec_raw)
     else None)"

definition bind_history :: "raw \<Rightarrow> history_request option" where
  "bind_history = ShouldBindJSON dec_history \<lparr>hq_OpType = [], hq_Tag = [], hq_Snapshot = None\<rparr>
     (\<lambda>r. hq_OpType r \<noteq> [] \<and> hq_Tag r \<noteq> [] \<and> hq_Snapshot r \<noteq> None)"

definition bind_restore :: "raw \<Rightarrow> int option" where
  "bind_restore = ShouldBindJSON
     (dec_struct (\<lambda>k. if k = ''HISTORY_ID'' then Some (field_of id (\<lambda>f x. f x) dec_int64) else None))
     0 (\<lambda>i. i \<noteq> 0)"

definition dec_resolve :: "resolve_request decoder" where
  "dec_resolve = dec_struct (\<lambda>k.
     if k = ''STRATEGY'' then Some (field_of rq_Strategy rq_Strategy_update dec_string)
     else if k = ''PAYLOAD'' then Some (field_of rq_Payload rq_Payload_update dec_raw)
     else None)"

definition bind_resolve :: "raw \<Rightarrow> resolve_request option" where
  "bind_resolve = ShouldBindJSON dec_resolve \<lparr>rq_Strategy = [], rq_Payload = None\<rparr> (\<lambda>_. True)"

definition zero_check :: file_check_item where
  "zero_check = \<lparr>fc_Hash = [], fc_Size = 0\<rparr>"

definition dec_check :: "file_check_item decoder" where
  "dec_check = dec_struct (\<lambda>k.
     if k = ''HASH'' then Some (field_of fc_Hash fc_Hash_update dec_string)
     else if k = ''SIZE'' then Some (field_of fc_Size fc_Size_update dec_int64)
     else None)"

definition bind_check :: "raw \<Rightarrow> file_check_item list option option" where
  "bind_check = ShouldBindJSON
     (dec_struct (\<lambda>k. if k = ''FILES''
        then Some (field_of id (\<lambda>f x. f x) (dec_slice dec_check zero_check)) else None))
     None (\<lambda>_. True)"

definition bind_file_init :: "raw \<Rightarrow> file_check_item option" where
  "bind_file_init = ShouldBindJSON dec_check zero_check (\<lambda>r. fc_Hash r \<noteq> [] \<and> fc_Size r \<noteq> 0)"

record file_complete_request =
  fq_Hash :: string
  fq_UploadID :: string
  fq_Size :: int
  fq_TotalParts :: int
  fq_Parts :: "upload_part_meta list option"

definition zero_part :: upload_part_meta where
  "zero_part = \<lparr>pm_PartNumber = 0, pm_ETag = []\<rparr>"

definition dec_part :: "upload_part_meta decoder" where
  "dec_part = dec_struct (\<lambda>k.
     if k = ''PART_NUMBER'' then Some (field_of pm_PartNumber pm_PartNumber_update dec_int64)
     else if k = ''ETAG'' then Some (field_of pm_ETag pm_ETag_update dec_string)
     else None)"

definition dec_file_complete :: "file_complete_request decoder" where
  "dec_file_complete = dec_struct (\<lambda>k.
     if k = ''HASH'' then Some (field_of fq_Hash fq_Hash_update dec_string)
     else if k = ''UPLOAD_ID'' then Some (field_of fq_UploadID fq_UploadID_update dec_string)
     else if k = ''SIZE'' then Some (field_of fq_Size fq_Size_update dec_int64)
     else if k = ''TOTAL_PARTS'' then Some (field_of fq_TotalParts fq_TotalParts_update dec_int64)
     else if k = ''PARTS'' then Some (field_of fq_Parts fq_Parts_update (dec_slice dec_part zero_part))
     else None)"

definition bind_file_complete :: "raw \<Rightarrow> file_complete_request option" where
  "bind_file_complete = ShouldBindJSON dec_file_complete
     \<lparr>fq_Hash = [], fq_UploadID = [], fq_Size = 0, fq_TotalParts = 0, fq_Parts = None\<rparr>
     (\<lambda>r. fq_Hash r \<noteq> [] \<and> fq_UploadID r \<noteq> [] \<and> fq_Size r \<noteq> 0 \<and> fq_TotalParts r \<noteq> 0)"

definition zero_book :: upload_init_book where
  "zero_book = \<lparr>ib_UUID = [], ib_ClientID = [], ib_Name = [], ib_Files = None, ib_DataVersion = []\<rparr>"

definition dec_book :: "upload_init_book decoder" where
  "dec_book = dec_struct (\<lambda>k.
     if k = ''UUID'' then Some (field_of ib_UUID ib_UUID_update dec_string)
     else if k = ''CLIENT_ID'' then Some (field_of ib_ClientID ib_ClientID_update dec_string)
     else if k = ''NAME'' then Some (field_of ib_Name ib_Name_update dec_string)
     else if k = ''FILES'' then Some (field_of ib_Files ib_Files_update dec_files)
     else if k = ''DATA_VERSION'' then Some (field_of ib_DataVersion ib_DataVersion_update dec_string)
     else None)"

definition bind_upload_init :: "raw \<Rightarrow> upload_init_book list option option" where
  "bind_upload_init = ShouldBindJSON
     (dec_struct (\<lambda>k. if k = ''BOOKS''
        then Some (field_of id (\<lambda>f x. f x) (dec_slice dec_book zero_book)) else None))
     None (\<lambda>_. True)"

end
