(* ===== verification/Handlers.thy ===== *)
theory Handlers
  imports Http
begin

text \<open>
  The handlers of \<open>internal/api\<close> (\<open>handlers.go\<close>, \<open>file_handlers.go\<close>, \<open>upload_handlers.go\<close>) and the
  authentication of \<open>middleware.go\<close>.  A handler is given what it takes from the request (\<open>deviceID\<close> from
  the context, query and path parameters, form fields, the body) and answers a response; logging is left
  out.  \<open>None\<close> is a query parameter that is not there.
\<close>

section \<open>What is answered\<close>

datatype reply =
    RPing time string
  | RRegister register_response
  | RRefresh refresh_response
  | RDevice device_info
  | RResults "change_result list"
  | RPull pull_result
  | RStatus sync_status
  | RHistory "book_history list"
  | RHistoryID int
  | RRestore restore_result
  | RLibrary library_status
  | RBooks raw
  | RConflicts "conflict list"
  | RResolved
  | RMissing "file_check_item list"
  | RFileComplete string
  | RFileInit file_init_response
  | RPart string int string
  | RStream bytes
  | RUploadInit "upload_init_result list"
  | RUploadStatus upload_status_response
  | RDone
  | RUploadComplete upload_complete_response

type_synonym 's endpoint = "('s, reply) handler"

text \<open>\<open>c.Query\<close> and \<open>c.DefaultQuery\<close>.\<close>

definition query_or :: "string \<Rightarrow> string option \<Rightarrow> string" where
  "query_or fallback q = (case q of None \<Rightarrow> fallback | Some v \<Rightarrow> v)"

section \<open>Public handlers\<close>

text \<open>The status \<open>"ok"\<close> is constant; the time is shown in UTC.\<close>

definition PingHandler :: "time \<Rightarrow> server_config \<Rightarrow> 's endpoint" where
  "PingHandler now cfg = answer (Reply 200 (RPing now (cfg_Version cfg)))"

definition register_error :: "error \<Rightarrow> reply response" where
  "register_error e =
     (if errors_Is e ErrInvalidKey then respondError 401 ''invalid_connection_key'' ''invalid connection key''
      else if errors_Is e ErrDeviceConflict then respondError 409 ''device_conflict'' ''device already registered''
      else internal_error)"

definition RegisterHandler :: "'s auth_env \<Rightarrow> 's auth_service \<Rightarrow> raw \<Rightarrow> 's endpoint" where
  "RegisterHandler env au body =
     (case bind_register body of
        None \<Rightarrow> answer (validation_error ''invalid request body'')
      | Some req \<Rightarrow> respond (Register env au req) register_error (\<lambda>r. Reply 200 (RRegister r)))"

definition RefreshHandler :: "'s auth_env \<Rightarrow> 's auth_service \<Rightarrow> raw \<Rightarrow> 's endpoint" where
  "RefreshHandler env au body =
     (case bind_refresh body of
        None \<Rightarrow> answer (validation_error ''invalid request body'')
      | Some token \<Rightarrow> respond (Refresh env au token)
          (\<lambda>e. if errors_Is e ErrInvalidRefreshToken
                then respondError 401 ''invalid_refresh_token'' ''invalid or expired refresh token''
                else internal_error)
          (\<lambda>r. Reply 200 (RRefresh r)))"

definition MeHandler :: "'s device_store \<Rightarrow> string \<Rightarrow> 's endpoint" where
  "MeHandler devices deviceID =
     respond (ds_GetDeviceByID devices deviceID)
       (\<lambda>e. if errors_Is e ErrDeviceNotFound then respondError 404 ''not_found'' ''device not found''
             else internal_error)
       (\<lambda>d. Reply 200 (RDevice d))"

section \<open>Synchronisation\<close>

definition validateChange :: "change \<Rightarrow> string option" where
  "validateChange ch =
     (if c_ChangeID ch = [] then Some ''change_id is required''
      else if c_EntityType ch = [] then Some ''entity_type is required''
      else if c_EntityID ch = [] then Some ''entity_id is required''
      else if c_Op ch \<noteq> OpUpsert \<and> c_Op ch \<noteq> OpDelete then Some ''op must be upsert or delete''
      else None)"

fun first_invalid :: "change list \<Rightarrow> string option" where
  "first_invalid [] = None"
| "first_invalid (c # cs) = (case validateChange c of Some m \<Rightarrow> Some m | None \<Rightarrow> first_invalid cs)"

definition PushHandler :: "(string \<Rightarrow> string) \<Rightarrow> 's sync_service \<Rightarrow> string \<Rightarrow> raw \<Rightarrow> 's endpoint" where
  "PushHandler sha svc deviceID body =
     (case bind_push body of
        None \<Rightarrow> answer (validation_error ''invalid request body'')
      | Some req \<Rightarrow>
          (let source = (if pq_Source req = [] then SyncSourceAuto else pq_Source req);
               changes = slice_list (pq_Changes req)
           in if source \<noteq> SyncSourceAuto \<and> source \<noteq> SyncSourceManual
              then answer (validation_error ''source must be manual or auto'')
              else if length changes = 0 then answer (validation_error ''changes is empty'')
              else case first_invalid changes of
                Some m \<Rightarrow> answer (validation_error m)
              | None \<Rightarrow> respond (Push sha svc deviceID source changes) (\<lambda>_. internal_error)
                  (\<lambda>rs. Reply 200 (RResults rs))))"

definition PullHandler :: "'s sync_service \<Rightarrow> string \<Rightarrow> string option \<Rightarrow> string option \<Rightarrow> 's endpoint" where
  "PullHandler svc deviceID cursorQ limitQ =
     (case ParseInt (query_or ''0'' cursorQ) of
        None \<Rightarrow> answer (validation_error ''invalid cursor'')
      | Some cursor \<Rightarrow>
          if cursor < 0 then answer (validation_error ''invalid cursor'')
          else (case ParseInt (query_or ''500'' limitQ) of
             None \<Rightarrow> answer (validation_error ''invalid limit'')
           | Some limit \<Rightarrow>
               if limit < 1 then answer (validation_error ''invalid limit'')
               else respond (Pull svc deviceID cursor (if limit > 1000 then 1000 else limit))
                 (\<lambda>_. internal_error) (\<lambda>r. Reply 200 (RPull r))))"

definition SyncStatusHandler :: "'s sync_service \<Rightarrow> string \<Rightarrow> 's endpoint" where
  "SyncStatusHandler svc deviceID =
     respond (Status svc deviceID) (\<lambda>_. internal_error) (\<lambda>r. Reply 200 (RStatus r))"

definition ListHistoryHandler :: "'s sync_service \<Rightarrow> string option \<Rightarrow> 's endpoint" where
  "ListHistoryHandler svc limitQ =
     (case ParseInt (query_or ''200'' limitQ) of
        None \<Rightarrow> answer (validation_error ''invalid limit'')
      | Some limit \<Rightarrow>
          if limit < 1 \<or> limit > 1000 then answer (validation_error ''invalid limit'')
          else respond (svc_ListHistory svc limit) (\<lambda>_. internal_error) (\<lambda>h. Reply 200 (RHistory h)))"

definition RecordHistoryHandler :: "'s sync_service \<Rightarrow> raw \<Rightarrow> 's endpoint" where
  "RecordHistoryHandler svc body =
     (case bind_history body of
        None \<Rightarrow> answer (validation_error ''op_type/tag/snapshot are required'')
      | Some req \<Rightarrow> respond (RecordHistory svc (hq_OpType req) (hq_Tag req) (hq_Snapshot req))
          (\<lambda>_. internal_error) (\<lambda>i. Reply 200 (RHistoryID i)))"

definition RestoreBookHandler :: "'s sync_service \<Rightarrow> string \<Rightarrow> raw \<Rightarrow> 's endpoint" where
  "RestoreBookHandler svc deviceID body =
     (case bind_restore body of
        None \<Rightarrow> answer (validation_error ''history_id is required'')
      | Some i \<Rightarrow> respond (RestoreBook svc deviceID i)
          (\<lambda>e. if errors_Is e ErrHistoryNotFound then respondError 404 ''not_found'' ''history entry not found''
                else internal_error)
          (\<lambda>r. Reply 200 (RRestore r)))"

definition LibraryStatusHandler :: "'s sync_service \<Rightarrow> 's endpoint" where
  "LibraryStatusHandler svc =
     respond (GetLibraryStatus svc) (\<lambda>_. internal_error) (\<lambda>r. Reply 200 (RLibrary r))"

definition LibraryBooksHandler :: "'s sync_service \<Rightarrow> 's endpoint" where
  "LibraryBooksHandler svc =
     respond (GetLibraryBooks svc) (\<lambda>_. internal_error) (\<lambda>r. Reply 200 (RBooks r))"

section \<open>Conflicts\<close>

definition ListConflictsHandler :: "'s sync_service \<Rightarrow> 's endpoint" where
  "ListConflictsHandler svc =
     respond (ListConflicts svc) (\<lambda>_. internal_error) (\<lambda>cs. Reply 200 (RConflicts cs))"

text \<open>The text of an error in a response; only that of a validation is relied on anywhere.\<close>

definition error_text :: "error \<Rightarrow> string" where
  "error_text e =
     (if e = ErrInvalidStrategy then ''invalid resolve strategy''
      else if e = ErrNoLocalPayload then ''conflict has no local payload''
      else if e = ErrPayloadRequired then ''payload is required for manual resolve'' else ''error'')"

definition resolve_error :: "resolve_request \<Rightarrow> error \<Rightarrow> reply response" where
  "resolve_error req e =
     (if errors_Is e ErrConflictNotFound then respondError 404 ''not_found'' ''conflict not found''
      else if errors_Is e ErrConflictResolved then respondError 409 ''conflict_resolved'' ''conflict already resolved''
      else if errors_Is e ErrInvalidStrategy \<or> rq_Payload req = None then validation_error (error_text e)
      else internal_error)"

definition ResolveConflictHandler :: "'s sync_service \<Rightarrow> string \<Rightarrow> string \<Rightarrow> raw \<Rightarrow> 's endpoint" where
  "ResolveConflictHandler svc deviceID idP body =
     (case ParseInt idP of
        None \<Rightarrow> answer (validation_error ''invalid conflict id'')
      | Some conflictID \<Rightarrow>
          if conflictID < 1 then answer (validation_error ''invalid conflict id'')
          else (case bind_resolve body of
             None \<Rightarrow> answer (validation_error ''invalid request body'')
           | Some req \<Rightarrow> respond (ResolveConflict svc deviceID conflictID req) (resolve_error req)
               (\<lambda>_. Reply 200 RResolved)))"

section \<open>Files\<close>

definition CheckFilesHandler :: "'s file_service \<Rightarrow> raw \<Rightarrow> 's endpoint" where
  "CheckFilesHandler fs body =
     (case bind_check body of
        None \<Rightarrow> answer (validation_error ''invalid request body'')
      | Some files0 \<Rightarrow>
          (let files = slice_list files0 in
           if length files = 0 then answer (validation_error ''files is empty'')
           else if \<exists>f\<in>set files. fc_Hash f = [] then answer (validation_error ''hash is required'')
           else respond (CheckFiles fs files) (\<lambda>_. internal_error) (\<lambda>ms. Reply 200 (RMissing ms))))"

definition FileDirectUploadHandler ::
  "'s file_service \<Rightarrow> string option \<Rightarrow> string option \<Rightarrow> reader \<Rightarrow> 's endpoint" where
  "FileDirectUploadHandler fs hashQ sizeQ stream =
     (let hash = query_or [] hashQ; sizeStr = query_or [] sizeQ in
      if hash = [] \<or> sizeStr = [] then answer (validation_error ''hash and size are required'')
      else case ParseInt sizeStr of
        None \<Rightarrow> answer (validation_error ''invalid size'')
      | Some sz \<Rightarrow>
          if sz < 0 then answer (validation_error ''invalid size'')
          else respond (DirectUpload fs hash sz stream) (\<lambda>_. internal_error)
            (\<lambda>_. Reply 200 (RFileComplete hash)))"

definition FileInitUploadHandler :: "'s file_service \<Rightarrow> raw \<Rightarrow> 's endpoint" where
  "FileInitUploadHandler fs body =
     (case bind_file_init body of
        None \<Rightarrow> answer (validation_error ''invalid request body'')
      | Some req \<Rightarrow> respond (FileInitUpload fs (fc_Hash req) (fc_Size req)) (\<lambda>_. internal_error)
          (\<lambda>r. Reply 200 (RFileInit r)))"

text \<open>
  The form file \<open>chunk\<close>: absent, not to be opened, or a stream.  An absent form field reads as the empty
  string.
\<close>

datatype form_file = NoFile | BadFile | FormFile reader

definition upload_part_error :: "string \<Rightarrow> error \<Rightarrow> reply response" where
  "upload_part_error hash e =
     (if errors_Is e ErrFileExists then Reply 200 (RFileComplete hash) else internal_error)"

definition FileUploadPartHandler ::
  "'s file_service \<Rightarrow> string \<Rightarrow> string \<Rightarrow> string \<Rightarrow> form_file \<Rightarrow> 's endpoint" where
  "FileUploadPartHandler fs hash uploadID partNumberF chunk =
     (case ParseInt partNumberF of
        None \<Rightarrow> answer (validation_error ''invalid part_number'')
      | Some partNumber \<Rightarrow>
          if partNumber < 1 then answer (validation_error ''invalid part_number'')
          else (case chunk of
             NoFile \<Rightarrow> answer (validation_error ''chunk is required'')
           | BadFile \<Rightarrow> answer internal_error
           | FormFile src \<Rightarrow>
               if rd_fails src then answer internal_error
               else respond (UploadPart fs hash uploadID partNumber (rd_data src)) (upload_part_error hash)
                 (\<lambda>etag. Reply 200 (RPart hash partNumber etag))))"

definition complete_error :: "error \<Rightarrow> reply response" where
  "complete_error e =
     (if errors_Is e ErrUploadNotComplete then validation_error ''upload parts incomplete'' else internal_error)"

definition FileCompleteUploadHandler :: "'s file_service \<Rightarrow> raw \<Rightarrow> 's endpoint" where
  "FileCompleteUploadHandler fs body =
     (case bind_file_complete body of
        None \<Rightarrow> answer (validation_error ''invalid request body'')
      | Some req \<Rightarrow>
          (let parts = slice_list (fq_Parts req) in
           if fq_TotalParts req < 1 \<or> int (length parts) \<noteq> fq_TotalParts req
           then answer (validation_error ''parts must match total_parts'')
           else if \<exists>p\<in>set parts. pm_PartNumber p < 1 \<or> pm_ETag p = []
           then answer (validation_error ''invalid part'')
           else respond (CompleteUpload fs (fq_Hash req) (fq_UploadID req) (fq_Size req) parts) complete_error
             (\<lambda>_. Reply 200 (RFileComplete (fq_Hash req)))))"

definition FileDownloadHandler :: "'s file_service \<Rightarrow> string option \<Rightarrow> 's endpoint" where
  "FileDownloadHandler fs hashQ =
     (let hash = query_or [] hashQ in
      if hash = [] then answer (validation_error ''hash is required'')
      else respond (Download fs hash)
        (\<lambda>e. if errors_Is e ErrObjectNotFound then respondError 404 ''not_found'' ''file not found''
              else internal_error)
        (\<lambda>(content, sz). Reply 200 (RStream content)))"

section \<open>Upload tasks\<close>

definition UploadInitHandler :: "'s upload_service \<Rightarrow> string \<Rightarrow> raw \<Rightarrow> 's endpoint" where
  "UploadInitHandler us deviceID body =
     (case bind_upload_init body of
        None \<Rightarrow> answer (validation_error ''invalid request body'')
      | Some books \<Rightarrow>
          if length (slice_list books) = 0 then answer (validation_error ''books is empty'')
          else respond (UploadInit us deviceID (slice_list books)) (\<lambda>_. internal_error)
            (\<lambda>rs. Reply 200 (RUploadInit rs)))"

definition upload_error :: "error \<Rightarrow> reply response" where
  "upload_error e =
     (if errors_Is e ErrUploadNotFound then respondError 404 ''not_found'' ''upload task not found''
      else internal_error)"

definition UploadStatusHandler :: "'s upload_service \<Rightarrow> string \<Rightarrow> 's endpoint" where
  "UploadStatusHandler us uuid =
     (if uuid = [] then answer (validation_error ''uuid is required'')
      else respond (UploadStatus us uuid) upload_error (\<lambda>r. Reply 200 (RUploadStatus r)))"

definition UploadFileDoneHandler :: "'s upload_service \<Rightarrow> string \<Rightarrow> string option \<Rightarrow> 's endpoint" where
  "UploadFileDoneHandler us uuid hashQ =
     (let hash = query_or [] hashQ in
      if uuid = [] \<or> hash = [] then answer (validation_error ''uuid and hash are required'')
      else respond (UploadFileDone us uuid hash) (\<lambda>_. internal_error) (\<lambda>_. Reply 200 RDone))"

definition UploadCompleteHandler :: "'s upload_service \<Rightarrow> string \<Rightarrow> string \<Rightarrow> 's endpoint" where
  "UploadCompleteHandler us deviceID uuid =
     (if uuid = [] then answer (validation_error ''uuid is required'')
      else respond (UploadComplete us deviceID uuid) upload_error (\<lambda>r. Reply 200 (RUploadComplete r)))"

definition UploadAbandonHandler :: "'s upload_service \<Rightarrow> string \<Rightarrow> 's endpoint" where
  "UploadAbandonHandler us uuid =
     (if uuid = [] then answer (validation_error ''uuid is required'')
      else respond (UploadMarkFailed us uuid) (\<lambda>_. internal_error) (\<lambda>_. Reply 200 RDone))"

definition FilesNotConfiguredHandler :: "'s endpoint" where
  "FilesNotConfiguredHandler =
     answer (respondError 503 ''files_not_configured'' ''file sync is not configured on server'')"

section \<open>Authentication\<close>

definition bearer :: string where "bearer = ''Bearer ''"

text \<open>\<open>AuthMiddleware\<close>: \<open>next\<close> is run with the device of the token.\<close>

definition AuthMiddleware ::
  "jwt_lib \<Rightarrow> time \<Rightarrow> jwt_service \<Rightarrow> 's device_store \<Rightarrow> string \<Rightarrow> (string \<Rightarrow> 's endpoint) \<Rightarrow> 's endpoint" where
  "AuthMiddleware lib now js devices header next1 =
     (if take (length bearer) header \<noteq> bearer
      then answer (respondError 401 ''unauthorized'' ''missing bearer token'')
      else case jwt_Parse lib now js (drop (length bearer) header) of
        Inl e \<Rightarrow> answer (respondError 401 ''unauthorized'' ''invalid or expired token'')
      | Inr c \<Rightarrow> (\<lambda>s. case ds_GetDeviceByID devices (cl_DeviceID c) s of
          (Inl e, t) \<Rightarrow>
            (if errors_Is e ErrDeviceNotFound then respondError 401 ''unauthorized'' ''device not registered''
             else internal_error, t)
        | (Inr d, t) \<Rightarrow> next1 (cl_DeviceID c) t))"

end
