(* ===== verification/Router.thy ===== *)
theory Router
  imports Handlers
begin

text \<open>
  \<open>internal/api/router.go\<close>: the table of routes and what stands behind each of them.  Finding the route
  of a request is gin's work and a parameter: \<open>gin\<close> is given the methods and patterns of the table, and
  answers the number of a route and the values of the pattern's parameters.
\<close>

section \<open>Routes\<close>

datatype http_method = GET | POST | PUT | PATCH | HEAD | OPTIONS | DELETE | CONNECT | TRACE

instantiation http_method :: enum
begin

definition enum_http_method :: "http_method list" where
  "enum_http_method = [GET, POST, PUT, PATCH, HEAD, OPTIONS, DELETE, CONNECT, TRACE]"

definition enum_all_http_method :: "(http_method \<Rightarrow> bool) \<Rightarrow> bool" where
  "enum_all_http_method P \<longleftrightarrow> P GET \<and> P POST \<and> P PUT \<and> P PATCH \<and> P HEAD \<and> P OPTIONS \<and> P DELETE \<and>
     P CONNECT \<and> P TRACE"

definition enum_ex_http_method :: "(http_method \<Rightarrow> bool) \<Rightarrow> bool" where
  "enum_ex_http_method P \<longleftrightarrow> P GET \<or> P POST \<or> P PUT \<or> P PATCH \<or> P HEAD \<or> P OPTIONS \<or> P DELETE \<or>
     P CONNECT \<or> P TRACE"

instance
proof
  have cover: "m = GET \<or> m = POST \<or> m = PUT \<or> m = PATCH \<or> m = HEAD \<or> m = OPTIONS \<or> m = DELETE \<or>
      m = CONNECT \<or> m = TRACE" for m by (cases m) simp_all
  then have univ: "(UNIV :: http_method set) = set Enum.enum" by (auto simp: enum_http_method_def)
  then show "UNIV = set (Enum.enum :: http_method list)" .
  show "distinct (Enum.enum :: http_method list)" by (simp add: enum_http_method_def)
  show "Enum.enum_all P \<longleftrightarrow> Ball UNIV P" for P :: "http_method \<Rightarrow> bool"
    unfolding univ by (simp add: enum_http_method_def enum_all_http_method_def)
  show "Enum.enum_ex P \<longleftrightarrow> Bex UNIV P" for P :: "http_method \<Rightarrow> bool"
    unfolding univ by (simp add: enum_http_method_def enum_ex_http_method_def)
qed

end

text \<open>\<open>authed.Any\<close> registers a handler for every method.\<close>

definition any_method :: "http_method list" where
  "any_method = Enum.enum"

text \<open>
  What a handler reads of a request: its body as JSON and as a stream, the query, the form, the
  \<open>Authorization\<close> header (empty when there is none).
\<close>

record request =
  hr_method :: http_method
  hr_path :: string
  hr_header :: string
  hr_query :: "string \<Rightarrow> string option"
  hr_form :: "string \<Rightarrow> string"
  hr_chunk :: form_file
  hr_json :: raw
  hr_stream :: reader

type_synonym params = "string \<Rightarrow> string"

text \<open>A handler behind the middleware is given the device of the token.\<close>

datatype 's route_handler =
    Public "request \<Rightarrow> 's endpoint"
  | Authed "request \<Rightarrow> params \<Rightarrow> string \<Rightarrow> 's endpoint"

record 's route =
  rt_methods :: "http_method list"
  rt_pattern :: string
  rt_handler :: "'s route_handler"

definition public_route :: "http_method \<Rightarrow> string \<Rightarrow> (request \<Rightarrow> 's endpoint) \<Rightarrow> 's route" where
  "public_route m pattern h = \<lparr>rt_methods = [m], rt_pattern = pattern, rt_handler = Public h\<rparr>"

text \<open>The group \<open>/api/v1\<close> behind \<open>AuthMiddleware\<close>.\<close>

definition apiV1 :: string where "apiV1 = ''/api/v1''"

definition authed ::
  "http_method \<Rightarrow> string \<Rightarrow> (request \<Rightarrow> params \<Rightarrow> string \<Rightarrow> 's endpoint) \<Rightarrow> 's route" where
  "authed m pattern h = \<lparr>rt_methods = [m], rt_pattern = apiV1 @ pattern, rt_handler = Authed h\<rparr>"

definition authed_any :: "string \<Rightarrow> 's endpoint \<Rightarrow> 's route" where
  "authed_any pattern h =
     \<lparr>rt_methods = any_method, rt_pattern = apiV1 @ pattern, rt_handler = Authed (\<lambda>_ _ _. h)\<rparr>"

record 's dependencies =
  dp_Config :: server_config
  dp_Auth :: "'s auth_service"
  dp_JWT :: jwt_service
  dp_Devices :: "'s device_store"
  dp_Sync :: "'s sync_service"
  dp_Files :: "'s file_service option"
  dp_Upload :: "'s upload_service option"

text \<open>What a request takes from outside: the hash function, the JWT library, the clock, randomness.\<close>

record 's http_env =
  he_sha :: "string \<Rightarrow> string"
  he_now :: time
  he_auth :: "'s auth_env"

definition file_routes :: "'s file_service \<Rightarrow> 's route list" where
  "file_routes fs =
     [authed POST ''/files/check'' (\<lambda>r _ _. CheckFilesHandler fs (hr_json r)),
      authed POST ''/files/upload/direct'' (\<lambda>r _ _.
        FileDirectUploadHandler fs (hr_query r ''hash'') (hr_query r ''size'') (hr_stream r)),
      authed POST ''/files/upload/init'' (\<lambda>r _ _. FileInitUploadHandler fs (hr_json r)),
      authed POST ''/files/upload'' (\<lambda>r _ _. FileUploadPartHandler fs (hr_form r ''hash'')
        (hr_form r ''upload_id'') (hr_form r ''part_number'') (hr_chunk r)),
      authed POST ''/files/upload/complete'' (\<lambda>r _ _. FileCompleteUploadHandler fs (hr_json r)),
      authed GET ''/files/download'' (\<lambda>r _ _. FileDownloadHandler fs (hr_query r ''hash''))]"

definition upload_routes :: "'s upload_service \<Rightarrow> 's route list" where
  "upload_routes us =
     [authed POST ''/upload/init'' (\<lambda>r _ dev. UploadInitHandler us dev (hr_json r)),
      authed GET ''/upload/status/:uuid'' (\<lambda>r ps _. UploadStatusHandler us (ps ''uuid'')),
      authed POST ''/upload/file/:uuid/done'' (\<lambda>r ps _.
        UploadFileDoneHandler us (ps ''uuid'') (hr_query r ''hash'')),
      authed POST ''/upload/complete/:uuid'' (\<lambda>r ps dev. UploadCompleteHandler us dev (ps ''uuid'')),
      authed POST ''/upload/abandon/:uuid'' (\<lambda>r ps _. UploadAbandonHandler us (ps ''uuid''))]"

definition sync_routes :: "(string \<Rightarrow> string) \<Rightarrow> 's device_store \<Rightarrow> 's sync_service \<Rightarrow> 's route list" where
  "sync_routes sha devices svc =
     [authed GET ''/devices/me'' (\<lambda>r _ dev. MeHandler devices dev),
      authed POST ''/sync/push'' (\<lambda>r _ dev. PushHandler sha svc dev (hr_json r)),
      authed GET ''/sync/pull'' (\<lambda>r _ dev. PullHandler svc dev (hr_query r ''cursor'') (hr_query r ''limit'')),
      authed GET ''/sync/status'' (\<lambda>r _ dev. SyncStatusHandler svc dev),
      authed GET ''/sync/library'' (\<lambda>r _ _. LibraryStatusHandler svc),
      authed GET ''/sync/books'' (\<lambda>r _ _. LibraryBooksHandler svc),
      authed GET ''/books/history'' (\<lambda>r _ _. ListHistoryHandler svc (hr_query r ''limit'')),
      authed POST ''/books/history'' (\<lambda>r _ _. RecordHistoryHandler svc (hr_json r)),
      authed POST ''/books/restore'' (\<lambda>r _ dev. RestoreBookHandler svc dev (hr_json r)),
      authed GET ''/conflicts'' (\<lambda>r _ _. ListConflictsHandler svc),
      authed POST ''/conflicts/:id/resolve'' (\<lambda>r ps dev. ResolveConflictHandler svc dev (ps ''id'') (hr_json r))]"

definition NewRouter :: "'s http_env \<Rightarrow> 's dependencies \<Rightarrow> 's route list" where
  "NewRouter env deps =
     [public_route GET ''/ping'' (\<lambda>r. PingHandler (he_now env) (dp_Config deps)),
      public_route POST (apiV1 @ ''/auth/register'') (\<lambda>r. RegisterHandler (he_auth env) (dp_Auth deps) (hr_json r)),
      public_route POST (apiV1 @ ''/auth/refresh'') (\<lambda>r. RefreshHandler (he_auth env) (dp_Auth deps) (hr_json r))] @
     sync_routes (he_sha env) (dp_Devices deps) (dp_Sync deps) @
     (case dp_Files deps of
        Some fs \<Rightarrow> file_routes fs
      | None \<Rightarrow> [authed_any ''/files/*path'' FilesNotConfiguredHandler]) @
     (case dp_Upload deps of
        Some us \<Rightarrow> upload_routes us
      | None \<Rightarrow> [authed_any ''/upload/*path'' FilesNotConfiguredHandler])"

section \<open>Serving a request\<close>

type_synonym gin = "(http_method list \<times> string) list \<Rightarrow> http_method \<Rightarrow> string \<Rightarrow> (nat \<times> params) option"

text \<open>
  A path fits a pattern segment by segment: \<open>:name\<close> stands for one segment and \<open>*name\<close> for the rest.  gin
  finds only routes of the table whose methods and pattern fit the request.
\<close>

fun segments :: "string \<Rightarrow> string list" where
  "segments [] = [[]]"
| "segments (c # cs) =
     (if c = CHR ''/'' then [] # segments cs
      else case segments cs of [] \<Rightarrow> [[c]] | x # xs \<Rightarrow> (c # x) # xs)"

fun fits :: "string list \<Rightarrow> string list \<Rightarrow> bool" where
  "fits [] xs = (xs = [])"
| "fits (p # ps) xs =
     (if p \<noteq> [] \<and> hd p = CHR ''*'' then True
      else case xs of
        [] \<Rightarrow> False
      | x # xs \<Rightarrow> (p = x \<or> p \<noteq> [] \<and> hd p = CHR '':'') \<and> fits ps xs)"

definition gin_finds :: "gin \<Rightarrow> bool" where
  "gin_finds gin \<longleftrightarrow> (\<forall>table m path i ps. gin table m path = Some (i, ps) \<longrightarrow>
     i < length table \<and> m \<in> set (fst (table ! i)) \<and> fits (segments (snd (table ! i))) (segments path))"

text \<open>Where there is no route gin answers itself.\<close>

definition not_found :: "'b response" where
  "not_found = Failure 404 [] ''404 page not found''"

definition run_route ::
  "'s http_env \<Rightarrow> 's dependencies \<Rightarrow> request \<Rightarrow> params \<Rightarrow> 's route \<Rightarrow> 's endpoint" where
  "run_route env deps r ps route =
     (case rt_handler route of
        Public h \<Rightarrow> h r
      | Authed h \<Rightarrow> AuthMiddleware (ae_jwt (he_auth env)) (he_now env) (dp_JWT deps) (dp_Devices deps)
          (hr_header r) (h r ps))"

definition serve :: "gin \<Rightarrow> 's http_env \<Rightarrow> 's dependencies \<Rightarrow> request \<Rightarrow> 's endpoint" where
  "serve gin env deps r =
     (let table = NewRouter env deps in
      case gin (map (\<lambda>t. (rt_methods t, rt_pattern t)) table) (hr_method r) (hr_path r) of
        None \<Rightarrow> answer not_found
      | Some (i, ps) \<Rightarrow> run_route env deps r ps (table ! i))"

end
