(* ===== verification/Schema.thy ===== *)
theory Schema
  imports Database
begin

text \<open>
  The tables and indexes that \<open>internal/store/db.go\<close> creates at every start, as data, and what PostgreSQL
  documents of the statements: \<open>CREATE TABLE IF NOT EXISTS\<close> does nothing when a relation of the name is
  there, of whatever columns; \<open>CREATE INDEX IF NOT EXISTS\<close> needs the table and its columns first.  Whether
  a referenced column is a key is not checked.
\<close>

section \<open>Statements\<close>

datatype column_type = Text | Integer32 | BigInt | BigSerial | JsonB | Boolean | TimestampTZ

datatype column_constraint =
  NotNull | Key | Default string | References string string | Check string

type_synonym column = "string \<times> column_type \<times> column_constraint list"

datatype ddl =
    CreateTable string "column list" "string list"
  | CreateIndex string string "string list"

definition schema :: "ddl list" where
  "schema =
    [CreateTable ''devices''
      [(''id'', Text, [Key]), (''name'', Text, [NotNull]), (''platform'', Text, [NotNull]),
       (''key_hash'', Text, [NotNull]), (''created_at'', TimestampTZ, [NotNull, Default ''now()'']),
       (''last_seen_at'', TimestampTZ, [NotNull, Default ''now()''])] [],
     CreateTable ''current_book''
      [(''entity_id'', Text, [Key]), (''name'', Text, [NotNull]),
       (''current_page'', Integer32, [NotNull, Default ''0'']), (''cover_hash'', Text, []),
       (''files'', JsonB, [NotNull, Default ''[]'']), (''revision'', BigInt, [NotNull, Default ''0'']),
       (''progress_revision'', BigInt, [NotNull, Default ''0'']),
       (''deleted'', Boolean, [NotNull, Default ''false'']),
       (''created_at'', TimestampTZ, [NotNull, Default ''now()'']),
       (''updated_at'', TimestampTZ, [NotNull, Default ''now()''])] [],
     CreateTable ''entities''
      [(''entity_type'', Text, [NotNull]), (''entity_id'', Text, [NotNull]),
       (''revision'', BigInt, [NotNull, Default ''0'']),
       (''deleted'', Boolean, [NotNull, Default ''false'']), (''payload'', JsonB, []),
       (''created_at'', TimestampTZ, [NotNull, Default ''now()'']),
       (''updated_at'', TimestampTZ, [NotNull, Default ''now()''])] [''entity_type'', ''entity_id''],
     CreateTable ''sync_events''
      [(''id'', BigSerial, [Key]), (''change_id'', Text, [NotNull]), (''entity_type'', Text, [NotNull]),
       (''entity_id'', Text, [NotNull]), (''revision'', BigInt, [NotNull]),
       (''device_id'', Text, [NotNull]), (''op'', Text, [NotNull]), (''payload'', JsonB, []),
       (''status'', Text, [NotNull, Default ''done'']),
       (''created_at'', TimestampTZ, [NotNull, Default ''now()''])] [],
     CreateIndex ''idx_sync_events_entity'' ''sync_events'' [''entity_type'', ''entity_id''],
     CreateIndex ''idx_sync_events_status_id'' ''sync_events'' [''status'', ''id''],
     CreateTable ''sync_cursors''
      [(''device_id'', Text, [Key]), (''last_event_id'', BigInt, [NotNull, Default ''0'']),
       (''updated_at'', TimestampTZ, [NotNull, Default ''now()''])] [],
     CreateTable ''conflicts''
      [(''id'', BigSerial, [Key]), (''event_id'', BigInt, [NotNull, References ''sync_events'' ''id'']),
       (''entity_type'', Text, [NotNull]), (''entity_id'', Text, [NotNull]),
       (''base_revision'', BigInt, [NotNull]), (''current_revision'', BigInt, [NotNull]),
       (''status'', Text, [NotNull, Default ''open'']), (''resolved_by'', Text, []),
       (''resolved_at'', TimestampTZ, []), (''created_at'', TimestampTZ, [NotNull, Default ''now()''])] [],
     CreateTable ''book_history''
      [(''id'', BigSerial, [Key]), (''op_type'', Text, [NotNull]),
       (''tag'', Text, [NotNull, Default '''']), (''payload'', JsonB, [NotNull]),
       (''created_at'', TimestampTZ, [NotNull, Default ''now()''])] [],
     CreateTable ''library_meta''
      [(''id'', Integer32, [Key, Check ''id = 1'']), (''book_version'', Text, [NotNull, Default '''']),
       (''updated_at'', TimestampTZ, [NotNull, Default ''now()''])] [],
     CreateTable ''book_upload''
      [(''uuid'', Text, [Key]), (''name'', Text, [NotNull]),
       (''status'', Text, [NotNull, Default ''uploading'']),
       (''total_files'', Integer32, [NotNull, Default ''0'']),
       (''done_files'', Integer32, [NotNull, Default ''0'']),
       (''data_version'', Text, [NotNull, Default '''']), (''device_id'', Text, [NotNull, Default '''']),
       (''created_at'', TimestampTZ, [NotNull, Default ''now()'']),
       (''updated_at'', TimestampTZ, [NotNull, Default ''now()''])] [],
     CreateTable ''book_upload_file''
      [(''upload_uuid'', Text, [NotNull]), (''rel_path'', Text, [NotNull]), (''hash'', Text, [NotNull]),
       (''size'', BigInt, [NotNull, Default ''0'']), (''status'', Text, [NotNull, Default ''pending''])] [''upload_uuid'', ''rel_path''],
     CreateTable ''file_meta''
      [(''hash'', Text, [Key]), (''size'', BigInt, [NotNull, Default ''0'']),
       (''mime_type'', Text, [NotNull, Default '''']),
       (''created_at'', TimestampTZ, [NotNull, Default ''now()'']),
       (''last_used_at'', TimestampTZ, [NotNull, Default ''now()''])] []]"

section \<open>The catalog\<close>

record catalog =
  ct_tables :: "string \<rightharpoonup> column list \<times> string list"
  ct_indexes :: "string \<rightharpoonup> string \<times> string list"

definition no_catalog :: catalog where
  "no_catalog = \<lparr>ct_tables = (\<lambda>_. None), ct_indexes = (\<lambda>_. None)\<rparr>"

definition relation :: "string \<Rightarrow> catalog \<Rightarrow> bool" where
  "relation n s \<longleftrightarrow> ct_tables s n \<noteq> None \<or> ct_indexes s n \<noteq> None"

definition has_column :: "string \<Rightarrow> string \<Rightarrow> catalog \<Rightarrow> bool" where
  "has_column t c s \<longleftrightarrow> (case ct_tables s t of None \<Rightarrow> False | Some (cols, _) \<Rightarrow> c \<in> fst ` set cols)"

definition references_there :: "column list \<Rightarrow> catalog \<Rightarrow> bool" where
  "references_there cols s \<longleftrightarrow>
     list_all (\<lambda>(_, _, ks). list_all (\<lambda>k. case k of References t c \<Rightarrow> has_column t c s | _ \<Rightarrow> True) ks) cols"

fun exec_ddl :: "ddl \<Rightarrow> (catalog, unit) op" where
  "exec_ddl (CreateTable t cols pk) s =
     (if relation t s then (Inr (), s)
      else if \<not> references_there cols s then (Inl ErrDatabase, s)
      else (Inr (), s\<lparr>ct_tables := (ct_tables s)(t \<mapsto> (cols, pk))\<rparr>))"
| "exec_ddl (CreateIndex i t cols) s =
     (if \<not> list_all (\<lambda>c. has_column t c s) cols \<or> ct_tables s t = None then (Inl ErrDatabase, s)
      else if relation i s then (Inr (), s)
      else (Inr (), s\<lparr>ct_indexes := (ct_indexes s)(i \<mapsto> (t, cols))\<rparr>))"

text \<open>\<open>EnsureSchema\<close>: one statement after the other; \<open>run_ddl\<close> is the connection.\<close>

fun EnsureSchema :: "(ddl \<Rightarrow> ('s, unit) op) \<Rightarrow> ddl list \<Rightarrow> ('s, unit) op" where
  "EnsureSchema run_ddl [] = ret ()"
| "EnsureSchema run_ddl (d # ds) = bindE (wrapE ''ensure schema'' (run_ddl d)) (\<lambda>_. EnsureSchema run_ddl ds)"

section \<open>Starting again\<close>

definition extends :: "catalog \<Rightarrow> catalog \<Rightarrow> bool" where
  "extends s t \<longleftrightarrow> ct_tables s \<subseteq>\<^sub>m ct_tables t \<and> ct_indexes s \<subseteq>\<^sub>m ct_indexes t"

lemma extends_refl [simp]: "extends s s"
  by (simp add: extends_def)

lemma extends_trans: "extends s t \<Longrightarrow> extends t u \<Longrightarrow> extends s u"
  unfolding extends_def by (blast intro: map_le_trans)

lemma extends_relation: "extends s t \<Longrightarrow> relation n s \<Longrightarrow> relation n t"
  by (auto simp: extends_def relation_def map_le_def dom_def)

lemma extends_table: "extends s t \<Longrightarrow> ct_tables s n = Some x \<Longrightarrow> ct_tables t n = Some x"
  by (force simp: extends_def map_le_def dom_def)

lemma extends_column: "extends s t \<Longrightarrow> has_column n c s \<Longrightarrow> has_column n c t"
  using extends_table [of s t n] by (auto simp: has_column_def split: option.splits)

lemma exec_ddl_extends: "extends s (snd (exec_ddl d s))"
  by (cases d) (auto simp: extends_def map_le_def relation_def)

lemma exec_ddl_again:
  assumes "exec_ddl d s = (Inr (), t)" "extends t u"
  shows "exec_ddl d u = (Inr (), u)"
proof (cases d)
  case (CreateTable n cols pk)
  then have "relation n t" using assms(1) by (auto simp: relation_def split: if_splits)
  with CreateTable extends_relation [OF assms(2)] show ?thesis by simp
next
  case (CreateIndex i n cols)
  then have t: "relation i t" "list_all (\<lambda>c. has_column n c t) cols" "ct_tables t n \<noteq> None"
    using assms(1) by (auto simp: relation_def has_column_def split: if_splits)
  moreover have "list_all (\<lambda>c. has_column n c u) cols"
    using t(2) extends_column [OF assms(2)] by (auto simp: list_all_iff)
  ultimately show ?thesis
    using CreateIndex extends_relation [OF assms(2)] extends_table [OF assms(2)] by auto
qed

lemma ensure_extends: "extends s (snd (EnsureSchema exec_ddl ds s))"
proof (induction ds arbitrary: s)
  case (Cons d ds)
  then show ?case
    using exec_ddl_extends [of s d] extends_trans
    by (auto simp: bindE_def wrapE_def split: prod.split sum.split)
qed simp

lemma ensure_again:
  assumes "EnsureSchema exec_ddl ds s = (Inr (), t)" "extends t u"
  shows "EnsureSchema exec_ddl (ds @ es) u = EnsureSchema exec_ddl es u"
  using assms
proof (induction ds arbitrary: s)
  case (Cons d ds)
  then obtain v where v: "exec_ddl d s = (Inr (), v)" "EnsureSchema exec_ddl ds v = (Inr (), t)"
    by (auto simp: bindE_def wrapE_def split: prod.splits sum.splits)
  then have "extends v u" using ensure_extends [of v ds] Cons.prems(2) extends_trans by fastforce
  then have "exec_ddl d u = (Inr (), u)" using v(1) exec_ddl_again by blast
  with Cons.IH [OF v(2) Cons.prems(2)] show ?case by (simp add: bindE_def wrapE_def)
qed simp

lemma ensure_append:
  "EnsureSchema run_ddl (ds @ es) = bindE (EnsureSchema run_ddl ds) (\<lambda>_. EnsureSchema run_ddl es)"
  by (induction ds) (simp_all add: bindE_assoc)

section \<open>Properties\<close>

text \<open>Every statement finds what it needs: on an empty database all are created.\<close>

lemma schema_fresh:
  "\<exists>u. EnsureSchema exec_ddl schema no_catalog = (Inr (), u) \<and>
     dom (ct_tables u) = {''file_meta'', ''book_upload_file'', ''book_upload'', ''library_meta'', ''book_history'',
       ''conflicts'', ''sync_cursors'', ''sync_events'', ''entities'', ''current_book'', ''devices''} \<and>
     dom (ct_indexes u) = {''idx_sync_events_status_id'', ''idx_sync_events_entity''}"
  by (simp add: schema_def bindE_def wrapE_def relation_def references_there_def has_column_def no_catalog_def)

text \<open>
  C31: Starting is safe.  On an empty database a start creates every table and index.  If a start got
  through the first statements of the schema and stopped there, for whatever reason, the next one does what
  a start from the beginning does; after a whole one it changes nothing; and no start touches a relation
  that is there, so that a table of an older version keeps its columns.
\<close>

theorem restart_safe:
  assumes "schema = ds @ es" "EnsureSchema exec_ddl ds s = (Inr (), t)"
  shows "EnsureSchema exec_ddl schema t = EnsureSchema exec_ddl schema s \<and>
    extends s (snd (EnsureSchema exec_ddl schema s)) \<and>
    (\<forall>u. EnsureSchema exec_ddl schema s = (Inr (), u) \<longrightarrow> EnsureSchema exec_ddl schema u = (Inr (), u)) \<and>
    (\<exists>u. EnsureSchema exec_ddl schema no_catalog = (Inr (), u) \<and>
       dom (ct_tables u) = {''file_meta'', ''book_upload_file'', ''book_upload'', ''library_meta'', ''book_history'',
         ''conflicts'', ''sync_cursors'', ''sync_events'', ''entities'', ''current_book'', ''devices''} \<and>
       dom (ct_indexes u) = {''idx_sync_events_status_id'', ''idx_sync_events_entity''})"
proof (intro conjI allI impI)
  show "EnsureSchema exec_ddl schema t = EnsureSchema exec_ddl schema s"
  proof -
    have "EnsureSchema exec_ddl schema t = EnsureSchema exec_ddl es t"
      unfolding assms(1) by (rule ensure_again [OF assms(2) extends_refl])
    also have "\<dots> = EnsureSchema exec_ddl schema s"
      unfolding assms(1) by (simp add: ensure_append bindE_def assms(2))
    finally show ?thesis .
  qed
  show "extends s (snd (EnsureSchema exec_ddl schema s))" by (rule ensure_extends)
  show "EnsureSchema exec_ddl schema u = (Inr (), u)" if "EnsureSchema exec_ddl schema s = (Inr (), u)" for u
    using ensure_again [OF that extends_refl, of "[]"] by (simp only: append_Nil2 EnsureSchema.simps(1) ret_apply)
qed (rule schema_fresh)

theorem restart_safe_witness:
  "\<exists>t. EnsureSchema exec_ddl schema no_catalog = (Inr (), t) \<and> EnsureSchema exec_ddl schema t = (Inr (), t)"
proof -
  obtain t where t: "EnsureSchema exec_ddl schema no_catalog = (Inr (), t)" by (rule exE [OF schema_fresh]) (elim conjE, rule that)
  have "EnsureSchema exec_ddl schema t = EnsureSchema exec_ddl schema no_catalog"
    using restart_safe [OF append_Nil2 [symmetric] t] by (rule conjunct1)
  with t show ?thesis by (intro exI [of _ t]) (simp only:)
qed

end
