(* ===== verification/App.thy ===== *)
theory App
  imports PgReach PgFiles Minio Router Schema
begin

text \<open>
  The server as \<open>cmd/server/main.go\<close> assembles it: the PostgreSQL stores, the refresh tokens and the
  order cache in Redis when \<open>REDIS_ADDR\<close> is set and in memory otherwise, and the file service over MinIO
  when \<open>MINIO_ENDPOINT\<close> is set.  \<open>ap_world\<close> is the state of the services that are not under \<open>src/\<close>
  (Redis, MinIO).
\<close>

section \<open>State\<close>

record 'x app =
  ap_db :: pg
  ap_orders :: mem_orders
  ap_tokens :: mem_tokens
  ap_presign :: "string \<rightharpoonup> string"
  ap_world :: 'x

definition on_pg :: "(pg, 'a) op \<Rightarrow> ('x app, 'a) op" where
  "on_pg = zoom ap_db (\<lambda>t s. s\<lparr>ap_db := t\<rparr>)"

definition on_orders :: "(mem_orders, 'a) op \<Rightarrow> ('x app, 'a) op" where
  "on_orders = zoom ap_orders (\<lambda>t s. s\<lparr>ap_orders := t\<rparr>)"

definition on_tokens :: "(mem_tokens, 'a) op \<Rightarrow> ('x app, 'a) op" where
  "on_tokens = zoom ap_tokens (\<lambda>t s. s\<lparr>ap_tokens := t\<rparr>)"

definition on_world :: "('x, 'a) op \<Rightarrow> ('x app, 'a) op" where
  "on_world = zoom ap_world (\<lambda>t s. s\<lparr>ap_world := t\<rparr>)"

lemma on_pg_apply: "on_pg m s = (fst (m (ap_db s)), s\<lparr>ap_db := snd (m (ap_db s))\<rparr>)"
  by (simp add: on_pg_def zoom_apply)

lemma on_orders_apply: "on_orders m s = (fst (m (ap_orders s)), s\<lparr>ap_orders := snd (m (ap_orders s))\<rparr>)"
  by (simp add: on_orders_def zoom_apply)

lemma on_tokens_apply: "on_tokens m s = (fst (m (ap_tokens s)), s\<lparr>ap_tokens := snd (m (ap_tokens s))\<rparr>)"
  by (simp add: on_tokens_def zoom_apply)

lemma on_world_apply: "on_world m s = (fst (m (ap_world s)), s\<lparr>ap_world := snd (m (ap_world s))\<rparr>)"
  by (simp add: on_world_def zoom_apply)

lemmas on_app_apply = on_pg_apply on_orders_apply on_tokens_apply on_world_apply

section \<open>The stores on this state\<close>

text \<open>
  What a request takes from outside: the environment of the SQL statements, the order in which upload
  files are enumerated, the readings of the clock, the libraries of authentication.
\<close>

record 'x request_env =
  re_pg :: pg_env
  re_scan :: scan
  re_getNow :: time
  re_saveNow :: time
  re_deviceNow :: time
  re_sha :: "string \<Rightarrow> string"
  re_now :: time
  re_jwt :: jwt_lib
  re_bcrypt :: "string \<Rightarrow> error + string"
  re_timeString :: string

definition app_books :: "pg_env \<Rightarrow> 'x app book_store" where
  "app_books env = \<lparr>bs_ApplyBookChange = (\<lambda>c src dev. on_pg (pg_ApplyBookChange env c src dev)),
     bs_ForceUpsertBook = (\<lambda>u p dev. on_pg (pg_ForceUpsertBook env u p dev)),
     bs_RestoreLibrary = (\<lambda>p dev. on_pg (pg_RestoreLibrary env p dev)),
     bs_SnapshotLibrary = on_pg (pg_SnapshotLibrary env)\<rparr>"

definition app_sync :: "pg_env \<Rightarrow> 'x app file_verifier option \<Rightarrow> 'x app sync_service" where
  "app_sync env verifier =
     \<lparr>ss_entities = \<lparr>es_ApplyChange = (\<lambda>c dev. on_pg (pg_ApplyChange env c dev)),
        es_ForceUpsert = (\<lambda>t i p dev. on_pg (pg_ForceUpsert env t i p dev))\<rparr>,
      ss_books = app_books env,
      ss_history = \<lparr>hs_InsertSnapshot = (\<lambda>opType tag p. on_pg (pg_InsertSnapshot env opType tag p)),
        hs_ListHistory = (\<lambda>n. on_pg (pg_ListHistory n)), hs_GetHistory = (\<lambda>i. on_pg (pg_GetHistory i))\<rparr>,
      ss_events = \<lparr>vs_ListAfterCursor = (\<lambda>c n. on_pg (pg_ListAfterCursor c n)),
        vs_CountByStatus = on_pg pg_CountByStatus\<rparr>,
      ss_cursors = \<lparr>cs_UpdateCursor = (\<lambda>d i. on_pg (pg_UpdateCursor d i)),
        cs_GetCursor = (\<lambda>d. on_pg (pg_GetCursor d))\<rparr>,
      ss_conflicts = \<lparr>ks_ListOpen = on_pg (pg_ListOpen env), ks_Get = (\<lambda>i. on_pg (pg_GetConflict env i)),
        ks_MarkResolved = (\<lambda>i d. on_pg (pg_MarkResolved i d))\<rparr>,
      ss_fileVerifier = verifier,
      ss_libVersion = Some \<lparr>ls_GetBookVersion = on_pg pg_GetBookVersion,
        ls_SetBookVersion = (\<lambda>v. on_pg (pg_SetBookVersion v))\<rparr>\<rparr>"

definition app_devices :: "time \<Rightarrow> 'x app device_store" where
  "app_devices now = \<lparr>ds_CreateDevice = (\<lambda>d. on_pg (pg_CreateDevice now d)),
     ds_GetDeviceByID = (\<lambda>i. on_pg (pg_GetDeviceByID i)), ds_TouchDevice = (\<lambda>i. on_pg (pg_TouchDevice now i))\<rparr>"

definition app_mem_tokens :: "time \<Rightarrow> time \<Rightarrow> 'x app token_store" where
  "app_mem_tokens getNow saveNow =
     \<lparr>ts_SaveRefreshToken = (\<lambda>h d ttl. on_tokens (mem_SaveRefreshToken saveNow h d ttl)),
      ts_GetDeviceByRefreshToken = (\<lambda>h. on_tokens (mem_GetDeviceByRefreshToken getNow h)),
      ts_DeleteRefreshToken = (\<lambda>h. on_tokens (mem_DeleteRefreshToken h))\<rparr>"

definition app_auth ::
  "time \<Rightarrow> 'x app token_store \<Rightarrow> jwt_service \<Rightarrow> string \<Rightarrow> int \<Rightarrow> 'x app auth_service" where
  "app_auth deviceNow tokens jwtSvc syncSecret refreshTTL = \<lparr>au_devices = app_devices deviceNow,
     au_tokens = tokens, au_jwt = jwtSvc, au_syncSecret = syncSecret, au_refreshTTL = refreshTTL\<rparr>"

definition app_mem_orders :: "'x app upload_order_store" where
  "app_mem_orders = \<lparr>uo_SaveOrder = (\<lambda>u fs. on_orders (mem_SaveOrder u fs)),
     uo_LoadOrder = (\<lambda>u. on_orders (mem_LoadOrder u)), uo_DeleteOrder = (\<lambda>u. on_orders (mem_DeleteOrder u))\<rparr>"

definition app_uploads :: "scan \<Rightarrow> 'x app book_upload_store" where
  "app_uploads scan =
     \<lparr>up_InitUpload = (\<lambda>u n v d fs. on_pg (pg_InitUpload u n v d fs)),
      up_GetTask = (\<lambda>u. on_pg (pg_GetTask scan u)), up_ListAllFiles = (\<lambda>u. on_pg (pg_ListAllFiles scan u)),
      up_MarkFileDone = (\<lambda>u h. on_pg (pg_MarkFileDone u h)), up_Complete = (\<lambda>u. on_pg (pg_Complete u)),
      up_MarkFailed = (\<lambda>u. on_pg (pg_MarkFailed u))\<rparr>"

definition app_file_store :: "'x app file_store" where
  "app_file_store = \<lparr>fl_UpsertMeta = (\<lambda>h sz m. on_pg (pg_UpsertMeta h sz m)),
     fl_HasHashes = (\<lambda>hs. on_pg (pg_HasHashes hs))\<rparr>"

definition app_upload_service :: "scan \<Rightarrow> pg_env \<Rightarrow> 'x app upload_order_store \<Rightarrow> 'x app upload_service" where
  "app_upload_service scan env orders =
     \<lparr>su_uploads = app_uploads scan, su_books = app_books env, su_orders = orders\<rparr>"

text \<open>The clients of Redis and MinIO work on the world outside.\<close>

definition world_redis :: "('x, 'v) redis_client \<Rightarrow> ('x app, 'v) redis_client" where
  "world_redis rc = \<lparr>rc_Set = (\<lambda>k v ttl. on_world (rc_Set rc k v ttl)), rc_Get = (\<lambda>k. on_world (rc_Get rc k)),
     rc_Del = (\<lambda>k. on_world (rc_Del rc k))\<rparr>"

definition world_minio :: "'x minio_api \<Rightarrow> 'x app minio_api" where
  "world_minio api = \<lparr>mn_New = mn_New api,
     mn_BucketExists = (\<lambda>c b. on_world (mn_BucketExists api c b)),
     mn_MakeBucket = (\<lambda>c b. on_world (mn_MakeBucket api c b)),
     mn_StatObject = (\<lambda>c b k. on_world (mn_StatObject api c b k)),
     mn_NewMultipartUpload = (\<lambda>c b k. on_world (mn_NewMultipartUpload api c b k)),
     mn_PutObjectPart = (\<lambda>c b k u n d. on_world (mn_PutObjectPart api c b k u n d)),
     mn_CompleteMultipartUpload = (\<lambda>c b k u ps. on_world (mn_CompleteMultipartUpload api c b k u ps)),
     mn_PutObject = (\<lambda>c b k r sz. on_world (mn_PutObject api c b k r sz)),
     mn_GetObject = (\<lambda>c b k. on_world (mn_GetObject api c b k)),
     mn_PresignedGetObject = (\<lambda>c b k t. on_world (mn_PresignedGetObject api c b k t))\<rparr>"

section \<open>Start-up\<close>

text \<open>
  What start-up meets: the environment, the connection pool, the statements of \<open>schema\<close>,
  a ping of Redis, and the clients.  Each of the two Redis stores makes a client of its own and
  pings it.
\<close>

record 'x outside =
  ot_getenv :: "string \<Rightarrow> string"
  ot_duration :: "string \<Rightarrow> int option"
  ot_pool_new :: "string \<Rightarrow> ('x app, unit) op"
  ot_pool_ping :: "string \<Rightarrow> ('x app, unit) op"
  ot_ddl :: "string \<Rightarrow> ddl \<Rightarrow> ('x app, unit) op"
  ot_ping :: "string \<Rightarrow> ('x, unit) op"
  ot_redis_tokens :: "string \<Rightarrow> ('x, string) redis_client"
  ot_redis_orders :: "string \<Rightarrow> ('x, json) redis_client"
  ot_minio :: "string \<Rightarrow> string \<Rightarrow> bool \<Rightarrow> 'x minio_api"

definition Open :: "'x outside \<Rightarrow> string \<Rightarrow> ('x app, unit) op" where
  "Open out url = bindE (wrapE ''connect database'' (ot_pool_new out url)) (\<lambda>_.
     wrapE ''ping database'' (ot_pool_ping out url))"

definition MigrateUp :: "'x outside \<Rightarrow> string \<Rightarrow> ('x app, unit) op" where
  "MigrateUp out url = bindE (Open out url) (\<lambda>_. EnsureSchema (ot_ddl out url) schema)"

definition minio_of :: "'x outside \<Rightarrow> server_config \<Rightarrow> 'x app minio_api" where
  "minio_of out cfg =
     world_minio (ot_minio out (cfg_MinIOAccessKey cfg) (cfg_MinIOSecretKey cfg) (cfg_MinIOUseSSL cfg))"

definition token_store_of :: "'x outside \<Rightarrow> server_config \<Rightarrow> 'x request_env \<Rightarrow> 'x app token_store" where
  "token_store_of out cfg env =
     (if cfg_RedisAddr cfg \<noteq> [] then redis_token_store (world_redis (ot_redis_tokens out (cfg_RedisAddr cfg)))
      else app_mem_tokens (re_getNow env) (re_saveNow env))"

definition order_store_of :: "'x outside \<Rightarrow> server_config \<Rightarrow> 'x app upload_order_store" where
  "order_store_of out cfg =
     (if cfg_RedisAddr cfg \<noteq> [] then redis_order_store (world_redis (ot_redis_orders out (cfg_RedisAddr cfg)))
      else app_mem_orders)"

definition files_of ::
  "'x outside \<Rightarrow> server_config \<Rightarrow> minio_store option \<Rightarrow> 'x app file_service option" where
  "files_of out cfg = map_option (\<lambda>ms.
     \<lparr>fs_objects = minio_object_store (minio_of out cfg) ap_presign (\<lambda>c s. s\<lparr>ap_presign := c\<rparr>) ms,
      fs_files = app_file_store\<rparr>)"

definition dependencies_of ::
  "'x outside \<Rightarrow> server_config \<Rightarrow> minio_store option \<Rightarrow> 'x request_env \<Rightarrow> 'x app dependencies" where
  "dependencies_of out cfg ms env =
     (let jwtSvc = \<lparr>js_secret = cfg_JWTSecret cfg, js_ttl = cfg_JWTTTL cfg\<rparr>;
          devices = app_devices (re_deviceNow env);
          files = files_of out cfg ms
      in \<lparr>dp_Config = cfg,
          dp_Auth = app_auth (re_deviceNow env) (token_store_of out cfg env) jwtSvc (cfg_SyncSecret cfg)
            (cfg_RefreshTTL cfg),
          dp_JWT = jwtSvc, dp_Devices = devices,
          dp_Sync = app_sync (re_pg env) (map_option AllFilesComplete files),
          dp_Files = files,
          dp_Upload = Some (app_upload_service (re_scan env) (re_pg env) (order_store_of out cfg))\<rparr>)"

definition connect_redis :: "'x outside \<Rightarrow> server_config \<Rightarrow> ('x app, unit) op" where
  "connect_redis out cfg =
     (if cfg_RedisAddr cfg \<noteq> []
      then bindE (on_world (ot_ping out (cfg_RedisAddr cfg))) (\<lambda>_. on_world (ot_ping out (cfg_RedisAddr cfg)))
      else ret ())"

definition connect_minio :: "'x outside \<Rightarrow> server_config \<Rightarrow> ('x app, minio_store option) op" where
  "connect_minio out cfg =
     (if cfg_MinIOEndpoint cfg \<noteq> []
      then bindE (lift_result (NewMinioObjectStore (minio_of out cfg) (cfg_MinIOEndpoint cfg) (cfg_MinIOBucket cfg)
                    (cfg_MinIOPublicPort cfg) (cfg_MinIOPublicEndpoint cfg))) (\<lambda>ms.
           bindE (wrapE ''ensure minio bucket'' (minio_EnsureBucket (minio_of out cfg) ms)) (\<lambda>_.
             ret (Some ms)))
      else ret None)"

definition run :: "'x outside \<Rightarrow> ('x app, 'x request_env \<Rightarrow> 'x app dependencies) op" where
  "run out =
     bindE (lift_result (Load (ot_duration out) (ot_getenv out))) (\<lambda>cfg.
     bindE (Open out (cfg_DatabaseURL cfg)) (\<lambda>_.
     bindE (MigrateUp out (cfg_DatabaseURL cfg)) (\<lambda>_.
     bindE (connect_redis out cfg) (\<lambda>_.
     bindE (connect_minio out cfg) (\<lambda>ms.
       ret (dependencies_of out cfg ms))))))"

text \<open>The state before the first request.\<close>

definition NewApp :: "bool list \<Rightarrow> 'x \<Rightarrow> 'x app" where
  "NewApp faults w = \<lparr>ap_db = empty_db faults, ap_orders = NewMemoryUploadOrderStore,
     ap_tokens = NewMemoryTokenStore, ap_presign = (\<lambda>_. None), ap_world = w\<rparr>"

definition http_env_of :: "'x request_env \<Rightarrow> 'x app http_env" where
  "http_env_of env = \<lparr>he_sha = re_sha env, he_now = re_now env,
     he_auth = \<lparr>ae_jwt = re_jwt env, ae_bcrypt = re_bcrypt env, ae_sha = re_sha env, ae_issueNow = re_now env,
       ae_rand = on_pg rand_read, ae_timeString = re_timeString env\<rparr>\<rparr>"

section \<open>The event feed\<close>

lemma pg_log_after:
  assumes "pg_inv s"
  shows "sort_key vr_id (filter (selectable c) (db_sync_events s)) = filter (selectable c) (db_sync_events s)"
    and "map row_event (filter (selectable c) (db_sync_events s)) = after c (pg_log s)"
proof -
  have "sorted_wrt (<) (map vr_id (db_sync_events s))"
    using assms by (simp add: pg_inv_def pg_ids_ok_def increasing_def)
  then have "sorted (map vr_id (db_sync_events s))" by (rule strict_sorted_imp_sorted)
  then show "sort_key vr_id (filter (selectable c) (db_sync_events s)) = filter (selectable c) (db_sync_events s)"
    by (intro sort_key_id_if_sorted sorted_filter)
  show "map row_event (filter (selectable c) (db_sync_events s)) = after c (pg_log s)"
    by (auto simp: after_def pg_log_def filter_map comp_def selectable_def pg_deliverable_def conj_commute
        intro!: arg_cong [where f = "map row_event"] filter_cong)
qed

lemma pg_ListAfterCursor_eq:
  assumes "pg_inv s" "db_faults s = []" "0 \<le> limit"
  shows "pg_ListAfterCursor c limit s =
    (Inr (page c limit (pg_log s), nat limit < length (after c (pg_log s))), s)"
proof -
  let ?l = "after c (pg_log s)" and ?rows = "filter (selectable c) (db_sync_events s)"
  have rows: "map row_event ?rows = ?l" by (rule pg_log_after(2) [OF assms(1)])
  then have len: "length ?rows = length ?l" by (metis length_map)
  have "map row_event (take (nat (limit + 1)) ?rows) = take (Suc (nat limit)) ?l"
    using assms(3) by (simp add: take_map [symmetric] rows nat_add_distrib)
  moreover have "int (length (take (Suc (nat limit)) ?l)) > limit \<longleftrightarrow> nat limit < length ?l"
    using assms(3) by auto
  ultimately show ?thesis using assms(2,3)
    by (auto simp: pg_ListAfterCursor_def bindE_def wrapE_def pg_log_after(1) [OF assms(1)] Let_def page_def
        min_absorb1 len rows)
qed

lemma pg_log_in_order: "pg_inv s \<Longrightarrow> in_order (pg_log s)"
  by (simp add: pg_inv_def pg_ids_ok_def increasing_def pg_log_def sorted_wrt_map sorted_wrt_filter)

interpretation app_feed: event_feed "app_sync env verifier" "\<lambda>s. pg_inv (ap_db s) \<and> db_faults (ap_db s) = []"
  "\<lambda>s. pg_log (ap_db s)"
proof (unfold_locales, goal_cases)
  case (1 s) then show ?case by (simp add: pg_log_in_order)
next
  case (2 s limit c)
  then show ?case by (simp add: app_sync_def on_pg_apply pg_ListAfterCursor_eq)
next
  case (3 s dev c)
  then show ?case using pg_UpdateCursor_inv [of "ap_db s" dev c]
    by (simp add: app_sync_def on_pg_apply pg_UpdateCursor_def pg_log_def)
qed

end
