(* ===== verification/PgRefine.thy ===== *)
theory PgRefine
  imports PgLock App MemReach
begin

text \<open>
  What both implementations of the book store promise: an abstract library (change identifiers used up,
  revisions, contents) and the effect of a change on it.  The PostgreSQL store and the in-memory store
  both implement it.  Transactions are all or nothing.
\<close>

section \<open>The abstract library\<close>

record abs_library =
  al_seen :: "string set"
  al_rev :: "string \<Rightarrow> int option"
  al_books :: "string \<rightharpoonup> book_payload"

text \<open>What a client is told: accepted, reason, revision, whether there is an event and a conflict.\<close>

definition told :: "change_outcome \<Rightarrow> bool \<times> string \<times> int \<times> bool" where
  "told w = (oc_Accepted w, oc_Reason w, oc_Revision w, oc_ConflictID w \<noteq> 0)"

definition spec_book_change :: "change \<Rightarrow> abs_library \<Rightarrow> (bool \<times> string \<times> int \<times> bool) \<times> abs_library" where
  "spec_book_change c a =
     (let used = a\<lparr>al_seen := insert (c_ChangeID c) (al_seen a)\<rparr> in
      case lock_verdict (c_ChangeID c \<in> al_seen a) (al_rev a (c_EntityID c)) (c_Op c) (c_BaseRevision c) of
        VDuplicate \<Rightarrow> ((True, ReasonDuplicate, 0, False), a)
      | VNothing \<Rightarrow> ((True, [], 0, False), a)
      | VReject \<Rightarrow> ((False, ReasonConflict, 0, False), a)
      | VConflict r \<Rightarrow> ((False, ReasonConflict, 0, True), used)
      | VWrite r \<Rightarrow> ((True, [], r, False),
          used\<lparr>al_rev := (al_rev a)(c_EntityID c \<mapsto> r),
               al_books := (al_books a)(c_EntityID c :=
                 if c_Op c = OpDelete then None else Some (book_content (c_Payload c)))\<rparr>))"

definition abs_mem :: "mem_sync \<Rightarrow> abs_library" where
  "abs_mem m = \<lparr>al_seen = dom (ms_changeIDs m), al_rev = (\<lambda>u. map_option bk_revision (map_of (ms_books m) u)),
     al_books = (\<lambda>u. map_option book_content (live_library m u))\<rparr>"

definition abs_pg :: "pg \<Rightarrow> abs_library" where
  "abs_pg s = \<lparr>al_seen = pg_seen s, al_rev = (\<lambda>u. map_option br_revision (book_row_of u s)),
     al_books = pg_library s\<rparr>"

lemma told_outcomes [simp]:
  "told duplicate_outcome = (True, ReasonDuplicate, 0, False)" "told accepted_outcome = (True, [], 0, False)"
  "told reject_outcome = (False, ReasonConflict, 0, False)" "told (accepted r e) = (True, [], r, False)"
  "told (refused i) = (False, ReasonConflict, 0, i \<noteq> 0)"
  "told (written_outcome r m) = (True, [], r, False)"
  "told (conflict_outcome m) = (False, ReasonConflict, 0, ms_nextConflictID m + 1 \<noteq> 0)"
  by (simp_all add: told_def duplicate_outcome_def accepted_outcome_def reject_outcome_def accepted_def refused_def
      no_outcome_def written_outcome_def conflict_outcome_def)

lemma abs_pg_clean [simp]: "abs_pg (clean s) = abs_pg s"
  by (simp add: abs_pg_def pg_library_def pg_seen_def clean_def book_row_of_def fun_eq_iff)

lemma abs_pg_same: "same_data s t \<Longrightarrow> abs_pg t = abs_pg s"
  using same_data_views(2) [of s t] by (simp add: abs_pg_def pg_seen_def same_data_def book_row_of_def)

lemma jsonb_content: "jsonb_ok env \<Longrightarrow> book_content (jsonb env p) = book_content p"
  by (simp add: jsonb_ok_def book_content_def Let_def)

section \<open>The in-memory store\<close>

lemma mem_refines_spec:
  assumes "mem_inv m" "mem_ApplyBookChange clk c src dev m = (Inr w, m')"
  shows "(told w, abs_mem m') = spec_book_change c (abs_mem m)"
proof -
  have v: "book_verdict m c = lock_verdict (c_ChangeID c \<in> al_seen (abs_mem m)) (al_rev (abs_mem m) (c_EntityID c))
      (c_Op c) (c_BaseRevision c)"
    by (simp add: book_verdict_def abs_mem_def domIff)
  have pos: "ms_nextConflictID m + 1 \<noteq> 0"
    using assms(1) by (auto simp: mem_inv_def ids_ok_def)
  from assms(2) pos v [symmetric] show ?thesis
    by (cases "book_verdict m c")
      (auto simp: mem_ApplyBookChange_eq spec_book_change_def Let_def abs_mem_def with_conflict_def
        live_library_def written_book_def fun_eq_iff)
qed

section \<open>The PostgreSQL store\<close>

lemma pg_library_put: "pg_library (put_book_row u r s) =
    (pg_library s)(u := if br_deleted r then None else Some (row_content r))"
  by (simp add: pg_library_def fun_eq_iff)

lemma pg_views_event [simp]:
  "pg_library (add_event e s) = pg_library s" "pg_library (pg_with_conflict env c dev r s) = pg_library s"
  "pg_seen (add_event e s) = insert (vr_change_id e) (pg_seen s)"
  "pg_seen (pg_with_conflict env c dev r s) = insert (c_ChangeID c) (pg_seen s)"
  "pg_seen (put_book_row u row s) = pg_seen s"
  by (auto simp: pg_library_def pg_seen_def fun_eq_iff)

lemma pg_tx_refines_spec:
  assumes "jsonb_ok env" "pg_inv s" "db_faults s = []" "c_EntityType c = EntityBook" "c_Op c \<noteq> OpProgress"
    and "pg_book_tx env c dev s = (Inr (Commit w), t)"
  shows "(told w, abs_pg t) = spec_book_change c (abs_pg s)"
proof -
  have v: "pg_book_verdict s c = lock_verdict (c_ChangeID c \<in> al_seen (abs_pg s)) (al_rev (abs_pg s) (c_EntityID c))
      (c_Op c) (c_BaseRevision c)"
    by (simp add: pg_book_verdict_def abs_pg_def)
  have pos: "db_conflict_seq s + 1 \<noteq> 0" using pg_conflict_seq [OF assms(2)] by simp
  show ?thesis
  proof (cases "pg_book_verdict s c")
    case (VWrite r)
    with assms(3-6) obtain row where row: "written_book_row env c (book_row_of (c_EntityID c) s) r = Some row"
      and t: "w = accepted r (db_event_seq s + 1)"
        "t = add_event (change_event env c dev r StatusDone s) (put_book_row (c_EntityID c) row s)"
      by (auto simp: pg_book_tx_run Let_def split: option.splits)
    from written_row_content [OF assms(1) row assms(5)] show ?thesis
      unfolding spec_book_change_def v [symmetric] VWrite
      by (auto simp: t abs_pg_def pg_library_put jsonb_content [OF assms(1)] fun_eq_iff)
  qed (use assms(3-6) pos v [symmetric] in
      \<open>auto simp: pg_book_tx_run Let_def spec_book_change_def abs_pg_def split: option.splits\<close>)
qed

lemma pg_refines_spec:
  assumes "jsonb_ok env" "pg_inv s" "c_EntityType c = EntityBook" "c_Op c \<noteq> OpProgress"
    and "pg_ApplyBookChange env c src dev s = (Inr w, t)"
  shows "(told w, abs_pg t) = spec_book_change c (abs_pg s)"
proof -
  have inv: "pg_inv (clean s)" using assms(2) by simp
  from in_tx_commit [OF assms(5) [unfolded pg_ApplyBookChange_def] pg_book_tx_ops(1)] show ?thesis
  proof (elim disjE exE conjE)
    assume "pg_book_tx env c dev (clean s) = (Inr (Commit w), clean t)"
    from pg_tx_refines_spec [OF assms(1) inv clean_faults assms(3,4) this] show ?thesis by simp
  next
    fix u assume "pg_book_tx env c dev (clean s) = (Inr (Leave w), u)"
    then show ?thesis using assms(3,4)
      by (auto simp: pg_book_tx_run Let_def split: verdict.splits option.splits)
  qed
qed

section \<open>All or nothing\<close>

lemma pg_bodies_clean:
  "runs_clean (pg_entity_tx env c dev)" "runs_clean (pg_book_tx env c dev)"
  "runs_clean (pg_force_tx env ty i p dev)" "runs_clean (pg_force_book_tx env u p dev)"
  "runs_clean (pg_restore_tx env p dev)"
  using pg_entity_tx_ops(1) pg_book_tx_ops(1) pg_restore_tx_ops(1)
  by (auto simp: pg_force_tx_def pg_force_book_tx_def Let_def intro!: clean_ops clean_stmtI)

text \<open>
  Whatever statements fail: an operation that reports an error has left the data alone, and one that
  reports success has done exactly what it does on a database that fails nothing.
\<close>

definition atomic :: "(pg, 'a) op \<Rightarrow> bool" where
  "atomic m \<longleftrightarrow> (\<forall>s r t. m s = (r, t) \<longrightarrow>
     (\<exists>e. r = Inl e \<and> same_data s t) \<or> (\<exists>w. r = Inr w \<and> m (clean s) = (Inr w, clean t)))"

lemma atomic_in_tx:
  assumes "runs_clean body"
  shows "atomic (in_tx be body)"
  unfolding atomic_def
proof (intro allI impI)
  fix s r t assume run: "in_tx be body s = (r, t)"
  show "(\<exists>e. r = Inl e \<and> same_data s t) \<or> (\<exists>w. r = Inr w \<and> in_tx be body (clean s) = (Inr w, clean t))"
  proof (cases r)
    case (Inl e)
    with run in_tx_fails show ?thesis by blast
  next
    case (Inr w)
    have "u = clean u" if "body (clean s) = (Inr b, u)" for b u
      using runs_cleanD [OF assms that] that by simp
    then have "rollback (clean s) u = clean (rollback s u)" if "body (clean s) = (Inr b, u)" for b u
      using that rollback_clean [of s u] by metis
    with in_tx_commit [OF run [unfolded Inr] assms] Inr show ?thesis
      by (auto simp: in_tx_def)
  qed
qed

lemma atomic_stmt:
  assumes "oblivious f" "\<And>s e t. f s = (Inl e, t) \<Longrightarrow> same_data s t"
  shows "atomic (stmt f)"
  unfolding atomic_def
proof (intro allI impI)
  fix s r t assume run: "stmt f s = (r, t)"
  show "(\<exists>e. r = Inl e \<and> same_data s t) \<or> (\<exists>w. r = Inr w \<and> stmt f (clean s) = (Inr w, clean t))"
  proof (cases r)
    case (Inr w)
    with runs_cleanD [OF runs_clean_stmt [OF assms(1)], of s w t] run show ?thesis by simp
  next
    case (Inl e)
    show ?thesis
    proof (rule stmt_cases [of f s])
      fix fs assume "stmt f s = f (s\<lparr>db_faults := fs\<rparr>)"
      with run Inl have "f (s\<lparr>db_faults := fs\<rparr>) = (Inl e, t)" by simp
      from assms(2) [OF this] Inl show ?thesis by (simp add: same_data_def)
    qed (use run Inl in auto)
  qed
qed

end
