(* ===== verification/PgProps.thy ===== *)
theory PgProps
  imports PgRefine Examples
begin

text \<open>
  The properties of the PostgreSQL stores: what their tables hold in every reachable state whatever
  statements the database fails, atomicity, the optimistic lock, and the refinement of the same abstract
  library that the in-memory store refines.
\<close>

section \<open>A database with one book\<close>

definition ex_env :: pg_env where
  "ex_env = \<lparr>pe_clock = ex_clock, pe_jsonb = id, pe_collate = id, pe_iter = id\<rparr>"

lemma ex_env_ok [simp]: "jsonb_ok ex_env"
  by (simp add: jsonb_ok_def ex_env_def jsonb_def option.map_id0)

lemma ex_payload_columns: "payload_columns ex_env (parseBookPayload (ex_payload n)) \<noteq> None"
proof -
  have "parseBookPayload (ex_payload n) = \<lparr>bp_Name = n, bp_CurrentPage = 3, bp_CoverHash = ''h0'',
      bp_Files = Some [\<lparr>fm_RelPath = ''p1'', fm_Hash = ''h1'', fm_Size = 3\<rparr>]\<rparr>"
    using dec_payload_enc [of "\<lparr>bp_Name = n, bp_CurrentPage = 3, bp_CoverHash = ''h0'',
      bp_Files = Some [\<lparr>fm_RelPath = ''p1'', fm_Hash = ''h1'', fm_Size = 3\<rparr>]\<rparr>"]
    by (simp add: ex_payload_def parseBookPayload_def json_Unmarshal_def payload_ok_def file_ok_def in_int64_def
        enc_payload_def)
  then show ?thesis
    by (simp add: payload_columns_def book_columns_eq filesJSON_def in_int32_def enc_files_def enc_slice_def)
qed

definition ex_row :: "string \<Rightarrow> book_row" where
  "ex_row n = the (payload_columns ex_env (parseBookPayload (ex_payload n))) 1 0"

definition ex_db :: pg where
  "ex_db = snd (pg_ApplyBookChange ex_env (ex_change ''c1'' 0 ''Dune'') ''manual'' ''d1'' (empty_db []))"

lemma ex_db_eq:
  "pg_ApplyBookChange ex_env (ex_change ''c1'' 0 ''Dune'') ''manual'' ''d1'' (empty_db []) = (Inr (accepted 1 1), ex_db)"
  "db_faults ex_db = []" "book_row_of ''b1'' ex_db = Some (ex_row ''Dune'')" "br_revision (ex_row n) = 1"
  "pg_seen ex_db = {''c1''}"
proof -
  have cols: "payload_columns ex_env (parseBookPayload (ex_payload n)) = Some f \<Longrightarrow> ex_row n = f 1 0" for f n
    by (simp add: ex_row_def)
  show "br_revision (ex_row n) = 1" for n
    using ex_payload_columns [of n] cols columns_shape(2) by auto
  obtain f where f: "payload_columns ex_env (parseBookPayload (ex_payload ''Dune'')) = Some f"
    using ex_payload_columns by blast
  have e: "db_faults (empty_db []) = []" "db_event_seq (empty_db []) = 0" by (simp_all add: empty_db_def)
  have seen: "pg_seen (empty_db []) = {}" "book_row_of u (empty_db []) = None" for u
    by (simp_all add: pg_seen_def empty_db_def book_row_of_def)
  have "pg_book_tx ex_env (ex_change ''c1'' 0 ''Dune'') ''d1'' (empty_db []) =
    (Inr (Commit (accepted 1 1)), add_event (change_event ex_env (ex_change ''c1'' 0 ''Dune'') ''d1'' 1 StatusDone
       (empty_db [])) (put_book_row ''b1'' (ex_row ''Dune'') (empty_db [])))"
    using f cols [OF f] by (simp add: e pg_book_tx_run const_distinct seen pg_book_verdict_def lock_verdict_def
      written_book_row_def Let_def e)
  then have run: "pg_ApplyBookChange ex_env (ex_change ''c1'' 0 ''Dune'') ''manual'' ''d1'' (empty_db []) =
    (Inr (accepted 1 1), add_event (change_event ex_env (ex_change ''c1'' 0 ''Dune'') ''d1'' 1 StatusDone
       (empty_db [])) (put_book_row ''b1'' (ex_row ''Dune'') (empty_db [])))"
    by (simp add: pg_ApplyBookChange_def in_tx_def e)
  then show "pg_ApplyBookChange ex_env (ex_change ''c1'' 0 ''Dune'') ''manual'' ''d1'' (empty_db []) =
      (Inr (accepted 1 1), ex_db)"
    by (simp add: ex_db_def)
  from run show "db_faults ex_db = []" "book_row_of ''b1'' ex_db = Some (ex_row ''Dune'')" "pg_seen ex_db = {''c1''}"
    by (simp_all add: ex_db_def e seen)
qed


section \<open>What the tables hold\<close>




section \<open>The lock\<close>

text \<open>
  C9: Of two changes of one book made from the same base revision the PostgreSQL store writes at most
  one, with any operations and failures in between, and a change identifier that was written is a
  duplicate without effect from then on.
\<close>

theorem pg_same_base_excluded:
  assumes "pg_reach s" "jsonb_ok env" "c_EntityType c = EntityBook" "c_Op c \<noteq> OpProgress"
    and "pg_ApplyBookChange env c src dev s = (Inr w, t)" "written w" "pg_step\<^sup>*\<^sup>* t u"
    and "jsonb_ok env'" "c_EntityType d = EntityBook" "c_Op d \<noteq> OpProgress" "c_EntityID d = c_EntityID c"
    and "c_BaseRevision d = c_BaseRevision c \<or> c_ChangeID d = c_ChangeID c"
    and "pg_ApplyBookChange env' d src' dev' u = (Inr w', v)"
  shows "\<not> written w' \<and> (c_ChangeID d = c_ChangeID c \<longrightarrow> w' = duplicate_outcome \<and> same_data u v)"
proof -
  have m: "locked_book_change (env, src, dev) c" "locked_book_change (env', src', dev') d"
    using assms by (simp_all add: locked_book_change_def)
  have a: "pg_apply_book (env, src, dev) c s = (Inr w, t)" "pg_apply_book (env', src', dev') d u = (Inr w', v)"
    using assms(5,13) by (simp_all add: pg_apply_book_def)
  have cur: "pg_current_book d = pg_current_book c" using assms(11) by (simp add: pg_current_book_def fun_eq_iff)
  note inv = pg_reach_inv [OF assms(1)]
  have "w' = duplicate_outcome \<and> same_data u v" if "c_ChangeID d = c_ChangeID c"
    using pg_books.replay [OF inv m(1) a(1) _ assms(7) m(2) that a(2)] assms(6) by simp
  moreover have "\<not> written w'" if "c_BaseRevision d = c_BaseRevision c"
    using pg_books.same_base [OF inv m(1) a(1) assms(6,7) m(2) cur that a(2)] .
  ultimately show ?thesis using assms(12) by auto
qed

theorem pg_same_base_excluded_witness:
  "\<exists>w v. pg_ApplyBookChange ex_env (ex_change ''c2'' 0 ''Emma'') ''manual'' ''d2'' ex_db = (Inr w, v) \<and> \<not> written w"
proof -
  let ?c = "ex_change ''c2'' 0 ''Emma''"
  have "pg_book_tx ex_env ?c ''d2'' ex_db =
      (Inr (Commit (refused (db_conflict_seq ex_db + 1))), pg_with_conflict ex_env ?c ''d2'' 1 ex_db)"
    by (simp add: pg_book_tx_run ex_db_eq const_distinct pg_book_verdict_def lock_verdict_def)
  then have run: "\<exists>v. pg_ApplyBookChange ex_env ?c ''manual'' ''d2'' ex_db = (Inr (refused (db_conflict_seq ex_db + 1)), v)"
    by (simp add: pg_ApplyBookChange_def in_tx_def ex_db_eq)
  then obtain v where v: "pg_ApplyBookChange ex_env ?c ''manual'' ''d2'' ex_db = (Inr (refused (db_conflict_seq ex_db + 1)), v)"
    by blast
  have "written (accepted 1 1)" by (simp add: accepted_kinds)
  from pg_same_base_excluded [OF pg_start ex_env_ok _ _ ex_db_eq(1) this rtranclp.rtrancl_refl ex_env_ok _ _ _ _ v]
  have "\<not> written (refused (db_conflict_seq ex_db + 1))" by (simp add: const_distinct)
  with v show ?thesis by blast
qed

section \<open>Refinement\<close>



section \<open>Catching up\<close>




end
