(* ===== verification/OverlapRuns.thy ===== *)
theory OverlapRuns
  imports OverlapReach PgProps
begin

text \<open>
  Runs of transactions: one that meets no other does what the transaction of \<open>PgSync\<close> does, and how a
  given schedule is computed.
\<close>

lemma book_row_other:
  "book_row_of u (s\<lparr>db_sync_events := es\<rparr>) = book_row_of u s" "book_row_of u (s\<lparr>db_conflicts := ks\<rparr>) = book_row_of u s"
  by (simp_all add: book_row_of_def)

lemma draw_write: "draw q (apply_write w s) = apply_write w (draw q s)"
  by (cases q; cases w) (simp_all add: put_book_row_def put_entity_row_def)

lemma draw_writes: "draw q (fold apply_write ws s) = fold apply_write ws (draw q s)"
  by (induction ws arbitrary: s) (simp_all add: draw_write)

lemma draw_faults [simp]: "db_faults (draw q s) = db_faults s"
  by (cases q) simp_all

lemma exec_sql_faults: "db_faults (snd (exec_sql q s)) = db_faults s"
  by (auto simp: exec_sql_def split: sum.split)

lemma script_faults: "db_faults (snd (run_script sc s)) = db_faults s"
proof (induction sc arbitrary: s)
  case (Send q k)
  then show ?case using exec_sql_faults [of q s] by (auto simp: bindE_def split: prod.split sum.split)
qed simp

text \<open>A transaction's result in terms of how its script ended.\<close>

definition tx_answer :: "error + 'a tx_end \<Rightarrow> error + 'a" where
  "tx_answer r = (case r of Inl e \<Rightarrow> Inl e | Inr (Commit a) \<Rightarrow> Inr a | Inr (Leave a) \<Rightarrow> Inr a)"

definition tx_database :: "error + 'a tx_end \<Rightarrow> pg \<Rightarrow> pg \<Rightarrow> pg" where
  "tx_database r db db' = (case r of Inr (Commit a) \<Rightarrow> db' | _ \<Rightarrow> rollback db db')"

lemma rollback_draw:
  "rollback (draw q db) s = rollback db s"
  "db_faults s = db_faults db \<Longrightarrow> db_random s = db_random db \<Longrightarrow> db_history_seq s = db_history_seq db \<Longrightarrow>
     db_event_seq s = db_event_seq db \<Longrightarrow> db_conflict_seq s = db_conflict_seq db \<Longrightarrow> rollback db s = db"
  by (cases q; simp add: rollback_def) (simp add: rollback_def)

lemma fold_writes_seqs [simp]:
  "db_random (fold apply_write ws s) = db_random s" "db_history_seq (fold apply_write ws s) = db_history_seq s"
  "db_conflict_seq (fold apply_write ws s) = db_conflict_seq s"
proof (induction ws arbitrary: s)
  case (Cons w ws)
  { case 1 show ?case by (cases w) (simp_all add: Cons put_book_row_def put_entity_row_def) }
  { case 2 show ?case by (cases w) (simp_all add: Cons) }
  { case 3 show ?case by (cases w) (simp_all add: Cons) }
qed simp_all

lemma rollback_writes: "rollback db (fold apply_write ws db) = db"
  by (rule rollback_draw(2)) simp_all

lemma in_tx_run:
  assumes "db_faults s = []" "body s = (r, s')" "db_faults s' = []"
  shows "in_tx be body s = (tx_answer r, tx_database r s s')"
  using assms by (auto simp: in_tx_def tx_answer_def tx_database_def split: sum.splits tx_end.splits)

lemma set_txn_fields [simp]:
  "length (ov_txns (set_txn i t s)) = length (ov_txns s)" "ov_db (set_txn i t s) = ov_db s"
  "i < length (ov_txns s) \<Longrightarrow> ov_txns (set_txn i t s) ! i = t"
  "j \<noteq> i \<Longrightarrow> ov_txns (set_txn i t s) ! j = ov_txns s ! j"
  "ov_txns (set_txn i t s) = (ov_txns s)[i := t]"
  by (simp_all add: set_txn_def)

lemma held_set_txn [simp]: "held_by_other i u (set_txn i t s) = held_by_other i u s"
  by (auto simp: held_by_other_def)

lemma held_db [simp]: "held_by_other i u (s\<lparr>ov_db := db\<rparr>) = held_by_other i u s"
  by (simp add: held_by_other_def)

lemma script_alone:
  assumes "tx_open i s" "tn_script (ov_txns s ! i) = sc" "\<And>u. \<not> held_by_other i u s"
    and "run_script sc (tx_view s (ov_txns s ! i)) = (r, db)"
  shows "\<exists>n t. (tx_next i ^^ n) s = set_txn i t (s\<lparr>ov_db := tx_database r (ov_db s) db\<rparr>) \<and>
    tn_result t = Some (tx_answer r) \<and> tn_request t = tn_request (ov_txns s ! i)"
  using assms
proof (induction sc arbitrary: s)
  case (Finish e)
  let ?t = "ov_txns s ! i"
  have r: "r = e" "db = tx_view s ?t" using Finish.prems(4) by simp_all
  have "tx_next i s = set_txn i (close_txn (tx_answer r) ?t) (s\<lparr>ov_db := tx_database r (ov_db s) db\<rparr>)"
    using Finish.prems(1,2) r
    by (auto simp: tx_next_def tx_send_def tx_finish_def Let_def tx_answer_def tx_database_def tx_view_def
        rollback_writes split: sum.split tx_end.split)
  then show ?case by (intro exI [of _ 1] exI [of _ "close_txn (tx_answer r) ?t"]) simp
next
  case (Send q k)
  let ?t = "ov_txns s ! i" and ?v = "tx_view s (ov_txns s ! i)"
  have i: "i < length (ov_txns s)" using Send.prems(1) by (simp add: tx_open_def)
  show ?case
  proof (cases "reply q ?v")
    case (Inl e)
    then have r: "r = Inl e" "db = draw q ?v"
      using Send.prems(4) by (auto simp: bindE_def exec_sql_def)
    have "rollback (ov_db s) db = draw q (ov_db s)"
      using rollback_writes [of "draw q (ov_db s)" "tn_writes ?t"]
      by (simp add: r tx_view_def draw_writes rollback_draw(1))
    then have "tx_next i s = set_txn i (close_txn (tx_answer r) ?t) (s\<lparr>ov_db := tx_database r (ov_db s) db\<rparr>)"
      using Send.prems(1-3) Inl r
      by (simp add: tx_next_def tx_send_def Let_def tx_answer_def tx_database_def split: option.split)
    then show ?thesis by (intro exI [of _ 1] exI [of _ "close_txn (tx_answer r) ?t"]) simp
  next
    case (Inr p)
    obtain a ws where p: "p = (a, ws)" by fastforce
    let ?t' = "?t\<lparr>tn_script := k a, tn_writes := tn_writes ?t @ ws, tn_locks := add_lock (locks_row q ?v) (tn_locks ?t)\<rparr>"
    let ?s = "set_txn i ?t' (s\<lparr>ov_db := draw q (ov_db s)\<rparr>)"
    have nxt: "tx_next i s = ?s"
      using Send.prems(1-3) Inr p by (simp add: tx_next_def tx_send_def Let_def split: option.split)
    have "tx_open i ?s" "tn_script (ov_txns ?s ! i) = k a" "\<And>u. \<not> held_by_other i u ?s"
      using Send.prems(1,3) i by (simp_all add: tx_open_def)
    moreover have "run_script (k a) (tx_view ?s (ov_txns ?s ! i)) = (r, db)"
      using Send.prems(4) Inr p i by (simp add: bindE_def exec_sql_def tx_view_def draw_writes)
    ultimately obtain n t where "(tx_next i ^^ n) ?s = set_txn i t (?s\<lparr>ov_db := tx_database r (ov_db ?s) db\<rparr>)"
      "tn_result t = Some (tx_answer r)" "tn_request t = tn_request (ov_txns ?s ! i)"
      using Send.IH [of "k a" ?s, OF rangeI] by blast
    moreover have "set_txn i t (?s\<lparr>ov_db := tx_database r (ov_db ?s) db\<rparr>) =
        set_txn i t (s\<lparr>ov_db := tx_database r (ov_db s) db\<rparr>)"
      by (simp add: set_txn_def tx_database_def rollback_draw(1) split: sum.split tx_end.split)
    ultimately show ?thesis
      using nxt i by (intro exI [of _ "Suc n"] exI [of _ t]) (simp add: funpow_swap1)
  qed
qed

section \<open>Schedules\<close>

text \<open>The transactions that go on, one after another.\<close>

definition schedule :: "nat list \<Rightarrow> overlap \<Rightarrow> overlap" where
  "schedule is s = fold tx_next is s"

lemma schedule_append [simp]: "schedule (is @ js) s = schedule js (schedule is s)"
  by (simp add: schedule_def)

lemma tx_next_steps: "ov_step\<^sup>*\<^sup>* s (tx_next i s)"
  by (auto simp: tx_next_def intro: ov_send ov_finish split: option.split)

lemma schedule_steps: "ov_step\<^sup>*\<^sup>* s (schedule is s)"
proof (induction "is" arbitrary: s)
  case (Cons i js)
  from tx_next_steps Cons.IH show ?case unfolding schedule_def fold_simps by (rule rtranclp_trans)
qed (simp add: schedule_def)

lemma ov_steps_reach: "ov_step\<^sup>*\<^sup>* s t \<Longrightarrow> ov_reach s \<Longrightarrow> ov_reach t"
  by (induction rule: rtranclp_induct) (auto intro: ov_next)

lemma tx_next_send:
  assumes "tx_open i s" "tn_script (ov_txns s ! i) = Send q k"
    and "\<And>u. locks_row q (tx_view s (ov_txns s ! i)) = Some u \<Longrightarrow> \<not> held_by_other i u s"
    and "reply q (tx_view s (ov_txns s ! i)) = Inr (a, ws)"
  shows "tx_next i s = set_txn i ((ov_txns s ! i)\<lparr>tn_script := k a, tn_writes := tn_writes (ov_txns s ! i) @ ws,
     tn_locks := add_lock (locks_row q (tx_view s (ov_txns s ! i))) (tn_locks (ov_txns s ! i))\<rparr>)
     (s\<lparr>ov_db := draw q (ov_db s)\<rparr>)"
  using assms by (auto simp: tx_next_def tx_send_def Let_def split: option.split)

lemma set_txn_set [simp]: "set_txn i t ((set_txn i t' s)\<lparr>ov_db := db\<rparr>) = set_txn i t (s\<lparr>ov_db := db\<rparr>)"
  "set_txn i t (set_txn i t' s) = set_txn i t s"
  by (simp_all add: set_txn_def)

text \<open>The transaction that creates a book, when all its statements are sent.\<close>

definition created :: "pg_env \<Rightarrow> change \<Rightarrow> string \<Rightarrow> (int \<Rightarrow> int \<Rightarrow> book_row) \<Rightarrow> int \<Rightarrow> txn" where
  "created env c dev f n = \<lparr>tn_request = ApplyBook c dev, tn_script = commit_script (Outcome (accepted 1 n)),
     tn_writes = [PutBook (c_EntityID c) (f 1 0),
       AddEvent (event_at env (c_ChangeID c) EntityBook (c_EntityID c) 1 dev (c_Op c) (c_Payload c) StatusDone n)],
     tn_locks = [BookKey (c_EntityID c)], tn_result = None\<rparr>"

lemma create_run:
  assumes "i < length (ov_txns s)" "ov_txns s ! i = new_txn env (ApplyBook c dev)"
    and "\<not> held_by_other i (BookKey (c_EntityID c)) s" "book_row_of (c_EntityID c) (ov_db s) = None"
    and "\<forall>e\<in>set (db_sync_events (ov_db s)). vr_change_id e \<noteq> c_ChangeID c"
    and "c_Op c \<noteq> OpDelete" "c_Op c \<noteq> OpProgress" "c_BaseRevision c = 0"
    and "payload_columns env (parseBookPayload (c_Payload c)) = Some f"
  shows "schedule [i, i, i, i] s = set_txn i (created env c dev f (db_event_seq (ov_db s) + 1))
    (s\<lparr>ov_db := (ov_db s)\<lparr>db_event_seq := db_event_seq (ov_db s) + 1\<rparr>\<rparr>)"
proof -
  let ?u = "c_EntityID c" and ?k = "BookKey (c_EntityID c)" and ?m = "map_script Outcome"
  define t where "t k ws ls = \<lparr>tn_request = ApplyBook c dev, tn_script = k, tn_writes = ws, tn_locks = ls, tn_result = None\<rparr>"
    for k ws ls
  let ?q = "?m (Send (SelectForUpdate ?k) (\<lambda>row. locked_script env c dev (book_found row)))"
  have 0: "s = set_txn i (t (?m (book_script env c dev)) [] []) s"
    using assms(1,2) by (simp add: t_def new_txn_def set_txn_def) (metis list_update_id overlap.surjective overlap.update_convs(2))
  have 1: "tx_next i (set_txn i (t (?m (book_script env c dev)) [] []) s) = set_txn i (t ?q [] []) s"
    using assms(1,5) by (subst tx_next_send [where a = "Flag False" and ws = "[]"])
      (auto simp: tx_open_def t_def book_script_def tx_view_def add_lock_def)
  have 2: "tx_next i (set_txn i (t ?q [] []) s) = set_txn i (t (?m (new_script env c dev)) [] []) s"
    using assms(1,4,7) by (subst tx_next_send [where a = "Row (BookIs None)" and ws = "[]"])
      (auto simp: tx_open_def t_def locked_script_def tx_view_def add_lock_def if_there_def)
  have 3: "tx_next i (set_txn i (t (?m (new_script env c dev)) [] []) s) =
      set_txn i (t (?m (done_script env c EntityBook dev 1)) [PutBook ?u (f 1 0)] [?k]) s"
    using assms(1,3,4,6,8,9) by (subst tx_next_send [where a = Done and ws = "[PutBook ?u (f 1 0)]"])
      (auto simp: tx_open_def t_def new_script_def tx_view_def add_lock_def)
  have 4: "tx_next i (set_txn i (t (?m (done_script env c EntityBook dev 1)) [PutBook ?u (f 1 0)] [?k]) s) =
      set_txn i (created env c dev f (db_event_seq (ov_db s) + 1))
        (s\<lparr>ov_db := (ov_db s)\<lparr>db_event_seq := db_event_seq (ov_db s) + 1\<rparr>\<rparr>)"
    using assms(1) by (subst tx_next_send [where a = "Number (db_event_seq (ov_db s) + 1)" and
        ws = "[AddEvent (event_at env (c_ChangeID c) EntityBook ?u 1 dev (c_Op c) (c_Payload c) StatusDone (db_event_seq (ov_db s) + 1))]"])
      (auto simp: tx_open_def t_def done_script_def tx_view_def add_lock_def created_def map_script_fold)
  show ?thesis unfolding schedule_def by (subst 0) (simp only: fold_simps 1 2 3 4)
qed

lemma created_commit:
  assumes "i < length (ov_txns s)" "ov_txns s ! i = created env c dev f n"
  shows "schedule [i] s = set_txn i (close_txn (Inr (Outcome (accepted 1 n))) (created env c dev f n))
    (s\<lparr>ov_db := apply_write (AddEvent (event_at env (c_ChangeID c) EntityBook (c_EntityID c) 1 dev (c_Op c) (c_Payload c)
       StatusDone n)) (put_book_row (c_EntityID c) (f 1 0) (ov_db s))\<rparr>)"
  using assms by (simp add: schedule_def tx_next_def tx_send_def tx_finish_def tx_open_def created_def Let_def tx_view_def
      commit_script_def)

end
