(* ===== verification/OverlapCases.thy ===== *)
theory OverlapCases
  imports OverlapRuns
begin

text \<open>
  Two schedules on an empty database: two devices create two books and the later event is committed first;
  one change is sent twice and the second request is overtaken.
\<close>

section \<open>Two requests\<close>

definition ex_other :: change where
  "ex_other = (ex_change ''c2'' 0 ''Emma'')\<lparr>c_EntityID := ''b2''\<rparr>"

definition ex_begun :: "change \<Rightarrow> change \<Rightarrow> string \<Rightarrow> overlap" where
  "ex_begun c d dev = \<lparr>ov_db = empty_db [],
     ov_txns = [new_txn ex_env (ApplyBook c ''d1''), new_txn ex_env (ApplyBook d dev)]\<rparr>"

lemma ex_begun_reach:
  assumes "c_EntityType c = EntityBook" "c_EntityType d = EntityBook"
  shows "ov_reach (ex_begun c d dev)"
proof -
  have "request_ok (ApplyBook c ''d1'')" "request_ok (ApplyBook d dev)"
    using assms by (simp_all add: request_ok_def)
  from ov_next [OF ov_next [OF ov_start ov_begin [OF ex_env_ok this(1)]] ov_begin [OF ex_env_ok this(2)]]
  show ?thesis by (simp add: ex_begun_def tx_begin_def)
qed

lemma held_by_two [simp]:
  "held_by_other i u \<lparr>ov_db = db, ov_txns = [a, b]\<rparr> \<longleftrightarrow>
     i \<noteq> 0 \<and> u \<in> set (tn_locks a) \<or> i \<noteq> 1 \<and> u \<in> set (tn_locks b)"
  by (cases i) (auto simp: held_by_other_def Ex_less_Suc)

lemma held_by_four [simp]:
  "held_by_other i u \<lparr>ov_db = db, ov_txns = [a, b, c, d]\<rparr> \<longleftrightarrow>
     i \<noteq> 0 \<and> u \<in> set (tn_locks a) \<or> i \<noteq> 1 \<and> u \<in> set (tn_locks b) \<or>
     i \<noteq> 2 \<and> u \<in> set (tn_locks c) \<or> i \<noteq> 3 \<and> u \<in> set (tn_locks d)"
  by (auto simp: held_by_other_def Ex_less_Suc numeral_2_eq_2 numeral_3_eq_3)

lemma new_txn_locks [simp]: "tn_locks (new_txn env req) = []"
  by (simp add: new_txn_def)

lemma ex_begun_fields [simp]:
  "ov_db (ex_begun c d dev) = empty_db []" "length (ov_txns (ex_begun c d dev)) = 2"
  "ov_txns (ex_begun c d dev) ! 0 = new_txn ex_env (ApplyBook c ''d1'')"
  "ov_txns (ex_begun c d dev) ! Suc 0 = new_txn ex_env (ApplyBook d dev)"
  "\<not> held_by_other i u (ex_begun c d dev)"
  by (simp_all add: ex_begun_def)

lemma ex_other_fields [simp]:
  "c_EntityID ex_other = ''b2''" "c_EntityType ex_other = EntityBook" "c_ChangeID ex_other = ''c2''"
  "c_Op ex_other = OpUpsert" "c_BaseRevision ex_other = 0" "c_Payload ex_other = ex_payload ''Emma''"
  by (simp_all add: ex_other_def)

lemma empty_db_fields [simp]:
  "db_sync_events (empty_db fs) = []" "db_event_seq (empty_db fs) = 0" "book_row_of u (empty_db fs) = None"
  "db_faults (empty_db fs) = fs"
  by (simp_all add: empty_db_def book_row_of_def)

lemma book_row_of_seq [simp]: "book_row_of u (s\<lparr>db_event_seq := n\<rparr>) = book_row_of u s"
  by (simp add: book_row_of_def)

section \<open>The later event is committed first\<close>

definition ex_gap :: overlap where
  "ex_gap = schedule [0, 0, 0, 0, 1, 1, 1, 1, 1] (ex_begun (ex_change ''c1'' 0 ''Dune'') ex_other ''d2'')"

definition ex_event :: "change \<Rightarrow> string \<Rightarrow> int \<Rightarrow> event_row" where
  "ex_event c dev n = event_at ex_env (c_ChangeID c) EntityBook (c_EntityID c) 1 dev (c_Op c) (c_Payload c) StatusDone n"

lemma ex_gap_eq:
  assumes "payload_columns ex_env (parseBookPayload (ex_payload ''Dune'')) = Some f"
    "payload_columns ex_env (parseBookPayload (ex_payload ''Emma'')) = Some g"
  shows "ex_gap = \<lparr>ov_db = apply_write (AddEvent (ex_event ex_other ''d2'' 2))
        (put_book_row ''b2'' (g 1 0) ((empty_db [])\<lparr>db_event_seq := 2\<rparr>)),
      ov_txns = [created ex_env (ex_change ''c1'' 0 ''Dune'') ''d1'' f 1,
        close_txn (Inr (Outcome (accepted 1 2))) (created ex_env ex_other ''d2'' g 2)]\<rparr>"
proof -
  let ?c = "ex_change ''c1'' 0 ''Dune''"
  let ?s = "ex_begun ?c ex_other ''d2''" and ?A = "created ex_env ?c ''d1'' f 1" and ?B = "created ex_env ex_other ''d2'' g 2"
  let ?t = "\<lparr>ov_db = (empty_db [])\<lparr>db_event_seq := 1\<rparr>, ov_txns = [?A, new_txn ex_env (ApplyBook ex_other ''d2'')]\<rparr>"
  let ?u = "\<lparr>ov_db = (empty_db [])\<lparr>db_event_seq := 2\<rparr>, ov_txns = [?A, ?B]\<rparr>"
  have 1: "schedule [0, 0, 0, 0] ?s = ?t"
    using assms by (subst create_run) (auto simp: const_distinct set_txn_def ex_begun_def)
  have 2: "schedule [1, 1, 1, 1] ?t = ?u"
    using assms by (subst create_run)
      (auto simp: const_distinct created_def set_txn_def)
  have 3: "schedule [1] ?u = \<lparr>ov_db = apply_write (AddEvent (ex_event ex_other ''d2'' 2))
        (put_book_row ''b2'' (g 1 0) ((empty_db [])\<lparr>db_event_seq := 2\<rparr>)),
      ov_txns = [?A, close_txn (Inr (Outcome (accepted 1 2))) ?B]\<rparr>"
    by (subst created_commit [where n = 2 and f = g]) (auto simp: set_txn_def ex_event_def)
  have "ex_gap = schedule ([0, 0, 0, 0] @ [1, 1, 1, 1] @ [1]) ?s" by (simp add: ex_gap_def schedule_def)
  then show ?thesis by (simp only: schedule_append 1 2 3)
qed

lemma ex_gap_after:
  assumes "payload_columns ex_env (parseBookPayload (ex_payload ''Dune'')) = Some f"
    "payload_columns ex_env (parseBookPayload (ex_payload ''Emma'')) = Some g"
  shows "schedule [0] ex_gap = \<lparr>ov_db = apply_write (AddEvent (ex_event (ex_change ''c1'' 0 ''Dune'') ''d1'' 1))
        (put_book_row ''b1'' (f 1 0) (ov_db ex_gap)),
      ov_txns = [close_txn (Inr (Outcome (accepted 1 1))) (created ex_env (ex_change ''c1'' 0 ''Dune'') ''d1'' f 1),
        close_txn (Inr (Outcome (accepted 1 2))) (created ex_env ex_other ''d2'' g 2)]\<rparr>"
  unfolding ex_gap_eq [OF assms]
  by (subst created_commit [where n = 1 and f = f]) (auto simp: set_txn_def ex_event_def)

lemma ex_gap_reach: "ov_reach ex_gap"
  unfolding ex_gap_def by (rule ov_steps_reach [OF schedule_steps]) (simp add: ex_begun_reach)

lemma ex_gap_pull:
  "pg_ListAfterCursor 0 500 (ov_db ex_gap) = (Inr ([row_event (ex_event ex_other ''d2'' 2)], False), ov_db ex_gap)"
proof -
  obtain f g where fg: "payload_columns ex_env (parseBookPayload (ex_payload ''Dune'')) = Some f"
    "payload_columns ex_env (parseBookPayload (ex_payload ''Emma'')) = Some g"
    using ex_payload_columns by blast
  show ?thesis
    by (simp add: ex_gap_eq [OF fg] pg_ListAfterCursor_def wrapE_def bindE_def Let_def ret_def selectable_def ex_event_def)
qed

section \<open>A request that is overtaken by its twin\<close>

lemma overtaken_run:
  assumes "i < length (ov_txns s)" "ov_txns s ! i = (new_txn env (ApplyBook c dev))
      \<lparr>tn_script := map_script Outcome (Send (SelectForUpdate (BookKey (c_EntityID c)))
         (\<lambda>row. locked_script env c dev (book_found row)))\<rparr>"
    and "\<not> held_by_other i (BookKey (c_EntityID c)) s" "book_row_of (c_EntityID c) (ov_db s) = Some old"
    and "c_Op c \<noteq> OpProgress" "c_BaseRevision c \<noteq> br_revision old"
  shows "\<exists>t db. schedule [i, i, i, i] s = set_txn i t (s\<lparr>ov_db := db\<rparr>) \<and> tn_request t = ApplyBook c dev \<and>
    tn_result t = Some (Inr (Outcome (refused (db_conflict_seq (ov_db s) + 1)))) \<and>
    db_sync_events db = db_sync_events (ov_db s) @ [event_at env (c_ChangeID c) (c_EntityType c) (c_EntityID c)
      (br_revision old) dev (c_Op c) (c_Payload c) StatusConflict (db_event_seq (ov_db s) + 1)] \<and>
    db_faults db = db_faults (ov_db s)"
proof -
  let ?u = "c_EntityID c" and ?x = "BookKey (c_EntityID c)" and ?M = "map_script Outcome" and ?n = "db_event_seq (ov_db s) + 1" and ?m = "db_conflict_seq (ov_db s) + 1"
  let ?E = "event_at env (c_ChangeID c) (c_EntityType c) ?u (br_revision old) dev (c_Op c) (c_Payload c) StatusConflict"
  let ?K = "conflict_at env c ?n (br_revision old)"
  let ?q = "?M (Send (SelectForUpdate ?x) (\<lambda>row. locked_script env c dev (book_found row)))"
  let ?k = "?M (Send (InsertConflictRow ?K) (\<lambda>b. commit_script (refused (number b))))"
  let ?e = "commit_script (Outcome (refused ?m))"
  define t where "t k ws ls = \<lparr>tn_request = ApplyBook c dev, tn_script = k, tn_writes = ws, tn_locks = ls, tn_result = None\<rparr>"
    for k ws ls
  let ?s1 = "s\<lparr>ov_db := (ov_db s)\<lparr>db_event_seq := ?n\<rparr>\<rparr>"
  let ?s2 = "s\<lparr>ov_db := (ov_db s)\<lparr>db_event_seq := ?n, db_conflict_seq := ?m\<rparr>\<rparr>"
  have 0: "s = set_txn i (t ?q [] []) s"
    using assms(1,2) by (simp add: t_def new_txn_def set_txn_def) (metis list_update_id overlap.surjective overlap.update_convs(2))
  have 1: "tx_next i (set_txn i (t ?q [] []) s) = set_txn i (t (?M (conflict_script env c dev (br_revision old))) [] [?x]) s"
    using assms(1,3-6) by (subst tx_next_send [where a = "Row (BookIs (Some old))" and ws = "[]"])
      (auto simp: tx_open_def t_def locked_script_def next_script_def tx_view_def add_lock_def if_there_def)
  have 2: "tx_next i (set_txn i (t (?M (conflict_script env c dev (br_revision old))) [] [?x]) s) =
      set_txn i (t ?k [AddEvent (?E ?n)] [?x]) ?s1"
    using assms(1) by (subst tx_next_send [where a = "Number ?n" and ws = "[AddEvent (?E ?n)]"])
      (auto simp: tx_open_def t_def conflict_script_def tx_view_def add_lock_def)
  have 3: "tx_next i (set_txn i (t ?k [AddEvent (?E ?n)] [?x]) ?s1) =
      set_txn i (t ?e [AddEvent (?E ?n), AddConflict (?K ?m)] [?x]) ?s2"
    using assms(1) by (subst tx_next_send [where a = "Number ?m" and ws = "[AddConflict (?K ?m)]"])
      (auto simp: tx_open_def t_def tx_view_def add_lock_def set_txn_def map_script_fold)
  let ?t = "t ?e [AddEvent (?E ?n), AddConflict (?K ?m)] [?x]"
  have 4: "tx_next i (set_txn i ?t ?s2) = set_txn i (close_txn (Inr (Outcome (refused ?m))) ?t)
      (?s2\<lparr>ov_db := fold apply_write [AddEvent (?E ?n), AddConflict (?K ?m)] (ov_db ?s2)\<rparr>)"
    using assms(1) by (simp add: tx_next_def tx_send_def tx_finish_def tx_open_def t_def Let_def tx_view_def commit_script_def)
  have "schedule [i, i, i, i] s = set_txn i (close_txn (Inr (Outcome (refused ?m))) ?t)
      (s\<lparr>ov_db := fold apply_write [AddEvent (?E ?n), AddConflict (?K ?m)] (ov_db ?s2)\<rparr>)"
  proof -
    have "schedule [i, i, i, i] (set_txn i (t ?q [] []) s) = set_txn i (close_txn (Inr (Outcome (refused ?m))) ?t)
        (?s2\<lparr>ov_db := fold apply_write [AddEvent (?E ?n), AddConflict (?K ?m)] (ov_db ?s2)\<rparr>)"
      unfolding schedule_def fold_simps(1,2) [where f = tx_next] 1 2 3 4 by (rule refl)
    then show ?thesis by (simp only: 0 [symmetric]) simp
  qed
  then show ?thesis
    by (intro exI conjI) (assumption, simp_all add: t_def)
qed


lemma ex_replay:
  obtains t where "ov_reach t" "length (ov_txns t) = 2"
    "tn_request (ov_txns t ! 0) = ApplyBook (ex_change ''c1'' 0 ''Dune'') ''d1''"
    "tn_request (ov_txns t ! 1) = ApplyBook (ex_change ''c1'' 0 ''Dune'') ''d1''"
    "tn_result (ov_txns t ! 0) = Some (Inr (Outcome (accepted 1 1)))" "tn_result (ov_txns t ! 1) = Some (Inr (Outcome (refused 1)))"
    "\<And>src. fst (pg_ApplyBookChange ex_env (ex_change ''c1'' 0 ''Dune'') src ''d1'' (ov_db t)) = Inr duplicate_outcome"
proof -
  let ?c = "ex_change ''c1'' 0 ''Dune''"
  obtain f where f: "payload_columns ex_env (parseBookPayload (ex_payload ''Dune'')) = Some f"
    using ex_payload_columns by blast
  let ?s = "ex_begun ?c ?c ''d1''" and ?A = "created ex_env ?c ''d1'' f 1"
  let ?B = "(new_txn ex_env (ApplyBook ?c ''d1''))
      \<lparr>tn_script := map_script Outcome (Send (SelectForUpdate (BookKey ''b1''))
         (\<lambda>row. locked_script ex_env ?c ''d1'' (book_found row)))\<rparr>"
  let ?s1 = "\<lparr>ov_db = empty_db [], ov_txns = [new_txn ex_env (ApplyBook ?c ''d1''), ?B]\<rparr>"
  let ?s2 = "\<lparr>ov_db = (empty_db [])\<lparr>db_event_seq := 1\<rparr>, ov_txns = [?A, ?B]\<rparr>"
  let ?s3 = "\<lparr>ov_db = apply_write (AddEvent (ex_event ?c ''d1'' 1)) (put_book_row ''b1'' (f 1 0) (ov_db ?s2)),
      ov_txns = [close_txn (Inr (Outcome (accepted 1 1))) ?A, ?B]\<rparr>"
  have 1: "schedule [1] ?s = ?s1"
    by (simp add: schedule_def, subst tx_next_send [where a = "Flag False" and ws = "[]"])
      (auto simp: tx_open_def book_script_def tx_view_def add_lock_def ex_begun_def new_txn_def set_txn_def)
  have 2: "schedule [0, 0, 0, 0] ?s1 = ?s2"
    using f by (subst create_run) (auto simp: const_distinct set_txn_def)
  have 3: "schedule [0] ?s2 = ?s3"
    by (subst created_commit [where n = 1 and f = f]) (auto simp: set_txn_def ex_event_def)
  have row: "book_row_of ''b1'' (ov_db ?s3) = Some (f 1 0)" "br_revision (f 1 0) = 1"
    using columns_shape(2) [OF f] by (simp_all add: book_row_other)
  have seq: "db_conflict_seq (ov_db ?s3) = 0" by (simp add: put_book_row_def empty_db_def)
  from overtaken_run [where i = 1 and s = ?s3 and env = ex_env and c = ?c and dev = "''d1''" and old = "f 1 0"] row seq
  obtain t db where 4: "schedule [1, 1, 1, 1] ?s3 = set_txn 1 t (?s3\<lparr>ov_db := db\<rparr>)" and
    t: "tn_request t = ApplyBook ?c ''d1''" "tn_result t = Some (Inr (Outcome (refused 1)))" and
    db: "\<exists>e\<in>set (db_sync_events db). vr_change_id e = ''c1''" "db_faults db = []"
    by (auto simp: const_distinct ex_event_def created_def)
  let ?t = "schedule ([1] @ [0, 0, 0, 0] @ [0] @ [1, 1, 1, 1]) ?s"
  have eq: "?t = \<lparr>ov_db = db, ov_txns = [close_txn (Inr (Outcome (accepted 1 1))) ?A, t]\<rparr>"
    unfolding schedule_append 1 2 3 4 by (simp add: set_txn_def)
  have "pg_book_tx ex_env ?c ''d1'' db = (Inr (Commit duplicate), db)"
    using db by (simp add: pg_book_tx_def change_exists_def bindE_Inr commitOutcome_def ret_def)
  then have "fst (pg_ApplyBookChange ex_env ?c src ''d1'' db) = Inr duplicate_outcome" for src
    using db(2) by (simp add: pg_ApplyBookChange_def in_tx_def)
  moreover have "ov_reach ?t"
    by (rule ov_steps_reach [OF schedule_steps]) (simp add: ex_begun_reach)
  ultimately show ?thesis
    unfolding eq using t
    by (intro that [of "\<lparr>ov_db = db, ov_txns = [close_txn (Inr (Outcome (accepted 1 1))) ?A, t]\<rparr>"])
      (simp_all add: created_def)
qed

section \<open>Two restores\<close>

text \<open>A snapshot of one book that is there: the row is locked, the others are still to be deleted.\<close>

definition ex_item :: "string \<Rightarrow> book_snapshot_item" where
  "ex_item u = \<lparr>it_UUID = u, it_Name = ''Dune'', it_CurrentPage = 3, it_CoverHash = [], it_Files = Some (JArr []),
     it_Revision = 1\<rparr>"

definition ex_one :: "string \<Rightarrow> raw" where
  "ex_one u = Some (enc_slice enc_item (Some [ex_item u]))"

lemma ex_one_items: "json_Unmarshal dec_items None (ex_one u) = (Some [ex_item u], True)"
  using dec_items_enc [of "[ex_item u]"]
  by (simp add: ex_one_def json_Unmarshal_def ex_item_def item_ok_def in_int64_def)

lemma ex_item_columns:
  obtains f where "book_columns env (it_Name (ex_item u)) (it_CurrentPage (ex_item u)) (it_CoverHash (ex_item u))
    (normalizePayload (it_Files (ex_item u))) = Some f"
  by (simp add: book_columns_def ex_item_def normalizePayload_def in_int32_def)

lemma restore_run:
  assumes "i < length (ov_txns s)" "ov_txns s ! i = new_txn ex_env (RestoreBooks (ex_one u) dev cids)"
    and "\<not> held_by_other i (BookKey u) s" "book_row_of u (ov_db s) \<noteq> None"
  shows "\<exists>t k. schedule [i, i, i] s = set_txn i t (s\<lparr>ov_db := (ov_db s)\<lparr>db_event_seq := db_event_seq (ov_db s) + 1\<rparr>\<rparr>) \<and>
    tn_request t = RestoreBooks (ex_one u) dev cids \<and> tn_result t = None \<and> tn_locks t = [BookKey u] \<and>
    writes_in {BookKey u} (tn_writes t) \<and>
    (\<forall>w us. filter (\<lambda>v. v \<noteq> u) (live_rows (ov_db s)) = w # us \<longrightarrow> tn_script t = Send (TombstoneBook w) (k w us))"
proof -
  let ?it = "ex_item u" and ?x = "BookKey u" and ?M = "map_script Restored" and ?n = "db_event_seq (ov_db s) + 1"
  obtain f where f: "book_columns ex_env (it_Name ?it) (it_CurrentPage ?it) (it_CoverHash ?it)
      (normalizePayload (it_Files ?it)) = Some f" by (rule ex_item_columns)
  obtain old where old: "book_row_of u (ov_db s) = Some old" using assms(4) by blast
  have it: "it_UUID ?it = u" by (simp add: ex_item_def)
  let ?r = "br_revision old + 1" let ?w = "PutBook u (f ?r (br_progress_revision old))"
  let ?E = "event_at ex_env (cids 0) EntityBook u ?r dev OpUpsert (snapshotItemPayload ?it) StatusDone"
  define rest where "rest n m us = deletes_script ex_env dev cids n us m
      (\<lambda>m. commit_script \<lparr>rr_Restored = 1, rr_Revision = m\<rparr>)" for n m us
  define t where "t k ws ls = \<lparr>tn_request = RestoreBooks (ex_one u) dev cids, tn_script = ?M k, tn_writes = ws, tn_locks = ls,
      tn_result = None\<rparr>" for k ws ls
  let ?us = "filter (\<lambda>v. v \<noteq> u) (live_rows (ov_db s))" and ?m = "if ?r > 0 then ?r else 0"
  let ?a = "items_script ex_env dev cids 0 [?it] 0 (\<lambda>n m. rest n m ?us)"
  let ?b = "Send (InsertEvent ?E) (\<lambda>_. rest 1 ?m ?us)"
  have 0: "s = set_txn i (t (restore_script ex_env (ex_one u) dev cids) [] []) s"
    using assms(1,2) by (simp add: t_def new_txn_def set_txn_def) (metis list_update_id overlap.surjective overlap.update_convs(2))
  have 1: "tx_next i (set_txn i (t (restore_script ex_env (ex_one u) dev cids) [] []) s) = set_txn i (t ?a [] []) s"
    using assms(1) by (subst tx_next_send [where a = "Names (live_rows (ov_db s))" and ws = "[]"])
      (auto simp: tx_open_def t_def restore_script_def ex_one_items tx_view_def add_lock_def it rest_def ex_env_def)
  have 2: "tx_next i (set_txn i (t ?a [] []) s) = set_txn i (t ?b [?w] [?x]) s"
    using assms(1,3) old f by (subst tx_next_send [where a = "Number ?r" and ws = "[?w]"])
      (auto simp: tx_open_def t_def tx_view_def add_lock_def it)
  have 3: "tx_next i (set_txn i (t ?b [?w] [?x]) s) =
      set_txn i (t (rest 1 ?m ?us) [?w, AddEvent (?E ?n)] [?x]) (s\<lparr>ov_db := (ov_db s)\<lparr>db_event_seq := ?n\<rparr>\<rparr>)"
    using assms(1) by (subst tx_next_send [where a = "Number ?n" and ws = "[AddEvent (?E ?n)]"])
      (auto simp: tx_open_def t_def tx_view_def add_lock_def)
  have "schedule [i, i, i] (set_txn i (t (restore_script ex_env (ex_one u) dev cids) [] []) s) =
      set_txn i (t (rest 1 ?m ?us) [?w, AddEvent (?E ?n)] [?x]) (s\<lparr>ov_db := (ov_db s)\<lparr>db_event_seq := ?n\<rparr>\<rparr>)"
    unfolding schedule_def fold_simps(1,2) [where f = tx_next] 1 2 3 by (rule refl)
  then have run: "schedule [i, i, i] s =
      set_txn i (t (rest 1 ?m ?us) [?w, AddEvent (?E ?n)] [?x]) (s\<lparr>ov_db := (ov_db s)\<lparr>db_event_seq := ?n\<rparr>\<rparr>)"
    by (simp only: 0 [symmetric])
  define k where "k w us a = ?M (Send (InsertEvent (event_at ex_env (cids 1) EntityBook w (number a) dev OpDelete None StatusDone))
      (\<lambda>_. rest 2 (if number a > ?m then number a else ?m) us))" for w us a
  have "?M (rest 1 ?m (w # us)) = Send (TombstoneBook w) (k w us)" for w us
    by (simp add: rest_def k_def fun_eq_iff numeral_2_eq_2)
  then show ?thesis
    unfolding run by (intro exI [of _ "t (rest 1 ?m ?us) [?w, AddEvent (?E ?n)] [?x]"] exI [of _ k]) (simp add: t_def)
qed

lemma live_rows_seq [simp]: "live_rows (s\<lparr>db_event_seq := n\<rparr>) = live_rows s"
  by (simp add: live_rows_def)

lemma ex_gap_library:
  "live_rows (ov_db (schedule [0] ex_gap)) = [''b2'', ''b1'']"
  "book_row_of ''b1'' (ov_db (schedule [0] ex_gap)) \<noteq> None" "book_row_of ''b2'' (ov_db (schedule [0] ex_gap)) \<noteq> None"
  "\<exists>t0 t1. ov_txns (schedule [0] ex_gap) = [close_txn (Inr (Outcome (accepted 1 1))) t0, close_txn (Inr (Outcome (accepted 1 2))) t1]"
proof -
  obtain f g where fg: "payload_columns ex_env (parseBookPayload (ex_payload ''Dune'')) = Some f"
    "payload_columns ex_env (parseBookPayload (ex_payload ''Emma'')) = Some g"
    using ex_payload_columns by blast
  note shape = columns_shape(2) [OF fg(1)] columns_shape(2) [OF fg(2)]
  show "live_rows (ov_db (schedule [0] ex_gap)) = [''b2'', ''b1'']"
    using shape by (simp add: ex_gap_after [OF fg]) (simp add: ex_gap_eq [OF fg] live_rows_def put_book_row_def empty_db_def)
  show "book_row_of ''b1'' (ov_db (schedule [0] ex_gap)) \<noteq> None" "book_row_of ''b2'' (ov_db (schedule [0] ex_gap)) \<noteq> None"
    by (simp_all add: ex_gap_after [OF fg] book_row_other) (simp add: ex_gap_eq [OF fg] book_row_other)
  show "\<exists>t0 t1. ov_txns (schedule [0] ex_gap) = [close_txn (Inr (Outcome (accepted 1 1))) t0, close_txn (Inr (Outcome (accepted 1 2))) t1]"
    unfolding ex_gap_after [OF fg] by auto
qed

definition ex_restores :: overlap where
  "ex_restores = tx_begin ex_env (RestoreBooks (ex_one ''b2'') ''d2'' (\<lambda>_. ''s2''))
     (tx_begin ex_env (RestoreBooks (ex_one ''b1'') ''d1'' (\<lambda>_. ''s1'')) (schedule [0] ex_gap))"

lemma ex_restores_reach: "ov_reach (schedule is ex_restores)"
proof -
  have "ov_reach (schedule [0] ex_gap)" by (rule ov_steps_reach [OF schedule_steps ex_gap_reach])
  then have "ov_reach ex_restores"
    unfolding ex_restores_def by (intro ov_next [OF ov_next [OF _ ov_begin] ov_begin]) (simp_all add: request_ok_def)
  then show ?thesis by (rule ov_steps_reach [OF schedule_steps])
qed

text \<open>Each has the row of its book and waits for the one of the other's.\<close>

lemma ex_deadlock:
  "\<exists>s. ov_reach s \<and> tx_open 2 s \<and> tx_open 3 s \<and>
     tn_request (ov_txns s ! 2) = RestoreBooks (ex_one ''b1'') ''d1'' (\<lambda>_. ''s1'') \<and>
     tn_request (ov_txns s ! 3) = RestoreBooks (ex_one ''b2'') ''d2'' (\<lambda>_. ''s2'') \<and>
     (\<forall>j. tx_send j s = None \<and> tx_finish j s = None)"
proof -
  let ?q = "RestoreBooks (ex_one ''b1'') ''d1'' (\<lambda>_. ''s1'')" and ?r = "RestoreBooks (ex_one ''b2'') ''d2'' (\<lambda>_. ''s2'')"
  define db where "db = ov_db (schedule [0] ex_gap)"
  note lib = ex_gap_library [folded db_def]
  obtain t0 t1 where txns: "ov_txns (schedule [0] ex_gap) =
      [close_txn (Inr (Outcome (accepted 1 1))) t0, close_txn (Inr (Outcome (accepted 1 2))) t1]"
    using lib(4) by blast
  let ?a = "close_txn (Inr (Outcome (accepted 1 1))) t0" and ?b = "close_txn (Inr (Outcome (accepted 1 2))) t1"
  have s0: "ex_restores = \<lparr>ov_db = db, ov_txns = [?a, ?b, new_txn ex_env ?q, new_txn ex_env ?r]\<rparr>"
    by (simp add: ex_restores_def tx_begin_def txns db_def)
  let ?n = "db_event_seq db + 1"
  have "\<not> held_by_other 2 x ex_restores" for x
    by (simp add: s0)
  with restore_run [where i = 2 and s = ex_restores and u = "''b1''" and dev = "''d1''" and cids = "\<lambda>_. ''s1''"] lib(1,2)
  obtain t k where t: "schedule [2, 2, 2] ex_restores =
      \<lparr>ov_db = db\<lparr>db_event_seq := ?n\<rparr>, ov_txns = [?a, ?b, t, new_txn ex_env ?r]\<rparr>"
    "tn_request t = ?q" "tn_result t = None" "tn_locks t = [BookKey ''b1'']" "writes_in {BookKey ''b1''} (tn_writes t)"
    "tn_script t = Send (TombstoneBook ''b2'') k"
    by (auto simp: s0 set_txn_def)
  let ?s1 = "\<lparr>ov_db = db\<lparr>db_event_seq := ?n\<rparr>, ov_txns = [?a, ?b, t, new_txn ex_env ?r]\<rparr>"
  have "\<not> held_by_other 3 (BookKey ''b2'') ?s1"
    using t(4) by simp
  with restore_run [where i = 3 and s = ?s1 and u = "''b2''" and dev = "''d2''" and cids = "\<lambda>_. ''s2''"] lib(1,3)
  obtain v k' where v: "schedule [3, 3, 3] ?s1 =
      \<lparr>ov_db = db\<lparr>db_event_seq := ?n + 1\<rparr>, ov_txns = [?a, ?b, t, v]\<rparr>"
    "tn_request v = ?r" "tn_result v = None" "tn_locks v = [BookKey ''b2'']" "writes_in {BookKey ''b2''} (tn_writes v)"
    "tn_script v = Send (TombstoneBook ''b1'') k'"
    by (auto simp: set_txn_def)
  let ?s = "\<lparr>ov_db = db\<lparr>db_event_seq := ?n + 1\<rparr>, ov_txns = [?a, ?b, t, v]\<rparr>"
  have "schedule ([2, 2, 2] @ [3, 3, 3]) ex_restores = ?s" by (simp only: schedule_append t(1) v(1))
  then have reach: "ov_reach ?s" using ex_restores_reach by metis
  have there: "if_there (BookKey ''b2'') (tx_view ?s t) = Some (BookKey ''b2'')"
    "if_there (BookKey ''b1'') (tx_view ?s v) = Some (BookKey ''b1'')"
    using row_at_other [OF t(5), of "BookKey ''b2''"] row_at_other [OF v(5), of "BookKey ''b1''"] lib(2,3)
    by (simp_all add: tx_view_def if_there_def)
  have held: "held_by_other 2 (BookKey ''b2'') ?s" "held_by_other 3 (BookKey ''b1'') ?s"
    using t(4) v(4) by simp_all
  have "tx_send j ?s = None \<and> tx_finish j ?s = None" for j
  proof -
    consider "j = 2" | "j = 3" | "\<not> tx_open j ?s"
      by (fastforce simp: tx_open_def less_Suc_eq numeral_nat)
    then show ?thesis
      by cases (use t v there held in \<open>auto simp: tx_send_def tx_finish_def Let_def\<close>)
  qed
  moreover have "tx_open 2 ?s" "tx_open 3 ?s" using t(3) v(3) by (simp_all add: tx_open_def)
  ultimately show ?thesis using reach t(2) v(2) by (intro exI [of _ ?s]) simp
qed

end
