(* ===== verification/OverlapAlone.thy ===== *)
theory OverlapAlone
  imports OverlapRuns
begin

text \<open>
  A request that begins while no other is open: its script ends as the transaction of \<open>PgSync\<close> does.  The
  change identifiers that the transaction draws from \<open>db_random\<close> are part of the request here.
\<close>

section \<open>Scripts and the random source\<close>

lemma random_views [simp]:
  "row_at k (s\<lparr>db_random := r\<rparr>) = row_at k s" "book_row_of u (s\<lparr>db_random := r\<rparr>) = book_row_of u s"
  "live_rows (s\<lparr>db_random := r\<rparr>) = live_rows s"
  by (cases k) (simp_all add: book_row_of_def live_rows_def)

lemma reply_random: "reply q (s\<lparr>db_random := r\<rparr>) = reply q s"
  by (cases q) (simp_all split: option.split)

lemma write_random: "apply_write w (s\<lparr>db_random := r\<rparr>) = (apply_write w s)\<lparr>db_random := r\<rparr>"
  by (cases w) (simp_all add: put_book_row_def put_entity_row_def)

lemma writes_random: "fold apply_write ws (s\<lparr>db_random := r\<rparr>) = (fold apply_write ws s)\<lparr>db_random := r\<rparr>"
  by (induction ws arbitrary: s) (simp_all add: write_random)

lemma draw_random: "draw q (s\<lparr>db_random := r\<rparr>) = (draw q s)\<lparr>db_random := r\<rparr>"
  by (cases q) simp_all

lemma exec_sql_random: "exec_sql q (s\<lparr>db_random := r\<rparr>) = apsnd (db_random_update (\<lambda>_. r)) (exec_sql q s)"
  by (auto simp: exec_sql_def reply_random draw_random writes_random split: sum.split)

text \<open>A row that is written and logged under a fresh change identifier.\<close>

definition numbered :: "(pg, answer) op \<Rightarrow> (pg, int) op" where
  "numbered f s = (case f s of (Inl e, t) \<Rightarrow> (Inl e, t) | (Inr a, t) \<Rightarrow> (Inr (number a), t))"

lemma logged_write:
  assumes "db_faults s = []" "W s = numbered (exec_sql q) s"
  obtains cid res t where "db_faults t = []"
    "\<And>K. bindE W (\<lambda>n. bindE (serverChangeID env) (\<lambda>cid. bindE (insertEvent env cid ty i n dev opn p StatusDone) (K n))) s =
       (case res of Inl e \<Rightarrow> (Inl e, t) | Inr (n, m) \<Rightarrow> K n m t)"
    "\<And>k. run_script (Send q (\<lambda>a. Send (InsertEvent (event_at env cid ty i (number a) dev opn p StatusDone))
       (\<lambda>b. k (number a) (number b)))) (s\<lparr>db_random := r\<rparr>) =
       (case res of Inl e \<Rightarrow> (Inl e, t\<lparr>db_random := r\<rparr>) | Inr (n, m) \<Rightarrow> run_script (k n m) (t\<lparr>db_random := r\<rparr>))"
proof (cases "exec_sql q s")
  case (Pair x s1)
  then have f1: "db_faults s1 = []" using exec_sql_faults [of q s] assms(1) by simp
  from Pair have run: "exec_sql q (s\<lparr>db_random := r\<rparr>) = (x, s1\<lparr>db_random := r\<rparr>)" by (simp add: exec_sql_random)
  show ?thesis
  proof (cases x)
    case (Inl e)
    with Pair run assms(2) f1 show ?thesis
      by (intro that [of s1 "Inl e"]) (simp_all add: bindE_def numbered_def)
  next
    case (Inr a)
    obtain cid rs where cid: "serverChangeID env s1 = (Inr cid, s1\<lparr>db_random := rs\<rparr>)"
      using serverChangeID_run by blast
    let ?m = "db_event_seq s1 + 1"
    obtain t where t: "\<And>rs'. insertEvent env cid ty i (number a) dev opn p StatusDone (s1\<lparr>db_random := rs'\<rparr>) =
        (Inr ?m, t\<lparr>db_random := rs'\<rparr>)" "t\<lparr>db_random := rs\<rparr> = t" "db_faults t = []"
      by (rule that [of "snd (insertEvent env cid ty i (number a) dev opn p StatusDone (s1\<lparr>db_random := rs\<rparr>))"])
        (use f1 in \<open>simp_all add: insertEvent_def Let_def\<close>)
    show ?thesis
    proof (rule that [of t "Inr (number a, ?m)" cid])
      show "db_faults t = []" by (rule t)
      fix K
      show "bindE W (\<lambda>n. bindE (serverChangeID env) (\<lambda>cid. bindE (insertEvent env cid ty i n dev opn p StatusDone) (K n))) s =
        (case Inr (number a, ?m) of Inl e \<Rightarrow> (Inl e, t) | Inr (n, m) \<Rightarrow> K n m t)"
        using Pair Inr assms(2) cid t(1) [of rs] t(2) by (simp add: bindE_def numbered_def)
    next
      fix k
      show "run_script (Send q (\<lambda>a. Send (InsertEvent (event_at env cid ty i (number a) dev opn p StatusDone))
          (\<lambda>b. k (number a) (number b)))) (s\<lparr>db_random := r\<rparr>) =
        (case Inr (number a, ?m) of Inl e \<Rightarrow> (Inl e, t\<lparr>db_random := r\<rparr>)
         | Inr (n, m) \<Rightarrow> run_script (k n m) (t\<lparr>db_random := r\<rparr>))"
        using run Inr f1 t(1) [of r] by (simp add: bindE_def exec_sql_event)
    qed
  qed
qed

lemma numbered_writes:
  assumes "db_faults s = []"
  shows "upsert_book u cols s = numbered (exec_sql (UpsertBook u cols)) s"
    and "stmt (\<lambda>s. case book_row_of u s of None \<Rightarrow> (Inl ErrNoRows, s)
       | Some old \<Rightarrow> (Inr (br_revision old + 1), put_book_row u (old\<lparr>br_revision := br_revision old + 1, br_deleted := True\<rparr>) s)) s =
      numbered (exec_sql (TombstoneBook u)) s"
    and "stmt (\<lambda>s. let newRev = (case db_entities s (ty, i) of None \<Rightarrow> 1 | Some r \<Rightarrow> er_revision r + 1)
       in (Inr newRev, put_entity_row ty i \<lparr>er_revision = newRev, er_deleted = False, er_payload = p\<rparr> s)) s =
      numbered (exec_sql (UpsertEntity ty i p)) s"
  using assms by (auto simp: upsert_book_def numbered_def exec_sql_def Let_def split: option.split)

section \<open>Forced writes\<close>

lemma force_script_alone:
  assumes "db_faults s = []"
  obtains cid where "run_script (force_script env u p dev cid) (s\<lparr>db_random := r\<rparr>) =
    apsnd (db_random_update (\<lambda>_. r)) (pg_force_book_tx env u p dev s)"
proof (rule logged_write [where W = "upsert_book u (payload_columns env (parseBookPayload p))" and s = s and env = env and
      ty = EntityBook and i = u and dev = dev and opn = OpUpsert and p = p and r = r, OF assms numbered_writes(1) [OF assms]])
  fix cid res t
  assume t: "db_faults t = []"
    "\<And>K :: int \<Rightarrow> int \<Rightarrow> (pg, change_outcome tx_end) op. bindE (upsert_book u (payload_columns env (parseBookPayload p))) (\<lambda>n. bindE (serverChangeID env) (\<lambda>cid.
       bindE (insertEvent env cid EntityBook u n dev OpUpsert p StatusDone) (K n))) s =
       (case res of Inl e \<Rightarrow> (Inl e, t) | Inr (n, m) \<Rightarrow> K n m t)"
    "\<And>k :: int \<Rightarrow> int \<Rightarrow> change_outcome script. run_script (Send (UpsertBook u (payload_columns env (parseBookPayload p)))
       (\<lambda>a. Send (InsertEvent (event_at env cid EntityBook u (number a) dev OpUpsert p StatusDone))
         (\<lambda>b. k (number a) (number b)))) (s\<lparr>db_random := r\<rparr>) =
       (case res of Inl e \<Rightarrow> (Inl e, t\<lparr>db_random := r\<rparr>) | Inr (n, m) \<Rightarrow> run_script (k n m) (t\<lparr>db_random := r\<rparr>))"
  show thesis
  proof (rule that)
    show "run_script (force_script env u p dev cid) (s\<lparr>db_random := r\<rparr>) =
      apsnd (db_random_update (\<lambda>_. r)) (pg_force_book_tx env u p dev s)"
      unfolding force_script_def pg_force_book_tx_def t(2)
      using t(3) [of "\<lambda>n m. commit_script (accepted n m)"]
      by (auto simp: run_commit commitOutcome_def t(1) split: sum.split)
  qed
qed

lemma force_entity_script_alone:
  assumes "db_faults s = []"
  obtains cid where "run_script (force_entity_script env ty i p dev cid) (s\<lparr>db_random := r\<rparr>) =
    apsnd (db_random_update (\<lambda>_. r)) (pg_force_tx env ty i p dev s)"
proof -
  let ?W = "stmt (\<lambda>s. let newRev = (case db_entities s (ty, i) of None \<Rightarrow> 1 | Some r \<Rightarrow> er_revision r + 1)
       in (Inr newRev, put_entity_row ty i \<lparr>er_revision = newRev, er_deleted = False,
         er_payload = jsonb env (normalizePayload p)\<rparr> s))"
  show thesis
  proof (rule logged_write [where W = ?W and s = s and env = env and ty = ty and i = i and dev = dev and opn = OpUpsert and
        p = p and r = r, OF assms numbered_writes(3) [OF assms]])
    fix cid res t
    assume t: "db_faults t = []"
      "\<And>K :: int \<Rightarrow> int \<Rightarrow> (pg, change_outcome tx_end) op. bindE ?W (\<lambda>n. bindE (serverChangeID env) (\<lambda>cid.
         bindE (insertEvent env cid ty i n dev OpUpsert p StatusDone) (K n))) s =
         (case res of Inl e \<Rightarrow> (Inl e, t) | Inr (n, m) \<Rightarrow> K n m t)"
      "\<And>k :: int \<Rightarrow> int \<Rightarrow> change_outcome script. run_script (Send (UpsertEntity ty i (jsonb env (normalizePayload p)))
         (\<lambda>a. Send (InsertEvent (event_at env cid ty i (number a) dev OpUpsert p StatusDone))
           (\<lambda>b. k (number a) (number b)))) (s\<lparr>db_random := r\<rparr>) =
         (case res of Inl e \<Rightarrow> (Inl e, t\<lparr>db_random := r\<rparr>) | Inr (n, m) \<Rightarrow> run_script (k n m) (t\<lparr>db_random := r\<rparr>))"
    show thesis
    proof (rule that)
      show "run_script (force_entity_script env ty i p dev cid) (s\<lparr>db_random := r\<rparr>) =
        apsnd (db_random_update (\<lambda>_. r)) (pg_force_tx env ty i p dev s)"
        unfolding force_entity_script_def pg_force_tx_def t(2)
        using t(3) [of "\<lambda>n m. commit_script (accepted n m)"]
        by (auto simp: run_commit commitOutcome_def t(1) split: sum.split)
    qed
  qed
qed

section \<open>Restores\<close>

text \<open>A loop and its script, from the \<open>n\<close>th change identifier on.\<close>

definition agree :: "string option list \<Rightarrow> (error + int) \<times> pg \<Rightarrow> (int \<Rightarrow> 'a script) \<Rightarrow> (error + 'a tx_end) \<times> pg \<Rightarrow> bool" where
  "agree r p f q \<longleftrightarrow> db_faults (snd p) = [] \<and>
     q = (case p of (Inl e, t) \<Rightarrow> (Inl e, t\<lparr>db_random := r\<rparr>) | (Inr m, t) \<Rightarrow> run_script (f m) (t\<lparr>db_random := r\<rparr>))"

definition prefix_ids :: "nat \<Rightarrow> (nat \<Rightarrow> string) \<Rightarrow> (nat \<Rightarrow> string) \<Rightarrow> nat \<Rightarrow> bool" where
  "prefix_ids n cids cs l \<longleftrightarrow> (\<forall>j<l. cids (n + j) = cs j)"

lemma prefix_ids_Suc:
  "prefix_ids n cids (case_nat c cs) (Suc l) \<longleftrightarrow> cids n = c \<and> prefix_ids (Suc n) cids cs l"
  by (simp add: prefix_ids_def All_less_Suc2)

lemma logged_step:
  fixes S :: "(nat \<Rightarrow> string) \<Rightarrow> int \<Rightarrow> (nat \<Rightarrow> int \<Rightarrow> 'a script) \<Rightarrow> 'a script"
  assumes "db_faults s = []" "W s = numbered (exec_sql q) s"
    and "\<And>a t. db_faults t = [] \<Longrightarrow> \<exists>cs. \<forall>cids k. prefix_ids (Suc n) cids cs l \<longrightarrow>
      agree r (L a t) (k (Suc n + l)) (run_script (S cids a k) (t\<lparr>db_random := r\<rparr>))"
  shows "\<exists>cs. \<forall>cids k. prefix_ids n cids cs (Suc l) \<longrightarrow>
    agree r (bindE W (\<lambda>a. bindE (serverChangeID env) (\<lambda>cid.
        bindE (insertEvent env cid EntityBook u a dev opn p StatusDone) (\<lambda>_. L a))) s) (k (Suc (n + l)))
      (run_script (Send q (\<lambda>a. Send (InsertEvent (event_at env (cids n) EntityBook u (number a) dev opn p StatusDone))
        (\<lambda>_. S cids (number a) k))) (s\<lparr>db_random := r\<rparr>))"
proof (rule logged_write [where W = W and s = s and env = env and ty = EntityBook and
      i = u and dev = dev and opn = opn and p = p and r = r, OF assms(1,2)])
  fix cid res t
  assume t: "db_faults t = []"
    "\<And>K :: int \<Rightarrow> int \<Rightarrow> (pg, int) op. bindE W (\<lambda>n. bindE (serverChangeID env) (\<lambda>cid.
       bindE (insertEvent env cid EntityBook u n dev opn p StatusDone) (K n))) s =
       (case res of Inl e \<Rightarrow> (Inl e, t) | Inr (n, m) \<Rightarrow> K n m t)"
    "\<And>k :: int \<Rightarrow> int \<Rightarrow> 'a script. run_script (Send q
       (\<lambda>a. Send (InsertEvent (event_at env cid EntityBook u (number a) dev opn p StatusDone))
         (\<lambda>b. k (number a) (number b)))) (s\<lparr>db_random := r\<rparr>) =
       (case res of Inl e \<Rightarrow> (Inl e, t\<lparr>db_random := r\<rparr>) | Inr (n, m) \<Rightarrow> run_script (k n m) (t\<lparr>db_random := r\<rparr>))"
  note pg = t(2) [of "\<lambda>a _. L a"] and sc = t(3) [of "\<lambda>a _. S cids a k" for cids k]
  obtain cs where cs: "\<And>cids k. prefix_ids (Suc n) cids cs l \<Longrightarrow>
      (case res of Inl e \<Rightarrow> True
       | Inr (a, m) \<Rightarrow> agree r (L a t) (k (Suc n + l)) (run_script (S cids a k) (t\<lparr>db_random := r\<rparr>)))"
    using assms(3) [OF t(1)] by (cases res) (simp, fastforce)
  show ?thesis
  proof (intro exI [of _ "case_nat cid cs"] allI impI)
    fix cids k assume "prefix_ids n cids (case_nat cid cs) (Suc l)"
    then have "cids n = cid" "prefix_ids (Suc n) cids cs l" by (simp_all add: prefix_ids_Suc)
    with cs [of cids k] t(1)
    show "agree r (bindE W (\<lambda>a. bindE (serverChangeID env) (\<lambda>cid.
        bindE (insertEvent env cid EntityBook u a dev opn p StatusDone) (\<lambda>_. L a))) s) (k (Suc (n + l)))
      (run_script (Send q (\<lambda>a. Send (InsertEvent (event_at env (cids n) EntityBook u (number a) dev opn p StatusDone))
        (\<lambda>_. S cids (number a) k))) (s\<lparr>db_random := r\<rparr>))"
      by (simp only: pg sc) (auto simp: agree_def split: sum.split)
  qed
qed

lemma items_alone:
  assumes "db_faults s = []"
  shows "\<exists>cs. \<forall>cids k. prefix_ids n cids cs (length items) \<longrightarrow>
    agree r (pg_restore_items env dev items mx s) (k (n + length items))
      (run_script (items_script env dev cids n items mx k) (s\<lparr>db_random := r\<rparr>))"
  using assms
proof (induction items arbitrary: s n mx)
  case (Cons item items)
  let ?mx = "\<lambda>a. if a > mx then a else mx"
  show ?case
    unfolding list.size items_script.simps pg_restore_items.simps add_0_right add_Suc_right One_nat_def
    by (rule logged_step [where L = "\<lambda>a. pg_restore_items env dev items (?mx a)" and
        S = "\<lambda>cids a k. items_script env dev cids (Suc n) items (?mx a) k"])
      (rule Cons.prems numbered_writes(1) [OF Cons.prems] Cons.IH, assumption?)+
qed (simp add: agree_def)

lemma deletes_alone:
  assumes "db_faults s = []"
  shows "\<exists>cs. \<forall>cids k. prefix_ids n cids cs (length us) \<longrightarrow>
    agree r (pg_restore_deletes env dev us mx s) (k (n + length us))
      (run_script (deletes_script env dev cids n us mx (k (n + length us))) (s\<lparr>db_random := r\<rparr>))"
  using assms
proof (induction us arbitrary: s n mx)
  case (Cons u us)
  let ?mx = "\<lambda>a. if a > mx then a else mx"
  note ih = Cons.IH [of _ "Suc n", unfolded add_Suc]
  show ?case
    unfolding list.size deletes_script.simps pg_restore_deletes.simps add_0_right add_Suc_right One_nat_def
    by (rule logged_step [where L = "\<lambda>a. pg_restore_deletes env dev us (?mx a)" and
        S = "\<lambda>cids a k. deletes_script env dev cids (Suc n) us (?mx a) (k (Suc (n + length us)))"])
      (rule Cons.prems numbered_writes(2) [OF Cons.prems] | simp only: add_Suc ih)+
qed (simp add: agree_def)

lemma restore_script_alone:
  assumes "db_faults s = []"
  obtains cids where "run_script (restore_script env p dev cids) (s\<lparr>db_random := r\<rparr>) =
    apsnd (db_random_update (\<lambda>_. r)) (pg_restore_tx env p dev s)"
proof (cases "json_Unmarshal dec_items None p")
  case (Pair items ok)
  let ?its = "slice_list items"
  let ?us = "pe_iter env (filter (\<lambda>u. u \<notin> set (map it_UUID ?its)) (live_rows s))"
  let ?fin = "\<lambda>m. commit_script \<lparr>rr_Restored = int (length ?its), rr_Revision = m\<rparr>"
  let ?i = "pg_restore_items env dev ?its 0 s"
  obtain cs where items: "\<And>cids (k :: nat \<Rightarrow> int \<Rightarrow> restore_result script). prefix_ids 0 cids cs (length ?its) \<Longrightarrow>
      agree r ?i (k (length ?its)) (run_script (items_script env dev cids 0 ?its 0 k) (s\<lparr>db_random := r\<rparr>))"
    using items_alone [OF assms, of 0 ?its r env dev 0] by auto
  have "prefix_ids 0 cs cs (length ?its)" by (simp add: prefix_ids_def)
  from items [OF this, of "\<lambda>n m. commit_script undefined"] have f: "db_faults (snd ?i) = []"
    by (simp add: agree_def)
  obtain ds where deletes: "\<And>m cids (k :: int \<Rightarrow> restore_result script). fst ?i = Inr m \<Longrightarrow> prefix_ids (length ?its) cids ds (length ?us) \<Longrightarrow>
      agree r (pg_restore_deletes env dev ?us m (snd ?i)) k
        (run_script (deletes_script env dev cids (length ?its) ?us m k) ((snd ?i)\<lparr>db_random := r\<rparr>))"
    using deletes_alone [OF f, of "length ?its" ?us r env dev "projr (fst ?i)"] by fastforce
  define cids where "cids j = (if j < length ?its then cs j else ds (j - length ?its))" for j
  have "prefix_ids 0 cids cs (length ?its)" "prefix_ids (length ?its) cids ds (length ?us)"
    by (simp_all add: prefix_ids_def cids_def)
  note run = items [OF this(1), of "\<lambda>n m. deletes_script env dev cids n ?us m ?fin"] deletes [OF _ this(2), of _ ?fin]
  show thesis
  proof (rule that [of cids])
    show "run_script (restore_script env p dev cids) (s\<lparr>db_random := r\<rparr>) =
      apsnd (db_random_update (\<lambda>_. r)) (pg_restore_tx env p dev s)"
      using run assms
      by (cases ?i) (auto simp: restore_script_def pg_restore_tx_def Pair Let_def bindE_def exec_sql_def query_def
          agree_def run_commit commitOutcome_def ret_def throw_def split: sum.splits prod.splits)
  qed
qed

section \<open>Requests\<close>

lemma tx_answer_map [simp]: "tx_answer (map_end f r) = map_sum id f (tx_answer r)"
  by (auto simp: tx_answer_def map_end_def split: sum.split tx_end.split)

lemma tx_database_map [simp]: "tx_database (map_end f r) = tx_database r"
  by (auto simp: tx_database_def map_end_def fun_eq_iff split: sum.split tx_end.split)

lemma tx_database_random:
  "tx_database r s (t\<lparr>db_random := db_random s\<rparr>) = (tx_database r s t)\<lparr>db_random := db_random s\<rparr>"
  by (auto simp: tx_database_def rollback_def split: sum.split tx_end.split)

lemma script_random: "db_random (snd (run_script sc s)) = db_random s"
proof (induction sc arbitrary: s)
  case (Send q k)
  have "db_random (draw q s) = db_random s" by (cases q) simp_all
  then have "db_random (snd (exec_sql q s)) = db_random s" by (auto simp: exec_sql_def split: sum.split)
  with Send show ?case by (auto simp: bindE_def split: prod.split sum.split)
qed simp

lemma random_keep: "s\<lparr>db_random := db_random s\<rparr> = s"
  by simp

text \<open>
  The request begins, takes all its steps and ends with the given answer and database; the random source is
  left as it was.
\<close>

definition ends_with :: "pg_env \<Rightarrow> tx_request \<Rightarrow> overlap \<Rightarrow> (error + tx_result) \<times> pg \<Rightarrow> bool" where
  "ends_with env req s p \<longleftrightarrow> (\<exists>n t. (tx_next (length (ov_txns s)) ^^ n) (tx_begin env req s) =
      \<lparr>ov_db = (snd p)\<lparr>db_random := db_random (ov_db s)\<rparr>, ov_txns = ov_txns s @ [t]\<rparr> \<and> tn_result t = Some (fst p))"

lemma request_alone:
  assumes "ov_reach s" "\<forall>t\<in>set (ov_txns s). tn_result t \<noteq> None"
    and "request_script env req = map_script f sc"
    and "run_script sc (ov_db s) = apsnd (db_random_update (\<lambda>_. db_random (ov_db s))) (body (ov_db s))"
  shows "ends_with env req s (apfst (map_sum id f) (in_tx be body (ov_db s)))"
proof -
  let ?s = "tx_begin env req s" and ?i = "length (ov_txns s)" and ?db = "ov_db s"
  note inv = ov_reach_inv [OF assms(1)]
  note faults = ov_inv_faults [OF inv]
  have "tn_locks (ov_txns s ! j) = []" if "j < ?i" for j
    using ov_inv_nth [OF inv that] assms(2) nth_mem [OF that]
    by (cases "tn_result (ov_txns s ! j)") (auto simp: txn_ok_def)
  then have free: "\<not> held_by_other ?i u ?s" for u
    by (auto simp: held_by_other_def tx_begin_def nth_append new_txn_def)
  obtain r db where body: "body ?db = (r, db)" by fastforce
  with assms(4) have run: "run_script sc ?db = (r, db\<lparr>db_random := db_random ?db\<rparr>)" by simp
  then have "db_faults db = []" using script_faults [of sc ?db] faults by simp
  then have tx: "in_tx be body ?db = (tx_answer r, tx_database r ?db db)"
    using in_tx_run [OF faults, where body = body] body by simp
  have "run_script (map_script f sc) (tx_view ?s (ov_txns ?s ! ?i)) = (map_end f r, db\<lparr>db_random := db_random ?db\<rparr>)"
    using run by (simp add: tx_view_def tx_begin_def new_txn_def run_map_script)
  from script_alone [OF _ _ free this] assms(3) obtain n t where
    "(tx_next ?i ^^ n) ?s = s\<lparr>ov_db := tx_database r ?db (db\<lparr>db_random := db_random ?db\<rparr>), ov_txns := ov_txns s @ [t]\<rparr>"
    "tn_result t = Some (map_sum id f (tx_answer r))"
    by (auto simp: tx_open_def tx_begin_def new_txn_def set_txn_def)
  with tx show ?thesis
    unfolding ends_with_def by (intro exI [of _ n] exI [of _ t]) (cases s, simp add: tx_database_random)
qed

lemma same_random:
  "run_script sc s = body s \<Longrightarrow> run_script sc s = apsnd (db_random_update (\<lambda>_. db_random s)) (body s)"
  using script_random [of sc s] by (cases "body s") simp

end
