(* ===== verification/OverlapDevice.thy ===== *)
theory OverlapDevice
  imports OverlapReach
begin

text \<open>
  A device that pulls while transactions overlap: events that are drawn after a moment have higher
  identifiers than all that were drawn before, and what a log makes of one entry depends on that entry only.
\<close>

section \<open>Steps\<close>

lemma tx_send_cases:
  assumes "tx_send i s = Some s'"
  obtains (failed) q k e where "tx_open i s" "tn_script (ov_txns s ! i) = Send q k"
      "s' = set_txn i (close_txn (Inl e) (ov_txns s ! i)) (s\<lparr>ov_db := draw q (ov_db s)\<rparr>)"
    | (sent) q k a ws l where "tx_open i s" "tn_script (ov_txns s ! i) = Send q k"
      "reply q (tx_view s (ov_txns s ! i)) = Inr (a, ws)"
      "s' = set_txn i ((ov_txns s ! i)\<lparr>tn_script := k a, tn_writes := tn_writes (ov_txns s ! i) @ ws, tn_locks := l\<rparr>)
        (s\<lparr>ov_db := draw q (ov_db s)\<rparr>)"
proof -
  from assms obtain q k where sc: "tx_open i s" "tn_script (ov_txns s ! i) = Send q k"
    by (auto simp: tx_send_def Let_def split: if_splits script.splits)
  show ?thesis
  proof (cases "reply q (tx_view s (ov_txns s ! i))")
    case (Inl e)
    with assms sc failed [OF sc, of e] show ?thesis
      by (auto simp: tx_send_def Let_def split: if_splits option.splits)
  next
    case (Inr r)
    obtain a ws where "r = (a, ws)" by fastforce
    with Inr assms sc sent [OF sc, of a ws] show ?thesis
      by (auto simp: tx_send_def Let_def split: if_splits option.splits)
  qed
qed

lemma tx_finish_cases:
  assumes "tx_finish i s = Some s'"
  obtains (plain) r where "tx_open i s" "s' = set_txn i (close_txn r (ov_txns s ! i)) s"
    | (commit) r where "tx_open i s"
      "s' = set_txn i (close_txn r (ov_txns s ! i)) (s\<lparr>ov_db := tx_view s (ov_txns s ! i)\<rparr>)"
  using assms by (auto simp: tx_finish_def Let_def split: if_splits script.splits sum.splits tx_end.splits)

lemma set_txn_subset: "set (ov_txns (set_txn i t s)) \<subseteq> insert t (set (ov_txns s))"
  by (simp add: set_txn_def set_update_subset_insert)

section \<open>Fresh events\<close>

text \<open>\<open>evs\<close> were all events when the sequence stood at \<open>n\<close>.\<close>

definition fresh :: "int \<Rightarrow> event_row list \<Rightarrow> overlap \<Rightarrow> bool" where
  "fresh n evs s \<longleftrightarrow> n \<le> db_event_seq (ov_db s) \<and>
     (\<exists>new. db_sync_events (ov_db s) = evs @ new \<and> (\<forall>e\<in>set new. n < vr_id e)) \<and>
     (\<forall>t\<in>set (ov_txns s). \<forall>e\<in>set (added_events (tn_writes t)). n < vr_id e)"

lemma fresh_set:
  assumes "fresh n evs s" "db_event_seq (ov_db s) \<le> db_event_seq db" "db_sync_events db = db_sync_events (ov_db s) @ es"
    and "\<forall>e\<in>set es. n < vr_id e" "\<forall>e\<in>set (added_events (tn_writes t)). n < vr_id e"
  shows "fresh n evs (set_txn i t (s\<lparr>ov_db := db\<rparr>))"
proof -
  have "\<forall>t'\<in>set (ov_txns (set_txn i t (s\<lparr>ov_db := db\<rparr>))). \<forall>e\<in>set (added_events (tn_writes t')). n < vr_id e"
    using assms(1,5) set_txn_subset [of i t "s\<lparr>ov_db := db\<rparr>"] unfolding fresh_def by auto
  with assms(1-4) show ?thesis unfolding fresh_def by (auto simp: set_txn_def)
qed

lemma fresh_nth:
  "fresh n evs s \<Longrightarrow> i < length (ov_txns s) \<Longrightarrow> \<forall>e\<in>set (added_events (tn_writes (ov_txns s ! i))). n < vr_id e"
  using nth_mem unfolding fresh_def by blast

lemma fresh_same:
  assumes "fresh n evs s" "same_rows (ov_db s) db"
  shows "fresh n evs (s\<lparr>ov_db := db\<rparr>)"
  using assms by (auto simp: fresh_def same_rows_def)

lemma fresh_send:
  assumes "tx_send i s = Some s'" "ov_inv s" "fresh n evs s"
  shows "fresh n evs s'"
  using assms(1)
proof (cases rule: tx_send_cases)
  case (failed q k e)
  then show ?thesis
    using same_rows_draw [of "ov_db s" q] fresh_set [OF assms(3), of "draw q (ov_db s)" "[]"]
    by (simp add: same_rows_def)
next
  case (sent q k a ws l)
  let ?t = "ov_txns s ! i"
  have i: "i < length (ov_txns s)" using sent(1) by (simp add: tx_open_def)
  then have old: "\<forall>e\<in>set (added_events (tn_writes ?t)). n < vr_id e" "n \<le> db_event_seq (ov_db s)"
    using assms(3) fresh_nth by (blast, simp add: fresh_def)
  obtain rows where "open_ok (ov_db s) ?t rows"
    using ov_inv_nth [OF assms(2) i] sent(1) by (auto simp: txn_ok_def tx_open_def)
  then have "vr_id e = db_event_seq (ov_db s) + 1" if "e \<in> set (added_events ws)" for e
    using reply_writes(2) [OF sent(3)] sent(2) that by (auto simp: open_ok_def sql_fits_def tx_view_def)
  with old sent(4) show ?thesis
    using same_rows_draw [of "ov_db s" q] by (auto simp: same_rows_def intro!: fresh_set [OF assms(3), of _ "[]"])
qed

lemma fresh_finish:
  assumes "tx_finish i s = Some s'" "fresh n evs s"
  shows "fresh n evs s'"
  using assms(1)
proof (cases rule: tx_finish_cases)
  case (plain r)
  with fresh_set [OF assms(2), of "ov_db s" "[]" "close_txn r (ov_txns s ! i)"] show ?thesis by simp
next
  case (commit r)
  then have "\<forall>e\<in>set (added_events (tn_writes (ov_txns s ! i))). n < vr_id e"
    using fresh_nth [OF assms(2), of i] by (simp add: tx_open_def)
  with commit fresh_set [OF assms(2), of "tx_view s (ov_txns s ! i)" "added_events (tn_writes (ov_txns s ! i))"
      "close_txn r (ov_txns s ! i)"]
  show ?thesis by (simp add: tx_view_def)
qed

lemma fresh_step: "ov_step s t \<Longrightarrow> ov_inv s \<Longrightarrow> fresh n evs s \<Longrightarrow> fresh n evs t"
proof (induction rule: ov_step.induct)
  case (ov_begin env req s)
  then show ?case by (auto simp: fresh_def tx_begin_def new_txn_def)
next
  case (ov_send i s t)
  then show ?case using fresh_send by blast
next
  case (ov_finish i s t)
  then show ?case using fresh_finish by blast
next
  case (ov_abort s i)
  then show ?case
    using fresh_set [of n evs s "ov_db s" "[]" "close_txn (Inl ErrDatabase) (ov_txns s ! i)" i] by (simp add: tx_abort_def)
qed (rule fresh_same; simp add: same_rows_statements ov_inv_faults)+

text \<open>No open transaction has drawn an identifier.\<close>

definition quiet :: "overlap \<Rightarrow> bool" where
  "quiet s \<longleftrightarrow> (\<forall>t\<in>set (ov_txns s). added_events (tn_writes t) = [])"

lemma fresh_steps:
  assumes "ov_step\<^sup>*\<^sup>* s t" "ov_reach s" "quiet s"
  shows "ov_reach t \<and> fresh (db_event_seq (ov_db s)) (db_sync_events (ov_db s)) t"
  using assms(1)
proof (induction rule: rtranclp_induct)
  case base
  then show ?case using assms(2,3) by (simp add: fresh_def quiet_def)
next
  case (step t u)
  then show ?case using ov_next fresh_step [OF _ ov_reach_inv] by blast
qed

section \<open>The log, entry by entry\<close>

text \<open>What a log makes of one place depends on the events of that place only.\<close>

lemma fold_at:
  assumes "\<And>e m m'. m k = m' k \<Longrightarrow> f e m k = f e m' k" "\<And>e m. \<not> P e \<Longrightarrow> f e m k = m k"
  shows "m k = m' k \<Longrightarrow> fold f es m k = fold f (filter P es) m' k"
proof (induction es arbitrary: m m')
  case (Cons e es)
  show ?case
  proof (cases "P e")
    case True
    from Cons.prems have "f e m k = f e m' k" by (rule assms(1))
    with Cons.IH True show ?thesis by simp
  next
    case False
    with assms(2) Cons.prems have "f e m k = m' k" by simp
    with Cons.IH False show ?thesis by simp
  qed
qed simp

definition of_key :: "row_key \<Rightarrow> sync_event \<Rightarrow> bool" where
  "of_key k e \<longleftrightarrow> (if is_book_event e then BookKey (ev_EntityID e) else EntityKey (ev_EntityType e) (ev_EntityID e)) = k"

lemma of_key_row [simp]: "of_key k (row_event e) \<longleftrightarrow> key_of e = k"
  by (simp add: of_key_def key_of_def is_book_event_def row_event_def)

lemma content_at_key:
  "fold apply_content es m u = fold apply_content (filter (of_key (BookKey u)) es) m u"
  by (rule fold_at) (auto simp: apply_content_def of_key_def)

lemma entity_at_key:
  "fold apply_entity es m (t, i) = fold apply_entity (filter (of_key (EntityKey t i)) es) m (t, i)"
  by (rule fold_at) (auto simp: apply_entity_def of_key_def)

lemma sort_filter_key:
  assumes "ov_db_ok db" "\<And>e. P e \<Longrightarrow> key_of e = k"
  shows "filter P (sort_key vr_id (filter Q (db_sync_events db))) = filter P (filter Q (db_sync_events db))"
proof -
  let ?P = "\<lambda>e. P e \<and> Q e"
  have "sorted_wrt (\<lambda>x y. vr_id x < vr_id y) (filter ?P (filter (\<lambda>e. key_of e = k) (db_sync_events db)))"
    by (rule sorted_wrt_filter) (use assms(1) in \<open>simp add: ov_db_ok_def sorted_wrt_map\<close>)
  moreover have "filter ?P (filter (\<lambda>e. key_of e = k) (db_sync_events db)) = filter P (filter Q (db_sync_events db))"
    using assms(2) by (auto intro: filter_cong)
  ultimately have "sorted_wrt (\<lambda>x y. vr_id x < vr_id y) (filter P (filter Q (db_sync_events db)))" by simp
  then have "sorted (map vr_id (filter P (filter Q (db_sync_events db))))"
    by (auto simp: sorted_map elim: sorted_wrt_mono_rel [rotated])
  then show ?thesis by (simp only: filter_sort sort_key_id_if_sorted)
qed

lemma filter_row_events: "filter P (map row_event es) = map row_event (filter (\<lambda>e. P (row_event e)) es)"
  by (simp add: filter_map comp_def)

lemma pull_rows:
  assumes "ov_db_ok db" "pg_ListAfterCursor c limit db = (Inr (es, False), t)"
  shows "es = map row_event (sort_key vr_id (filter (selectable c) (db_sync_events db)))"
  using assms by (auto simp: pg_ListAfterCursor_def Let_def wrapE_def bindE_def ret_def throw_def ov_db_ok_def
      split: if_splits)

lemma selectable_deliverable: "selectable c e \<longleftrightarrow> c < vr_id e \<and> pg_deliverable e"
  by (auto simp: selectable_def pg_deliverable_def)

lemma pull_key:
  assumes "ov_db_ok db" "pg_ListAfterCursor c limit db = (Inr (es, False), t)" "\<And>e. P e \<Longrightarrow> of_key k e"
  shows "filter P es = filter P (filter (\<lambda>e. c < ev_ID e) (pg_log db))"
proof -
  have "filter P es = map row_event (filter (\<lambda>e. P (row_event e)) (filter (selectable c) (db_sync_events db)))"
    unfolding pull_rows [OF assms(1,2)] filter_row_events
    by (rule arg_cong [where f = "map row_event"], rule sort_filter_key [OF assms(1)]) (use assms(3) of_key_row in blast)
  moreover have "filter (selectable c) (db_sync_events db) =
      filter (\<lambda>e. c < ev_ID (row_event e)) (filter pg_deliverable (db_sync_events db))"
    by (auto simp: selectable_deliverable row_event_def intro: filter_cong)
  ultimately show ?thesis by (simp only: pg_log_def filter_row_events)
qed

lemma pull_first:
  assumes "ov_db_ok db" "pg_ListAfterCursor 0 limit db = (Inr (es, False), t)" "\<And>e. P e \<Longrightarrow> of_key k e"
  shows "filter P es = filter P (pg_log db)"
proof -
  have "filter (\<lambda>e. 0 < ev_ID e) (pg_log db) = pg_log db"
    using assms(1) by (auto simp: filter_id_conv pg_log_def row_event_def ov_db_ok_def event_ids_def)
  with pull_key [OF assms] show ?thesis by simp
qed

lemma log_revisions:
  assumes "pg_data_ok db"
  shows "map ev_Revision (filter (\<lambda>e. is_book_event e \<and> ev_EntityID e = u \<and> ev_Op e \<noteq> OpProgress) (pg_log db)) =
      upto_ids (nat (pg_book_rev u db))"
    and "map ev_Revision (filter (\<lambda>e. \<not> is_book_event e \<and> ev_EntityType e = ty \<and> ev_EntityID e = i) (pg_log db)) =
      upto_ids (nat (pg_entity_rev (ty, i) db))"
proof -
  have fin: "vr_status e = StatusDone \<or> vr_status e = StatusConflict" if "e \<in> set (db_sync_events db)" for e
    using assms that by (auto simp: pg_data_ok_def pg_status_ok_def)
  have del: "pg_deliverable e \<longleftrightarrow> vr_status e = StatusDone" if "e \<in> set (db_sync_events db)" for e
    using fin [OF that] by (auto simp: pg_deliverable_def const_distinct)
  have "filter (\<lambda>e. is_book_event (row_event e) \<and> ev_EntityID (row_event e) = u \<and> ev_Op (row_event e) \<noteq> OpProgress)
      (filter pg_deliverable (db_sync_events db)) = filter (writes_book u) (db_sync_events db)"
    using del by (auto simp: writes_book_def row_event_def is_book_event_def intro: filter_cong)
  then show "map ev_Revision (filter (\<lambda>e. is_book_event e \<and> ev_EntityID e = u \<and> ev_Op e \<noteq> OpProgress) (pg_log db)) =
      upto_ids (nat (pg_book_rev u db))"
    using assms by (simp add: pg_log_def filter_row_events comp_def pg_data_ok_def pg_log_ok_def row_event_def)
  have "filter (\<lambda>e. \<not> is_book_event (row_event e) \<and> ev_EntityType (row_event e) = ty \<and> ev_EntityID (row_event e) = i)
      (filter pg_deliverable (db_sync_events db)) = filter (writes_entity (ty, i)) (db_sync_events db)"
    using del by (auto simp: writes_entity_def row_event_def is_book_event_def intro: filter_cong)
  moreover have "map vr_revision (filter (writes_entity (ty, i)) (db_sync_events db)) =
      upto_ids (nat (pg_entity_rev (ty, i) db))"
  proof (cases "ty = EntityBook")
    case True
    with assms have "pg_entity_rev (ty, i) db = 0" by (simp add: pg_data_ok_def pg_log_ok_def pg_entity_rev_def)
    with True show ?thesis by (auto simp: writes_entity_def)
  qed (use assms in \<open>simp add: pg_data_ok_def pg_log_ok_def\<close>)
  ultimately show "map ev_Revision (filter (\<lambda>e. \<not> is_book_event e \<and> ev_EntityType e = ty \<and> ev_EntityID e = i) (pg_log db)) =
      upto_ids (nat (pg_entity_rev (ty, i) db))"
    by (simp add: pg_log_def filter_row_events comp_def row_event_def)
qed

section \<open>Devices\<close>

text \<open>
  A device with the books \<open>m\<close> and the entities \<open>n\<close> and the cursor \<open>c\<close> is in step with the server: it has
  all that is committed, and its cursor is past it.
\<close>

definition in_step :: "overlap \<Rightarrow> int \<Rightarrow> (string \<rightharpoonup> book_payload) \<Rightarrow> (string \<times> string \<rightharpoonup> raw) \<Rightarrow> bool" where
  "in_step s c m n \<longleftrightarrow> m = pg_library (ov_db s) \<and> n = pg_entities (ov_db s) \<and>
     (\<forall>e\<in>set (pg_log (ov_db s)). ev_ID e \<le> c) \<and> c \<le> db_event_seq (ov_db s)"

definition next_cursor :: "int \<Rightarrow> sync_event list \<Rightarrow> int" where
  "next_cursor c es = (if es = [] then c else ev_ID (last es))"

text \<open>The pull of a device that was in step returns what was logged since, and the last event has the highest identifier.\<close>

lemma pull_since:
  assumes "fresh n evs t" "c \<le> n" "\<forall>e\<in>set evs. pg_deliverable e \<longrightarrow> vr_id e \<le> c"
  shows "pg_log (ov_db t) = map row_event (filter pg_deliverable evs) @ filter (\<lambda>e. c < ev_ID e) (pg_log (ov_db t))"
proof -
  obtain new where new: "db_sync_events (ov_db t) = evs @ new" "\<forall>e\<in>set new. n < vr_id e"
    using assms(1) by (auto simp: fresh_def)
  have "filter (\<lambda>e. c < vr_id e) (filter pg_deliverable evs) = []" using assms(3) by (auto simp: filter_empty_conv)
  moreover have "filter (\<lambda>e. c < vr_id e) (filter pg_deliverable new) = filter pg_deliverable new"
    using new(2) assms(2) by (intro filter_True) fastforce
  ultimately show ?thesis by (simp add: pg_log_def new(1) filter_row_events row_event_def)
qed

lemma pull_last:
  assumes "ov_db_ok db" "pg_ListAfterCursor c limit db = (Inr (es, False), t)"
    and "\<forall>e\<in>set (pg_log db). ev_ID e \<le> c \<or> e \<in> set es"
  shows "\<forall>e\<in>set (pg_log db). ev_ID e \<le> next_cursor c es"
    and "c \<le> db_event_seq db \<Longrightarrow> next_cursor c es \<le> db_event_seq db"
proof -
  let ?rows = "sort_key vr_id (filter (selectable c) (db_sync_events db))"
  have es: "es = map row_event ?rows" by (rule pull_rows [OF assms(1,2)])
  have id: "ev_ID (row_event e) = vr_id e" for e by (simp add: row_event_def)
  have "sorted (map ev_ID es)" by (simp add: es comp_def id)
  then have max: "\<forall>e\<in>set es. ev_ID e \<le> ev_ID (last es)"
    by (cases es rule: rev_cases) (auto simp: sorted_append)
  have above: "\<forall>e\<in>set es. c < ev_ID e \<and> ev_ID e \<le> db_event_seq db"
    using assms(1) by (auto simp: es id selectable_deliverable ov_db_ok_def event_ids_def)
  show "\<forall>e\<in>set (pg_log db). ev_ID e \<le> next_cursor c es"
    using assms(3) max above unfolding next_cursor_def by (force dest: last_in_set)
  show "c \<le> db_event_seq db \<Longrightarrow> next_cursor c es \<le> db_event_seq db"
    using above unfolding next_cursor_def by simp
qed

lemma pull_in_step:
  assumes "ov_reach s" "quiet s" "in_step s c m n" "ov_step\<^sup>*\<^sup>* s t"
    and "pg_ListAfterCursor c limit (ov_db t) = (Inr (es, False), d)"
  shows "in_step t (next_cursor c es) (fold apply_content es m) (fold apply_entity es n)"
proof -
  let ?evs = "db_sync_events (ov_db s)" and ?log = "filter (\<lambda>e. c < ev_ID e) (pg_log (ov_db t))"
  from fresh_steps [OF assms(4,1,2)] have "ov_reach t" and
    fresh: "fresh (db_event_seq (ov_db s)) ?evs t" by blast+
  then have t: "ov_db_ok (ov_db t)" using ov_reach_inv ov_inv_db by blast
  have s: "ov_db_ok (ov_db s)" using ov_reach_inv [OF assms(1)] by (rule ov_inv_db)
  have c: "c \<le> db_event_seq (ov_db s)" "\<forall>e\<in>set ?evs. pg_deliverable e \<longrightarrow> vr_id e \<le> c"
    using assms(3) by (auto simp: in_step_def pg_log_def row_event_def)
  have log: "pg_log (ov_db t) = pg_log (ov_db s) @ ?log"
    using pull_since [OF fresh c] by (simp add: pg_log_def)
  have all: "fold apply_content (pg_log db) (\<lambda>_. None) = pg_library db"
    "fold apply_entity (pg_log db) (\<lambda>_. None) = pg_entities db" if "ov_db_ok db" for db
    using that by (simp_all add: ov_db_ok_def pg_data_ok_def pg_log_ok_def)
  note pull = pull_key [OF t assms(5)]
  have "fold apply_content es m = fold apply_content ?log m"
    by (rule ext) (metis content_at_key pull)
  then have lib: "fold apply_content es m = pg_library (ov_db t)"
    using assms(3) all(1) [OF s] all(1) [OF t] log by (metis in_step_def fold_append comp_apply)
  have "fold apply_entity es n = fold apply_entity ?log n"
    by (rule ext) (metis entity_at_key pull surj_pair)
  then have ents: "fold apply_entity es n = pg_entities (ov_db t)"
    using assms(3) all(2) [OF s] all(2) [OF t] log by (metis in_step_def fold_append comp_apply)
  have "e \<in> set es" if "e \<in> set ?log" for e
  proof -
    define k where "k = (if is_book_event e then BookKey (ev_EntityID e) else EntityKey (ev_EntityType e) (ev_EntityID e))"
    have "filter (\<lambda>x. x = e) es = filter (\<lambda>x. x = e) ?log"
      by (rule pull [where k = k]) (simp add: of_key_def k_def)
    then have "set (filter (\<lambda>x. x = e) es) = set (filter (\<lambda>x. x = e) ?log)" by (simp only:)
    with that show ?thesis by auto
  qed
  then have "\<forall>e\<in>set (pg_log (ov_db t)). ev_ID e \<le> c \<or> e \<in> set es" by force
  note last = pull_last [OF t assms(5) this]
  moreover have "c \<le> db_event_seq (ov_db t)" using c(1) fresh by (simp add: fresh_def)
  ultimately show ?thesis using lib ents by (simp add: in_step_def)
qed

lemma ov_reach_steps: "ov_reach s \<Longrightarrow> ov_step\<^sup>*\<^sup>* \<lparr>ov_db = empty_db [], ov_txns = []\<rparr> s"
  by (induction rule: ov_reach.induct) (auto intro: rtranclp.rtrancl_into_rtrancl)

lemma in_step_start:
  "quiet \<lparr>ov_db = empty_db [], ov_txns = []\<rparr>" "in_step \<lparr>ov_db = empty_db [], ov_txns = []\<rparr> 0 (\<lambda>_. None) (\<lambda>_. None)"
  by (simp_all add: quiet_def in_step_def pg_log_def pg_library_def pg_entities_def empty_db_def book_row_of_def fun_eq_iff)

end
