(* ===== verification/OverlapProps.thy ===== *)
theory OverlapProps
  imports OverlapCases OverlapAlone OverlapDevice
begin

text \<open>
  The properties of transactions that overlap: what survives the overlap (the log still tells the library,
  the row locks still exclude, changes of single entries never wait for ever), that a request that meets no
  other is the transaction of \<open>PgSync\<close>, and the three things that do not survive.
\<close>

section \<open>The log\<close>



section \<open>Devices\<close>



section \<open>The lock\<close>

lemma upto_ids_distinct: "distinct (upto_ids n)"
  by (induction n) (auto simp: upto_ids_Suc)

lemma ov_outcome:
  assumes "ov_inv s" "i < length (ov_txns s)" "tn_result (ov_txns s ! i) = Some (Inr (Outcome w))" "written w"
    and "request_key (tn_request (ov_txns s ! i)) = Some k" "request_base (tn_request (ov_txns s ! i)) = Some b"
  obtains e where "e \<in> set (db_sync_events (ov_db s))" "vr_id e = oc_EventID w" "vr_id e \<noteq> 0"
    "writes_at k e" "vr_revision e = b + 1"
proof -
  have "outcome_ok (ov_db s) (tn_request (ov_txns s ! i)) (Outcome w)"
    using ov_inv_nth [OF assms(1,2)] assms(3) by (simp add: txn_ok_def)
  moreover have "\<not> no_write w" using assms(4) by (simp add: written_def no_write_def)
  ultimately obtain e where "e \<in> set (db_sync_events (ov_db s))" "vr_id e = oc_EventID w"
    "writes_at k e" "vr_revision e = oc_Revision w" "oc_Revision w = b + 1"
    using assms(5,6) unfolding outcome_ok_def by auto
  moreover from this(1) have "vr_id e \<noteq> 0"
    using assms(1) by (fastforce simp: ov_inv_def ov_db_ok_def event_ids_def)
  ultimately show ?thesis using that by metis
qed

text \<open>The events that write an entry carry different revisions.\<close>

lemma write_unique:
  assumes "pg_data_ok db" "e \<in> set (db_sync_events db)" "e' \<in> set (db_sync_events db)"
    and "writes_at k e" "writes_at k e'" "vr_revision e = vr_revision e'"
  shows "e = e'"
proof -
  have "\<exists>P n. P e \<and> P e' \<and> map vr_revision (filter P (db_sync_events db)) = upto_ids n"
  proof (cases k)
    case (BookKey u)
    then have "writes_book u e" "writes_book u e'"
      using assms(4,5) by (auto simp: writes_at_def writes_book_def key_of_def split: if_splits)
    with assms(1) show ?thesis unfolding pg_data_ok_def pg_log_ok_def by blast
  next
    case (EntityKey t i)
    then have "writes_entity (t, i) e" "writes_entity (t, i) e'" "fst (t, i) \<noteq> EntityBook"
      using assms(4,5) by (auto simp: writes_at_def writes_entity_def key_of_def split: if_splits)
    with assms(1) show ?thesis unfolding pg_data_ok_def pg_log_ok_def by blast
  qed
  then obtain P n where P: "P e" "P e'" "map vr_revision (filter P (db_sync_events db)) = upto_ids n" by blast
  then have "inj_on vr_revision (set (filter P (db_sync_events db)))"
    using upto_ids_distinct by (metis distinct_map)
  with P assms(2,3,6) show ?thesis by (simp add: inj_on_def)
qed

text \<open>
  C6: Of any number of requests that change one book, or one entity, from the same base revision, whichever
  way their transactions overlap, at most one is told that its change was written.
\<close>

theorem overlap_same_base_excluded:
  assumes "ov_reach s" "i < length (ov_txns s)" "j < length (ov_txns s)" "i \<noteq> j"
    and "request_key (tn_request (ov_txns s ! i)) = Some k" "request_key (tn_request (ov_txns s ! j)) = Some k"
    and "request_base (tn_request (ov_txns s ! i)) = Some b" "request_base (tn_request (ov_txns s ! j)) = Some b"
    and "tn_result (ov_txns s ! i) = Some (Inr (Outcome w))" "tn_result (ov_txns s ! j) = Some (Inr (Outcome w'))"
    and "written w"
  shows "\<not> written w'"
proof
  assume w': "written w'"
  note inv = ov_reach_inv [OF assms(1)]
  let ?es = "db_sync_events (ov_db s)"
  from ov_outcome [OF inv assms(2,9,11,5,7)] obtain e where
    e: "e \<in> set ?es" "vr_id e = oc_EventID w" "vr_id e \<noteq> 0" "writes_at k e" "vr_revision e = b + 1" by metis
  from ov_outcome [OF inv assms(3,10) w' assms(6,8)] obtain e' where
    e': "e' \<in> set ?es" "vr_id e' = oc_EventID w'" "vr_id e' \<noteq> 0" "writes_at k e'" "vr_revision e' = b + 1" by metis
  have "pg_data_ok (ov_db s)" using inv by (simp add: ov_inv_def ov_db_ok_def)
  with e e' have "e = e'" by (intro write_unique) simp_all
  moreover have "result_ids (ov_txns s ! i) \<inter> result_ids (ov_txns s ! j) = {}"
    using ov_inv_pair [OF inv assms(2-4)] by (simp add: pair_ok_def)
  then have "oc_EventID w \<noteq> oc_EventID w'" using e e' assms(9,10) by (auto simp: result_ids_def)
  ultimately show False using e e' by simp
qed

theorem overlap_same_base_excluded_witness:
  "\<exists>t. ov_reach t \<and> tn_result (ov_txns t ! 1) = Some (Inr (Outcome (refused 1))) \<and> \<not> written (refused 1)"
proof -
  let ?q = "ApplyBook (ex_change ''c1'' 0 ''Dune'') ''d1''"
  obtain t where t: "ov_reach t" "length (ov_txns t) = 2" "tn_request (ov_txns t ! 0) = ?q" "tn_request (ov_txns t ! 1) = ?q"
    "tn_result (ov_txns t ! 0) = Some (Inr (Outcome (accepted 1 1)))"
    "tn_result (ov_txns t ! 1) = Some (Inr (Outcome (refused 1)))"
    using ex_replay by metis
  from overlap_same_base_excluded [OF t(1), of 0 1 "BookKey ''b1''" 0 "accepted 1 1" "refused 1"] t show ?thesis
    by (auto simp: accepted_kinds)
qed

section \<open>Deadlock\<close>

lemma tx_can_go:
  assumes "tx_open j s" "\<And>q k x. tn_script (ov_txns s ! j) = Send q k \<Longrightarrow>
      locks_row q (tx_view s (ov_txns s ! j)) = Some x \<Longrightarrow> \<not> held_by_other j x s"
  shows "tx_send j s \<noteq> None \<or> tx_finish j s \<noteq> None"
  using assms by (cases "tn_script (ov_txns s ! j)")
    (auto simp: tx_send_def tx_finish_def Let_def split: tx_end.splits option.splits sum.splits)

text \<open>A change of one entry that has its row does not wait.\<close>

lemma holder_goes:
  assumes "ov_inv s" "j < length (ov_txns s)" "x \<in> set (tn_locks (ov_txns s ! j))"
  shows "tx_open j s" "request_key (tn_request (ov_txns s ! j)) \<noteq> None \<Longrightarrow> tx_send j s \<noteq> None \<or> tx_finish j s \<noteq> None"
proof -
  let ?t = "ov_txns s ! j"
  from ov_inv_nth [OF assms(1,2)] assms(3) show j: "tx_open j s"
    using assms(2) by (auto simp: txn_ok_def tx_open_def split: option.splits)
  then obtain rows where ok: "open_ok (ov_db s) ?t rows"
    using ov_inv_nth [OF assms(1,2)] by (auto simp: txn_ok_def tx_open_def)
  assume "request_key (tn_request ?t) \<noteq> None"
  then obtain k where keys: "request_keys (tn_request ?t) = {k}" by (auto simp: request_keys_def)
  then have k: "k \<in> set (tn_locks ?t)" using ok assms(3) by (auto simp: open_ok_def)
  show "tx_send j s \<noteq> None \<or> tx_finish j s \<noteq> None"
  proof (rule tx_can_go [OF j])
    fix q f y assume "tn_script ?t = Send q f" "locks_row q (tx_view s ?t) = Some y"
    then have "y = k" using ok keys by (auto simp: open_ok_def sql_fits_def dest: locks_row_key)
    with k show "\<not> held_by_other j y s"
      using ov_inv_pair [OF assms(1,2)] unfolding held_by_other_def pair_ok_def by (metis disjoint_iff)
  qed
qed

definition restores :: "overlap \<Rightarrow> nat \<Rightarrow> bool" where
  "restores s i \<longleftrightarrow> tx_open i s \<and> request_key (tn_request (ov_txns s ! i)) = None"

text \<open>
  C38: As long as at most one restore of the library is open, the row locks cannot deadlock: while a
  transaction is open, one of them can go on, with its next statement or its end.
\<close>

theorem overlap_never_deadlocks:
  assumes "ov_reach s" "tx_open i s" "\<And>j k. restores s j \<Longrightarrow> restores s k \<Longrightarrow> j = k"
  shows "\<exists>j. tx_open j s \<and> (tx_send j s \<noteq> None \<or> tx_finish j s \<noteq> None)"
proof -
  note inv = ov_reach_inv [OF assms(1)]
  have held: "\<exists>l x. l \<noteq> j \<and> l < length (ov_txns s) \<and> x \<in> set (tn_locks (ov_txns s ! l))"
    if "tx_open j s" "\<not> (tx_send j s \<noteq> None \<or> tx_finish j s \<noteq> None)" for j
    using tx_can_go [OF that(1)] that(2) unfolding held_by_other_def by metis
  show ?thesis
  proof (rule ccontr)
    assume stuck: "\<not> ?thesis"
    with assms(2) held obtain j x where j: "j < length (ov_txns s)" "x \<in> set (tn_locks (ov_txns s ! j))" by metis
    note hj = holder_goes [OF inv j]
    with stuck have rj: "restores s j" unfolding restores_def by blast
    with stuck held [of j] obtain l y where l: "l \<noteq> j" "l < length (ov_txns s)" "y \<in> set (tn_locks (ov_txns s ! l))"
      by (auto simp: restores_def)
    with holder_goes [OF inv l(2,3)] stuck have "restores s l" unfolding restores_def by blast
    with assms(3) [OF rj] l(1) show False by simp
  qed
qed

theorem overlap_never_deadlocks_witness:
  "\<exists>j. tx_open j (ex_begun ex_other ex_other ''d2'') \<and>
     (tx_send j (ex_begun ex_other ex_other ''d2'') \<noteq> None \<or> tx_finish j (ex_begun ex_other ex_other ''d2'') \<noteq> None)"
proof (rule overlap_never_deadlocks [where i = 0])
  show "ov_reach (ex_begun ex_other ex_other ''d2'')" by (rule ex_begun_reach) simp_all
  fix j k assume "restores (ex_begun ex_other ex_other ''d2'') j"
  then show "j = k" by (auto simp: restores_def tx_open_def ex_begun_def new_txn_def less_Suc_eq)
qed (simp add: tx_open_def new_txn_def)

section \<open>Alone\<close>



section \<open>What does not survive the overlap\<close>

text \<open>
  C8: A pull can miss an event for good.  Two devices create two books; the transaction that drew the
  lower event identifier commits last.  A device that pulled in between has all there was, but its cursor
  is past the identifier of the event that comes after: its next pull is empty, and it does not have the
  library of the server.
\<close>

theorem overlap_pull_misses:
  "\<exists>s t es w. ov_reach s \<and> ov_step\<^sup>*\<^sup>* s t \<and>
     pg_ListAfterCursor 0 500 (ov_db s) = (Inr (es, False), ov_db s) \<and>
     tn_result (ov_txns t ! 0) = Some (Inr (Outcome w)) \<and> written w \<and>
     pg_ListAfterCursor (ev_ID (last es)) 500 (ov_db t) = (Inr ([], False), ov_db t) \<and>
     fold apply_content es (\<lambda>_. None) \<noteq> pg_library (ov_db t)"
proof -
  obtain f g where fg: "payload_columns ex_env (parseBookPayload (ex_payload ''Dune'')) = Some f"
    "payload_columns ex_env (parseBookPayload (ex_payload ''Emma'')) = Some g"
    using ex_payload_columns by blast
  let ?e = "ex_event ex_other ''d2'' 2" and ?t = "schedule [0] ex_gap"
  have e: "vr_id ?e = 2" "vr_status ?e = StatusDone" by (simp_all add: ex_event_def)
  have db: "ov_db ?t = apply_write (AddEvent (ex_event (ex_change ''c1'' 0 ''Dune'') ''d1'' 1))
      (put_book_row ''b1'' (f 1 0) (ov_db ex_gap))" by (simp add: ex_gap_after [OF fg])
  have later: "pg_ListAfterCursor 2 500 (ov_db ?t) = (Inr ([], False), ov_db ?t)"
    unfolding db by (simp add: ex_gap_eq [OF fg] pg_ListAfterCursor_def wrapE_def bindE_def Let_def ret_def
        selectable_def ex_event_def)
  have "pg_library (ov_db ?t) ''b1'' \<noteq> None"
    unfolding db using columns_shape(2) [OF fg(1)] by (simp add: pg_library_def book_row_other)
  moreover have "fold apply_content [row_event ?e] (\<lambda>_. None) ''b1'' = None"
    by (simp add: apply_content_def ex_event_def)
  ultimately have "fold apply_content [row_event ?e] (\<lambda>_. None) \<noteq> pg_library (ov_db ?t)" by metis
  moreover have "tn_result (ov_txns ?t ! 0) = Some (Inr (Outcome (accepted 1 1)))" by (simp add: ex_gap_after [OF fg])
  ultimately show ?thesis
    using ex_gap_reach schedule_steps ex_gap_pull later accepted_kinds(1) [of 1 1] e(1)
    by (intro exI [of _ ex_gap] exI [of _ ?t] exI [of _ "[row_event ?e]"] exI [of _ "accepted 1 1"])
      (simp add: row_event_def)
qed

text \<open>
  C40: A change that is sent twice at the same time can be answered twice with success and conflict: the
  second request has looked for the change before the first committed it, so it is not recognised as a
  duplicate and a conflict of the change with itself is recorded.  Sent one after the other, the second is
  answered as a duplicate.
\<close>

theorem overlap_replay_conflict:
  "\<exists>t w w'. ov_reach t \<and> length (ov_txns t) = 2 \<and>
     tn_request (ov_txns t ! 0) = ApplyBook (ex_change ''c1'' 0 ''Dune'') ''d1'' \<and>
     tn_request (ov_txns t ! 1) = ApplyBook (ex_change ''c1'' 0 ''Dune'') ''d1'' \<and>
     tn_result (ov_txns t ! 0) = Some (Inr (Outcome w)) \<and> written w \<and>
     tn_result (ov_txns t ! 1) = Some (Inr (Outcome w')) \<and> conflicting w' \<and>
     fst (pg_ApplyBookChange ex_env (ex_change ''c1'' 0 ''Dune'') src ''d1'' (ov_db t)) = Inr duplicate_outcome"
proof -
  obtain t where t: "ov_reach t" "length (ov_txns t) = 2"
    "tn_request (ov_txns t ! 0) = ApplyBook (ex_change ''c1'' 0 ''Dune'') ''d1''"
    "tn_request (ov_txns t ! 1) = ApplyBook (ex_change ''c1'' 0 ''Dune'') ''d1''"
    "tn_result (ov_txns t ! 0) = Some (Inr (Outcome (accepted 1 1)))"
    "tn_result (ov_txns t ! 1) = Some (Inr (Outcome (refused 1)))"
    "fst (pg_ApplyBookChange ex_env (ex_change ''c1'' 0 ''Dune'') src ''d1'' (ov_db t)) = Inr duplicate_outcome"
    using ex_replay by metis
  moreover have "written (accepted 1 1)" "conflicting (refused 1)" by (simp_all add: accepted_kinds)
  ultimately show ?thesis by blast
qed

text \<open>
  C39: Two restores of the library can wait for each other for ever.  One restores a snapshot that has the
  first book only, the other one that has the second only; each has locked the row of its book and goes on
  to delete the other's.  No transaction can take a step; PostgreSQL's deadlock detection then fails one of
  them.
\<close>

theorem overlap_restores_deadlock:
  "\<exists>s. ov_reach s \<and> tx_open 2 s \<and> tx_open 3 s \<and>
     tn_request (ov_txns s ! 2) = RestoreBooks (ex_one ''b1'') ''d1'' (\<lambda>_. ''s1'') \<and>
     tn_request (ov_txns s ! 3) = RestoreBooks (ex_one ''b2'') ''d2'' (\<lambda>_. ''s2'') \<and>
     (\<forall>j. tx_send j s = None \<and> tx_finish j s = None)"
  by (rule ex_deadlock)

end
