(* ===== verification/UploadFacts.thy ===== *)
theory UploadFacts
  imports PgRefine
begin

text \<open>
  Upload tasks: the invariant of their two tables over all operations and failures, and what each
  operation does while the database fails no statement.
\<close>

section \<open>Tasks and their files\<close>

definition finished :: "upload_file_row \<Rightarrow> bool" where
  "finished r \<longleftrightarrow> uf_status r = StatusDone"

definition rows_of :: "string \<Rightarrow> pg \<Rightarrow> upload_file_row list" where
  "rows_of u s = db_book_upload_file s u"

definition task_ok :: "upload_row \<Rightarrow> upload_file_row list \<Rightarrow> bool" where
  "task_ok t rows \<longleftrightarrow> ur_total_files t = int (length rows) \<and>
     0 \<le> ur_done_files t \<and> ur_done_files t \<le> int (length (filter finished rows)) \<and>
     distinct (map uf_rel_path rows) \<and> (\<forall>r\<in>set rows. uf_status r \<in> {FilePending, StatusDone}) \<and>
     ur_status t \<in> {UploadUploading, StatusDone, StatusFailed} \<and>
     (ur_status t = StatusDone \<longrightarrow> rows \<noteq> [] \<and> (\<forall>r\<in>set rows. finished r))"

definition uploads_ok :: "pg \<Rightarrow> bool" where
  "uploads_ok s \<longleftrightarrow> (\<forall>u. case db_book_upload s u of
     None \<Rightarrow> rows_of u s = [] | Some t \<Rightarrow> task_ok t (rows_of u s))"

lemma uploads_okD: "uploads_ok s \<Longrightarrow> db_book_upload s u = Some t \<Longrightarrow> task_ok t (rows_of u s)"
  unfolding uploads_ok_def by (drule spec [of _ u]) simp

lemma uploads_ok_none: "uploads_ok s \<Longrightarrow> db_book_upload s u = None \<Longrightarrow> rows_of u s = []"
  unfolding uploads_ok_def by (drule spec [of _ u]) simp

lemma uploads_okI:
  assumes "uploads_ok s" "\<And>v. v \<noteq> u \<Longrightarrow> db_book_upload t v = db_book_upload s v \<and> rows_of v t = rows_of v s"
    and "case db_book_upload t u of None \<Rightarrow> rows_of u t = [] | Some r \<Rightarrow> task_ok r (rows_of u t)"
  shows "uploads_ok t"
  unfolding uploads_ok_def
proof
  fix v
  show "case db_book_upload t v of None \<Rightarrow> rows_of v t = [] | Some r \<Rightarrow> task_ok r (rows_of v t)"
    using assms by (cases "v = u") (simp_all add: uploads_ok_def cong: option.case_cong)
qed

lemma uploads_ok_tables:
  "db_book_upload t = db_book_upload s \<Longrightarrow> db_book_upload_file t = db_book_upload_file s \<Longrightarrow> uploads_ok t = uploads_ok s"
  by (simp add: uploads_ok_def rows_of_def cong: option.case_cong)

lemma uploads_ok_bookkeeping [simp]:
  "uploads_ok (clean s) = uploads_ok s" "uploads_ok (s\<lparr>db_faults := fs\<rparr>) = uploads_ok s"
  "uploads_ok (s\<lparr>db_random := rs\<rparr>) = uploads_ok s"
  by (rule uploads_ok_tables; simp add: clean_def)+

lemma put_task_tables [simp]:
  "db_book_upload (put_task u r s) = (db_book_upload s)(u \<mapsto> r)" "rows_of v (put_task u r s) = rows_of v s"
  "db_book_upload (put_task_files u fs s) = db_book_upload s"
  "rows_of v (put_task_files u fs s) = (if v = u then fs else rows_of v s)"
  "db_faults (put_task u r s) = db_faults s" "db_faults (put_task_files u fs s) = db_faults s"
  by (simp_all add: put_task_def put_task_files_def rows_of_def)

lemma put_task_other [simp]:
  "pg_inv (put_task u r s) = pg_inv s" "pg_inv (put_task_files u fs s) = pg_inv s"
  "pg_library (put_task u r s) = pg_library s" "pg_library (put_task_files u fs s) = pg_library s"
proof -
  have other: "pg_inv s \<Longrightarrow> pg_inv (s\<lparr>db_book_upload := bu, db_book_upload_file := bf\<rparr>)" for s bu bf
    using pg_inv_conflicts [of s] pg_inv_tables [of s] by simp
  show "pg_inv (put_task u r s) = pg_inv s"
  proof
    assume "pg_inv (put_task u r s)"
    from other [OF this, where bu = "db_book_upload s" and bf = "db_book_upload_file s"] show "pg_inv s" by (simp add: put_task_def)
  next
    assume "pg_inv s"
    from other [OF this, where bu = "(db_book_upload s)(u \<mapsto> r)" and bf = "db_book_upload_file s"] show "pg_inv (put_task u r s)"
      by (simp add: put_task_def)
  qed
  show "pg_inv (put_task_files u fs s) = pg_inv s"
  proof
    assume "pg_inv (put_task_files u fs s)"
    from other [OF this, where bu = "db_book_upload s" and bf = "db_book_upload_file s"] show "pg_inv s" by (simp add: put_task_files_def)
  next
    assume "pg_inv s"
    from other [OF this, where bu = "db_book_upload s" and bf = "(db_book_upload_file s)(u := fs)"] show "pg_inv (put_task_files u fs s)"
      by (simp add: put_task_files_def)
  qed
qed (simp_all add: pg_library_def book_row_of_def put_task_def put_task_files_def fun_eq_iff)

lemma put_task_files_twice [simp]:
  "put_task_files u fs' (put_task_files u fs s) = put_task_files u fs' s"
  by (simp add: put_task_files_def)

section \<open>Creating a task\<close>

definition new_row :: "book_file_meta \<Rightarrow> upload_file_row" where
  "new_row f = \<lparr>uf_rel_path = fm_RelPath f, uf_hash = fm_Hash f, uf_size = fm_Size f, uf_status = FilePending\<rparr>"

lemma insert_files_run:
  assumes "db_faults s = []"
  shows "distinct (map uf_rel_path (rows_of u s) @ map fm_RelPath fs) \<Longrightarrow>
    insert_files u fs pending s = (Inr (pending @ fs), put_task_files u (rows_of u s @ map new_row fs) s)"
  using assms
proof (induction fs arbitrary: s pending)
  case Nil
  then show ?case by (simp add: put_task_files_def rows_of_def)
next
  case (Cons f fs)
  let ?t = "put_task_files u (rows_of u s @ [new_row f]) s"
  have "insert_files u (f # fs) pending s = insert_files u fs (pending @ [f]) ?t"
    using Cons.prems by (auto simp: bindE_def new_row_def rows_of_def)
  also have "\<dots> = (Inr ((pending @ [f]) @ fs), put_task_files u (rows_of u ?t @ map new_row fs) ?t)"
    using Cons.prems by (intro Cons.IH) (auto simp: new_row_def)
  finally show ?case by simp
qed

lemma insert_files_fail:
  assumes "db_faults s = []"
  shows "distinct (map uf_rel_path (rows_of u s)) \<Longrightarrow> insert_files u fs pending s = (Inr p, t) \<Longrightarrow>
    distinct (map uf_rel_path (rows_of u s) @ map fm_RelPath fs)"
  using assms
proof (induction fs arbitrary: s pending)
  case (Cons f fs)
  let ?t = "put_task_files u (rows_of u s @ [new_row f]) s"
  have fresh: "fm_RelPath f \<notin> uf_rel_path ` set (rows_of u s)"
    using Cons.prems by (auto simp: bindE_def rows_of_def split: if_splits)
  with Cons.prems have "insert_files u fs (pending @ [f]) ?t = (Inr p, t)"
    by (auto simp: bindE_def new_row_def rows_of_def split: if_splits)
  from Cons.IH [OF _ this] Cons.prems fresh show ?case by (auto simp: new_row_def)
qed simp

definition created :: "string \<Rightarrow> string \<Rightarrow> string \<Rightarrow> string \<Rightarrow> book_file_meta list \<Rightarrow> pg \<Rightarrow> pg" where
  "created u name v dev fs s =
     put_task_files u (map new_row fs) (put_task u (init_task name (int (length fs)) v dev) s)"

lemma init_tx_run:
  assumes "db_faults s = []"
  shows "init_tx u name v dev files s = (Inr b, t) \<longleftrightarrow>
    distinct (map fm_RelPath (slice_list files)) \<and> t = created u name v dev (slice_list files) s \<and>
    b = Commit (\<lparr>ut_UUID = u, ut_Name = name, ut_Status = UploadUploading,
      ut_TotalFiles = int (length (slice_list files)), ut_DoneFiles = 0, ut_DataVersion = v, ut_DeviceID = dev\<rparr>,
      Some (slice_list files))" (is "?L \<longleftrightarrow> ?R")
proof -
  let ?fs = "slice_list files"
  let ?s = "put_task_files u [] (put_task u (init_task name (int (length ?fs)) v dev) s)"
  have s: "db_faults ?s = []" "rows_of u ?s = []" using assms by simp_all
  have unfold: "init_tx u name v dev files s = bindE (insert_files u ?fs []) (\<lambda>pending. ret (Commit
      (\<lparr>ut_UUID = u, ut_Name = name, ut_Status = UploadUploading, ut_TotalFiles = int (length ?fs),
        ut_DoneFiles = 0, ut_DataVersion = v, ut_DeviceID = dev\<rparr>, Some pending))) ?s"
    using assms by (simp add: init_tx_def Let_def bindE_Inr)
  show ?thesis
  proof
    assume ?L
    then obtain p where "insert_files u ?fs [] ?s = (Inr p, t)"
      unfolding unfold bindE_eq_Inr_iff by auto
    from insert_files_fail [OF s(1) _ this] s(2) have d: "distinct (map fm_RelPath ?fs)" by simp
    with \<open>?L\<close> unfold insert_files_run [OF s(1), of u ?fs "[]"] s(2) show ?R
      by (simp add: bindE_def created_def)
  next
    assume ?R
    with unfold insert_files_run [OF s(1), of u ?fs "[]"] s(2) show ?L
      by (simp add: bindE_def created_def)
  qed
qed

lemma insert_files_clean [clean_ops]: "runs_clean (insert_files u fs pending)"
proof (induction fs arbitrary: pending)
  case (Cons f fs)
  then show ?case
    by (auto intro!: runs_clean_bindE clean_stmtI simp: put_task_files_def)
qed simp

lemma init_tx_clean: "runs_clean (init_tx u name v dev files)"
  unfolding init_tx_def Let_def
  by (intro clean_ops runs_clean_bindE runs_clean_exec insert_files_clean) (simp_all add: put_task_def put_task_files_def)

lemma created_ok:
  assumes "uploads_ok s" "distinct (map fm_RelPath fs)"
  shows "uploads_ok (created u name v dev fs s)"
  using assms(2)
  by (intro uploads_okI [OF assms(1), of u])
    (auto simp: created_def task_ok_def init_task_def comp_def new_row_def)

lemma pg_InitUpload_ok:
  assumes "uploads_ok s"
  shows "uploads_ok (snd (pg_InitUpload u name v dev files s))"
proof -
  have tx: "uploads_ok (snd (in_tx ErrDatabase (init_tx i name v dev files) s))" if "uploads_ok s" for i s
  proof -
    obtain r t where run: "in_tx ErrDatabase (init_tx i name v dev files) s = (r, t)" by (cases "in_tx ErrDatabase (init_tx i name v dev files) s")
    show ?thesis
    proof (cases r)
      case (Inl e)
      with run have "same_data s t" using in_tx_fails by blast
      with run that uploads_ok_tables [of t s] show ?thesis by (simp add: same_data_def)
    next
      case (Inr w)
      with in_tx_commit [OF run [unfolded Inr] init_tx_clean] that
      have "uploads_ok (clean t)" by (auto simp: init_tx_run intro!: created_ok)
      then show ?thesis using run by simp
    qed
  qed
  have "\<exists>r rs. rand_read s = (Inr r, s\<lparr>db_random := rs\<rparr>)"
  proof (cases "db_random s")
    case Nil
    then have "s\<lparr>db_random := []\<rparr> = s" by (cases s) simp
    with Nil have "rand_read s = (Inr None, s\<lparr>db_random := []\<rparr>)" by (simp add: rand_read_def)
    then show ?thesis by blast
  next
    case (Cons r rs)
    then have "rand_read s = (Inr r, s\<lparr>db_random := rs\<rparr>)" by (simp add: rand_read_def)
    then show ?thesis by blast
  qed
  then obtain r rs where "rand_read s = (Inr r, s\<lparr>db_random := rs\<rparr>)" by blast
  then have "newUUID s = (Inr (uuid_of_bytes (read_buffer 16 r)), s\<lparr>db_random := rs\<rparr>)"
    by (simp add: newUUID_def bindE_Inr)
  then show ?thesis using tx assms by (simp add: pg_InitUpload_def bindE_def ret_def)
qed

section \<open>Marking files and finishing\<close>

definition mark_row :: "string \<Rightarrow> upload_file_row \<Rightarrow> upload_file_row" where
  "mark_row h r = (if uf_hash r = h \<and> uf_status r \<noteq> StatusDone then r\<lparr>uf_status := StatusDone\<rparr> else r)"

lemma mark_row_fields [simp]:
  "uf_rel_path (mark_row h r) = uf_rel_path r" "uf_hash (mark_row h r) = uf_hash r"
  "finished (mark_row h r) \<longleftrightarrow> finished r \<or> uf_hash r = h" "row_file (mark_row h r) = row_file r"
  "uf_status r = FilePending \<or> uf_status r = StatusDone \<Longrightarrow>
     uf_status (mark_row h r) = FilePending \<or> uf_status (mark_row h r) = StatusDone"
  by (auto simp: mark_row_def finished_def row_file_def)

lemma mark_rows_eq:
  "map (\<lambda>r. if uf_hash r = h \<and> uf_status r \<noteq> StatusDone then r\<lparr>uf_status := StatusDone\<rparr> else r) rows =
     map (mark_row h) rows"
  by (simp add: mark_row_def)

definition marked :: "string \<Rightarrow> string \<Rightarrow> pg \<Rightarrow> pg" where
  "marked u h s = put_task_files u (map (mark_row h) (rows_of u s)) s"

definition counted :: "string \<Rightarrow> pg \<Rightarrow> pg" where
  "counted u s = (case db_book_upload s u of None \<Rightarrow> s
     | Some t \<Rightarrow> put_task u (t\<lparr>ur_done_files := int (length (filter finished (rows_of u s)))\<rparr>) s)"

lemma more_finished: "length (filter finished rows) \<le> length (filter finished (map (mark_row h) rows))"
  by (induction rows) auto

lemma marked_ok:
  assumes "uploads_ok s"
  shows "uploads_ok (marked u h s)"
proof (rule uploads_okI [OF assms, of u])
  show "case db_book_upload (marked u h s) u of None \<Rightarrow> rows_of u (marked u h s) = []
      | Some r \<Rightarrow> task_ok r (rows_of u (marked u h s))"
  proof (cases "db_book_upload s u")
    case None
    then have "rows_of u s = []" using assms by (rule uploads_ok_none [rotated])
    with None show ?thesis by (simp add: marked_def)
  next
    case (Some t)
    from uploads_okD [OF assms Some] have "task_ok t (map (mark_row h) (rows_of u s))"
      using more_finished [of "rows_of u s" h]
      by (simp add: task_ok_def comp_def)
    with Some show ?thesis by (simp add: marked_def)
  qed
qed (simp_all add: marked_def)

lemma counted_ok:
  assumes "uploads_ok s"
  shows "uploads_ok (counted u s)"
proof (cases "db_book_upload s u")
  case (Some t)
  from uploads_okD [OF assms Some] show ?thesis
    by (intro uploads_okI [OF assms, of u]) (simp_all add: counted_def Some task_ok_def)
qed (simp add: counted_def assms)

lemma status_ok:
  assumes "uploads_ok s" "db_book_upload s u = Some t" "st \<in> {UploadUploading, StatusFailed, StatusDone}"
    and "st = StatusDone \<Longrightarrow> rows_of u s \<noteq> [] \<and> (\<forall>r\<in>set (rows_of u s). finished r)"
  shows "uploads_ok (put_task u (t\<lparr>ur_status := st\<rparr>) s)"
  using assms uploads_okD [OF assms(1,2)]
  by (intro uploads_okI [OF assms(1), of u]) (auto simp: task_ok_def)

lemma pg_MarkFileDone_run:
  "pg_MarkFileDone u h s = bindE (stmt (\<lambda>s. (Inr (length (filter (\<lambda>r. uf_hash r = h \<and> \<not> finished r) (rows_of u s))),
       marked u h s)))
     (\<lambda>n. if n > 0 then exec (counted u) else ret ()) s"
  unfolding pg_MarkFileDone_def Let_def mark_rows_eq marked_def counted_def done_count_def finished_def rows_of_def
  by (rule refl)

lemma exec_ok: "(\<And>s. uploads_ok s \<Longrightarrow> uploads_ok (f s)) \<Longrightarrow> uploads_ok s \<Longrightarrow> uploads_ok (snd (exec f s))"
  unfolding exec_def by (rule stmt_cases [of "\<lambda>s. (Inr (), f s)" s]) simp_all

lemma pg_MarkFileDone_ok:
  assumes "uploads_ok s"
  shows "uploads_ok (snd (pg_MarkFileDone u h s))"
proof -
  let ?m = "\<lambda>s. (Inr (length (filter (\<lambda>r. uf_hash r = h \<and> \<not> finished r) (rows_of u s))), marked u h s)"
  show ?thesis
    unfolding pg_MarkFileDone_run
  proof (rule stmt_cases [of ?m s])
    fix fs assume "stmt ?m s = ?m (s\<lparr>db_faults := fs\<rparr>)"
    moreover have "uploads_ok (marked u h (s\<lparr>db_faults := fs\<rparr>))" using assms by (intro marked_ok) simp
    ultimately show "uploads_ok (snd (bindE (stmt ?m) (\<lambda>n. if n > 0 then exec (counted u) else ret ()) s))"
      by (simp add: bindE_def exec_ok counted_ok)
  qed (use assms in \<open>simp add: bindE_def\<close>)
qed

lemma all_finished_iff:
  assumes "task_ok t rows"
  shows "ur_total_files t \<le> int (length (filter finished rows)) \<and> 0 < ur_total_files t \<longleftrightarrow>
     rows \<noteq> [] \<and> (\<forall>r\<in>set rows. finished r)"
proof -
  have "length (filter finished rows) = length rows \<longleftrightarrow> (\<forall>r\<in>set rows. finished r)"
    by (metis filter_True filter_id_conv length_filter_less less_irrefl)
  moreover have "length (filter finished rows) \<le> length rows" by simp
  moreover have "ur_total_files t = int (length rows)" using assms by (simp add: task_ok_def)
  ultimately show ?thesis by (metis le_antisym length_greater_0_conv of_nat_0_less_iff of_nat_le_iff order_refl)
qed

text \<open>\<open>Complete\<close>: two statements.\<close>

definition all_done :: "string \<Rightarrow> pg \<Rightarrow> bool" where
  "all_done u s \<longleftrightarrow> rows_of u s \<noteq> [] \<and> (\<forall>r\<in>set (rows_of u s). finished r)"

definition set_status :: "string \<Rightarrow> string \<Rightarrow> pg \<Rightarrow> pg" where
  "set_status u st s = (case db_book_upload s u of None \<Rightarrow> s | Some t \<Rightarrow> put_task u (t\<lparr>ur_status := st\<rparr>) s)"

lemma set_status_fields [simp]:
  "db_faults (set_status u st s) = db_faults s" "rows_of v (set_status u st s) = rows_of v s"
  "pg_inv (set_status u st s) = pg_inv s" "pg_library (set_status u st s) = pg_library s"
  "all_done v (set_status u st s) = all_done v s"
  by (simp_all add: set_status_def all_done_def split: option.split)

lemma set_status_ok:
  assumes "uploads_ok s" "st \<in> {UploadUploading, StatusFailed, StatusDone}" "st = StatusDone \<Longrightarrow> all_done u s"
  shows "uploads_ok (set_status u st s)"
  using assms by (cases "db_book_upload s u") (auto simp: set_status_def all_done_def intro!: status_ok)

definition count_query :: "string \<Rightarrow> (pg, int \<times> int) op" where
  "count_query u s = (case db_book_upload s u of
     None \<Rightarrow> (Inl ErrNoRows, s) | Some t \<Rightarrow> (Inr (ur_total_files t, done_count u s), s))"

lemma pg_Complete_eq:
  "pg_Complete u = bindE (stmt (count_query u)) (\<lambda>(tot, n).
     if n \<ge> tot \<and> tot > 0 then bindE (exec (set_status u StatusDone)) (\<lambda>_. ret True) else ret False)"
  unfolding pg_Complete_def count_query_def set_status_def by (rule refl)

lemma done_count_eq: "done_count u s = int (length (filter finished (rows_of u s)))"
  by (simp add: done_count_def finished_def [abs_def] rows_of_def)

lemma count_query_done:
  assumes "uploads_ok s" "count_query u s = (Inr (tot, n), t)"
  shows "t = s \<and> (n \<ge> tot \<and> tot > 0 \<longleftrightarrow> all_done u s)"
proof (cases "db_book_upload s u")
  case (Some r)
  from all_finished_iff [OF uploads_okD [OF assms(1) Some]] assms(2) Some show ?thesis
    by (auto simp: count_query_def done_count_eq all_done_def)
qed (use assms(2) in \<open>simp add: count_query_def\<close>)

lemma pg_Complete_ok:
  assumes "uploads_ok s"
  shows "uploads_ok (snd (pg_Complete u s))"
proof (rule stmt_cases [of "count_query u" s])
  fix fs assume run: "stmt (count_query u) s = count_query u (s\<lparr>db_faults := fs\<rparr>)"
  let ?s = "s\<lparr>db_faults := fs\<rparr>"
  have ok: "uploads_ok ?s" using assms by simp
  show ?thesis
  proof (cases "fst (count_query u ?s)")
    case (Inl e)
    then have "snd (count_query u ?s) = ?s" by (simp add: count_query_def split: option.splits)
    with Inl run ok show ?thesis by (simp add: pg_Complete_eq bindE_def case_prod_beta)
  next
    case (Inr p)
    obtain tot n where p: "p = (tot, n)" by (cases p)
    obtain t where q: "count_query u ?s = (Inr (tot, n), t)" using Inr p by (metis prod.collapse)
    from count_query_done [OF ok q] have t: "t = ?s" "n \<ge> tot \<and> tot > 0 \<longleftrightarrow> all_done u ?s" by simp_all
    have "all_done u ?s \<Longrightarrow> uploads_ok (snd (exec (set_status u StatusDone) ?s))"
      unfolding exec_def by (rule stmt_cases [of "\<lambda>s. (Inr (), set_status u StatusDone s)" ?s])
        (use ok in \<open>auto simp: all_done_def rows_of_def intro!: set_status_ok\<close>)
    then show ?thesis using q run t ok
      by (auto simp: pg_Complete_eq bindE_def split: prod.split sum.split)
  qed
qed (use assms in \<open>simp add: pg_Complete_eq bindE_def\<close>)

lemma pg_MarkFailed_ok:
  assumes "uploads_ok s"
  shows "uploads_ok (snd (pg_MarkFailed u s))"
proof -
  have "pg_MarkFailed u = exec (set_status u StatusFailed)"
    unfolding pg_MarkFailed_def set_status_def by (rule refl)
  moreover have "uploads_ok (snd (exec (set_status u StatusFailed) s))"
    by (rule exec_ok [OF _ assms]) (rule set_status_ok, simp_all)
  ultimately show ?thesis by simp
qed

section \<open>Reachable states\<close>

text \<open>
  One step is one operation on the tasks, with any failures, or anything that leaves the two tables
  alone.
\<close>

inductive upload_step :: "pg \<Rightarrow> pg \<Rightarrow> bool" where
  up_init: "upload_step s (snd (pg_InitUpload u name v dev files s))"
| up_mark: "upload_step s (snd (pg_MarkFileDone u h s))"
| up_complete: "upload_step s (snd (pg_Complete u s))"
| up_failed: "upload_step s (snd (pg_MarkFailed u s))"
| up_other: "db_book_upload t = db_book_upload s \<Longrightarrow> db_book_upload_file t = db_book_upload_file s \<Longrightarrow>
    upload_step s t"

inductive_cases upload_stepE: "upload_step s t"

lemma upload_step_ok: "upload_step s t \<Longrightarrow> uploads_ok s \<Longrightarrow> uploads_ok t"
  by (erule upload_stepE)
    (auto intro: pg_InitUpload_ok pg_MarkFileDone_ok pg_Complete_ok pg_MarkFailed_ok uploads_ok_tables [THEN iffD2])

lemma uploads_ok_init: "uploads_ok (empty_db fs)"
  by (simp add: uploads_ok_def empty_db_def rows_of_def)

lemma upload_steps_ok: "upload_step\<^sup>*\<^sup>* s t \<Longrightarrow> uploads_ok s \<Longrightarrow> uploads_ok t"
  by (induction rule: rtranclp_induct) (auto intro: upload_step_ok)

end
