(* ===== verification/UploadRuns.thy ===== *)
theory UploadRuns
  imports UploadFacts
begin

text \<open>
  What the upload service does on the assembled server, step by step, while the database fails no
  statement and the page orders are kept in memory.
\<close>

section \<open>The tables\<close>

definition task_record :: "string \<Rightarrow> upload_row \<Rightarrow> upload_book_task" where
  "task_record u t = \<lparr>ut_UUID = u, ut_Name = ur_name t, ut_Status = ur_status t, ut_TotalFiles = ur_total_files t,
     ut_DoneFiles = ur_done_files t, ut_DataVersion = ur_data_version t, ut_DeviceID = ur_device_id t\<rparr>"

definition pending_files :: "scan \<Rightarrow> string \<Rightarrow> pg \<Rightarrow> book_file_meta list option" where
  "pending_files scan u s = appended (map row_file (filter (\<lambda>r. \<not> finished r) (scan (rows_of u s))))"

lemma pg_GetTask_run:
  "db_faults s = [] \<Longrightarrow> pg_GetTask scan u s = (case db_book_upload s u of
     None \<Rightarrow> (Inl ErrNoRows, s) | Some t \<Rightarrow> (Inr (task_record u t, pending_files scan u s), s))"
  by (simp add: pg_GetTask_def bindE_def task_record_def pending_files_def finished_def rows_of_def
      split: option.split)

lemma pg_Complete_run:
  assumes "db_faults s = []" "uploads_ok s" "db_book_upload s u = Some t"
  shows "pg_Complete u s = (if all_done u s then (Inr True, set_status u StatusDone s) else (Inr False, s))"
proof -
  have "count_query u s = (Inr (ur_total_files t, done_count u s), s)"
    using assms(3) by (simp add: count_query_def)
  with count_query_done [OF assms(2) this] assms(1) show ?thesis by (simp add: pg_Complete_eq bindE_def)
qed

lemma pg_MarkFileDone_clean:
  assumes "db_faults s = []" "db_book_upload s u = Some t"
  shows "\<exists>t'. pg_MarkFileDone u h s = (Inr (), put_task u t' (marked u h s)) \<and> ur_name t' = ur_name t"
proof (cases "\<exists>r\<in>set (rows_of u s). uf_hash r = h \<and> \<not> finished r")
  case True
  then have "0 < length (filter (\<lambda>r. uf_hash r = h \<and> \<not> finished r) (rows_of u s))"
    by (auto simp: filter_empty_conv)
  with assms show ?thesis
    by (auto simp: pg_MarkFileDone_run bindE_def counted_def marked_def)
next
  case False
  then have "filter (\<lambda>r. uf_hash r = h \<and> \<not> finished r) (rows_of u s) = []" by (auto simp: filter_empty_conv)
  moreover have "put_task u t (marked u h s) = marked u h s"
    using assms(2) by (simp add: marked_def put_task_def put_task_files_def fun_upd_idem)
  ultimately show ?thesis using assms
    by (intro exI [of _ t]) (simp add: pg_MarkFileDone_run bindE_def marked_def)
qed

section \<open>Storing the book\<close>

lemma pg_ForceUpsertBook_run:
  assumes "db_faults s = []" "payload_columns env (parseBookPayload p) = Some f"
  shows "\<exists>cid rs. pg_ForceUpsertBook env u p dev s =
    (Inr (accepted (next_rev u s) (db_event_seq s + 1)), upserted env cid u f dev p (s\<lparr>db_random := rs\<rparr>))"
proof (rule upsert_event_run [OF assms(1), of "payload_columns env (parseBookPayload p)" u env dev p
      "\<lambda>r e. commitOutcome (accepted r e)"])
  fix g cid rs
  assume g: "payload_columns env (parseBookPayload p) = Some g"
    and run: "bindE (upsert_book u (payload_columns env (parseBookPayload p))) (\<lambda>r. bindE (serverChangeID env) (\<lambda>cid.
      bindE (insertEvent env cid EntityBook u r dev OpUpsert p StatusDone) (\<lambda>e. commitOutcome (accepted r e)))) s =
      commitOutcome (accepted (next_rev u s) (db_event_seq s + 1)) (upserted env cid u g dev p (s\<lparr>db_random := rs\<rparr>))"
  then have "pg_force_book_tx env u p dev s =
      (Inr (Commit (accepted (next_rev u s) (db_event_seq s + 1))), upserted env cid u g dev p (s\<lparr>db_random := rs\<rparr>))"
    by (simp add: pg_force_book_tx_def commitOutcome_def)
  with assms g have "pg_ForceUpsertBook env u p dev s =
      (Inr (accepted (next_rev u s) (db_event_seq s + 1)), upserted env cid u f dev p (s\<lparr>db_random := rs\<rparr>))"
    by (simp add: pg_ForceUpsertBook_def in_tx_def)
  then show ?thesis by blast
qed (use assms in simp)

definition new_book :: "string \<Rightarrow> book_file_meta list \<Rightarrow> book_payload" where
  "new_book name files = \<lparr>bp_Name = name, bp_CurrentPage = 0, bp_CoverHash = [], bp_Files = Some files\<rparr>"

text \<open>The book is stored: one more revision, one event, the other books as before.\<close>

definition book_stored :: "string \<Rightarrow> book_payload \<Rightarrow> string \<Rightarrow> pg \<Rightarrow> pg \<Rightarrow> bool" where
  "book_stored u b dev s t \<longleftrightarrow>
     pg_library t = (pg_library s)(u \<mapsto> b) \<and> pg_book_rev u t = pg_book_rev u s + 1 \<and>
     (\<exists>e. pg_log t = pg_log s @ [e] \<and> ev_EntityType e = EntityBook \<and> ev_EntityID e = u \<and> ev_Op e = OpUpsert \<and>
        ev_DeviceID e = dev \<and> ev_Revision e = pg_book_rev u t \<and> book_content (ev_Payload e) = b)"

lemma row_event_device [simp]: "ev_DeviceID (row_event (event_row_of env cid t i r dev opn p st s)) = dev"
  "ev_Revision (row_event (event_row_of env cid t i r dev opn p st s)) = r"
  by (simp_all add: row_event_def event_row_of_def)

lemma new_book_columns:
  assumes "jsonb_ok env" "list_all file_ok files"
  shows "\<exists>f. payload_columns env (parseBookPayload (Some (enc_payload (new_book name files)))) = Some f \<and>
    (\<forall>r q. row_content (f r q) = new_book name files \<and> br_revision (f r q) = r \<and> \<not> br_deleted (f r q)) \<and>
    book_content (jsonb env (Some (enc_payload (new_book name files)))) = new_book name files"
proof -
  let ?p = "Some (enc_payload (new_book name files))"
  have "payload_ok (new_book name files)" using assms(2) by (simp add: payload_ok_def new_book_def in_int64_def)
  from dec_payload_enc [OF this] have p: "parseBookPayload ?p = new_book name files"
    by (simp add: parseBookPayload_def json_Unmarshal_def enc_payload_def)
  then obtain f where f: "payload_columns env (parseBookPayload ?p) = Some f"
    by (auto simp: payload_columns_def book_columns_eq filesJSON_def new_book_def in_int32_def)
  have c: "book_content (jsonb env ?p) = new_book name files"
    using jsonb_content [OF assms(1), of ?p] p by (simp add: book_content_def new_book_def)
  with f payload_columns_content [OF assms(1) f] columns_shape(2) [OF f] show ?thesis
    by (intro exI [of _ f]) simp
qed

lemma store_book:
  assumes "db_faults s = []" "jsonb_ok env" "list_all file_ok files"
  shows "\<exists>w t. pg_ForceUpsertBook env u (Some (enc_payload (new_book name files))) dev s = (Inr w, t) \<and>
    oc_Revision w = pg_book_rev u s + 1 \<and> db_faults t = [] \<and> book_stored u (new_book name files) dev s t \<and>
    db_book_upload t = db_book_upload s \<and> db_book_upload_file t = db_book_upload_file s"
proof -
  let ?p = "Some (enc_payload (new_book name files))"
  from new_book_columns [OF assms(2,3), of name] obtain f where
    f: "payload_columns env (parseBookPayload ?p) = Some f"
    and row: "\<And>r q. row_content (f r q) = new_book name files" "\<And>r q. br_revision (f r q) = r"
      "\<And>r q. \<not> br_deleted (f r q)"
    and c: "book_content (jsonb env ?p) = new_book name files" by blast
  from pg_ForceUpsertBook_run [OF assms(1) f, of u dev] obtain cid rs where
    run: "pg_ForceUpsertBook env u ?p dev s = (Inr (accepted (next_rev u s) (db_event_seq s + 1)),
      upserted env cid u f dev ?p (s\<lparr>db_random := rs\<rparr>))" by blast
  let ?t = "upserted env cid u f dev ?p (s\<lparr>db_random := rs\<rparr>)"
  have lib: "pg_library (s\<lparr>db_random := rs\<rparr>) = pg_library s" "pg_log (s\<lparr>db_random := rs\<rparr>) = pg_log s"
    by (simp_all add: pg_library_def pg_log_def fun_eq_iff)
  have "book_stored u (new_book name files) dev s ?t"
    unfolding book_stored_def upserted_def
    by (auto simp del: random_fields(3) simp: pg_library_put lib row c next_rev_def pg_book_rev_def pg_deliverable_def
        intro!: exI)
  moreover have "db_book_upload ?t = db_book_upload s" "db_book_upload_file ?t = db_book_upload_file s"
    by (simp_all add: upserted_def add_event_def put_book_row_def)
  ultimately show ?thesis using run assms(1) by (simp add: accepted_def next_rev_def)
qed

section \<open>The service\<close>

abbreviation mem_uploads :: "scan \<Rightarrow> pg_env \<Rightarrow> 'x app upload_service" where
  "mem_uploads scan env \<equiv> app_upload_service scan env app_mem_orders"

text \<open>The page orders that are kept hold sizes as they come from a decoded request.\<close>

definition orders_ok :: "mem_orders \<Rightarrow> bool" where
  "orders_ok os \<longleftrightarrow> (\<forall>u. list_all file_ok (slice_list (os u)))"

definition incomplete_answer :: "string \<Rightarrow> upload_complete_response" where
  "incomplete_answer u = \<lparr>uc_UUID = u, uc_Done = False, uc_Reason = ''incomplete'', uc_Revision = 0\<rparr>"

definition done_answer :: "string \<Rightarrow> int \<Rightarrow> upload_complete_response" where
  "done_answer u r = \<lparr>uc_UUID = u, uc_Done = True, uc_Reason = ''ok'', uc_Revision = r\<rparr>"

lemma service_fields [simp]:
  "su_uploads (app_upload_service scan env orders) = app_uploads scan"
  "su_books (app_upload_service scan env orders) = app_books env"
  "su_orders (app_upload_service scan env orders) = orders"
  by (simp_all add: app_upload_service_def)

lemma complete_unknown:
  "db_faults (ap_db s) = [] \<Longrightarrow> db_book_upload (ap_db s) u = None \<Longrightarrow>
     UploadComplete (mem_uploads scan env) dev u s = (Inl ErrNoRows, s)"
  by (simp add: UploadComplete_def bindE_def app_uploads_def on_pg_apply pg_GetTask_run)

lemma complete_order_lost:
  "db_faults (ap_db s) = [] \<Longrightarrow> db_book_upload (ap_db s) u = Some t \<Longrightarrow> ap_orders s u = None \<Longrightarrow>
     UploadComplete (mem_uploads scan env) dev u s = (Inl ErrUploadOrderLost, s)"
  by (simp add: UploadComplete_def bindE_def app_uploads_def on_pg_apply on_orders_apply pg_GetTask_run
      uploadPayload_def app_mem_orders_def mem_LoadOrder_def)

lemma complete_incomplete:
  "db_faults (ap_db s) = [] \<Longrightarrow> uploads_ok (ap_db s) \<Longrightarrow> db_book_upload (ap_db s) u = Some t \<Longrightarrow>
     ap_orders s u = Some files \<Longrightarrow> \<not> all_done u (ap_db s) \<Longrightarrow>
     UploadComplete (mem_uploads scan env) dev u s = (Inr (incomplete_answer u), s)"
  by (simp add: UploadComplete_def bindE_def app_uploads_def on_pg_apply on_orders_apply pg_GetTask_run
      uploadPayload_def app_mem_orders_def mem_LoadOrder_def pg_Complete_run incomplete_answer_def)

lemma complete_stores:
  assumes "db_faults (ap_db s) = []" "uploads_ok (ap_db s)" "db_book_upload (ap_db s) u = Some t"
    and "ap_orders s u = Some files" "all_done u (ap_db s)" "jsonb_ok env" "list_all file_ok files"
  shows "\<exists>t'. UploadComplete (mem_uploads scan env) dev u s =
      (Inr (done_answer u (pg_book_rev u (ap_db s) + 1)), s\<lparr>ap_db := t'\<rparr>) \<and>
    db_faults t' = [] \<and> book_stored u (new_book (ur_name t) files) dev (ap_db s) t' \<and>
    db_book_upload t' = (db_book_upload (ap_db s))(u \<mapsto> t\<lparr>ur_status := StatusDone\<rparr>) \<and>
    db_book_upload_file t' = db_book_upload_file (ap_db s)"
proof -
  let ?s = "set_status u StatusDone (ap_db s)"
  have set: "?s = put_task u (t\<lparr>ur_status := StatusDone\<rparr>) (ap_db s)" using assms(3) by (simp add: set_status_def)
  from store_book [OF _ assms(6,7), of ?s u "ur_name t" dev] assms(1) obtain w t' where
    w: "pg_ForceUpsertBook env u (Some (enc_payload (new_book (ur_name t) files))) dev ?s = (Inr w, t')"
      "oc_Revision w = pg_book_rev u ?s + 1" and t': "db_faults t' = []"
      "book_stored u (new_book (ur_name t) files) dev ?s t'" "db_book_upload t' = db_book_upload ?s"
      "db_book_upload_file t' = db_book_upload_file ?s" by auto
  have same: "pg_log ?s = pg_log (ap_db s)" "pg_book_rev u ?s = pg_book_rev u (ap_db s)"
    "db_book_upload_file ?s = db_book_upload_file (ap_db s)"
    by (simp_all add: set put_task_def pg_log_def pg_book_rev_def book_row_of_def)
  have "UploadComplete (mem_uploads scan env) dev u s =
      (Inr (done_answer u (pg_book_rev u (ap_db s) + 1)), s\<lparr>ap_db := t'\<rparr>)"
    using assms w same
    by (simp add: UploadComplete_def bindE_def app_uploads_def on_pg_apply on_orders_apply pg_GetTask_run
        uploadPayload_def app_mem_orders_def mem_LoadOrder_def pg_Complete_run done_answer_def app_books_def
        new_book_def task_record_def)
  moreover have "book_stored u (new_book (ur_name t) files) dev (ap_db s) t'"
    using t'(2) unfolding book_stored_def same set_status_fields .
  ultimately show ?thesis using t' same set by (intro exI [of _ t']) simp
qed

section \<open>From start to end\<close>

fun report_done :: "'s upload_service \<Rightarrow> string \<Rightarrow> string list \<Rightarrow> ('s, unit) op" where
  "report_done us u [] = ret ()"
| "report_done us u (h # hs) = bindE (UploadFileDone us u h) (\<lambda>_. report_done us u hs)"

lemma report_done_run:
  assumes "db_faults (ap_db s) = []" "uploads_ok (ap_db s)" "db_book_upload (ap_db s) u = Some t"
  shows "\<exists>d t'. report_done (mem_uploads scan env) u hs s = (Inr (), s\<lparr>ap_db := d\<rparr>) \<and> db_faults d = [] \<and>
    uploads_ok d \<and> db_book_upload d u = Some t' \<and> ur_name t' = ur_name t \<and>
    rows_of u d = map (\<lambda>r. fold mark_row hs r) (rows_of u (ap_db s)) \<and>
    pg_library d = pg_library (ap_db s) \<and> pg_book_rev u d = pg_book_rev u (ap_db s)"
  using assms
proof (induction hs arbitrary: s t)
  case Nil
  have run: "report_done (mem_uploads scan env) u [] s = (Inr (), s\<lparr>ap_db := ap_db s\<rparr>)" by simp
  have rows: "rows_of u (ap_db s) = map (\<lambda>r. fold mark_row [] r) (rows_of u (ap_db s))" by simp
  show ?case
    by (rule exI [of _ "ap_db s"], rule exI [of _ t]) (intro conjI; (rule run rows Nil refl))
next
  case (Cons h hs)
  from pg_MarkFileDone_clean [OF Cons.prems(1,3)] obtain t1 where
    run: "pg_MarkFileDone u h (ap_db s) = (Inr (), put_task u t1 (marked u h (ap_db s)))" and name: "ur_name t1 = ur_name t"
    by blast
  let ?d = "put_task u t1 (marked u h (ap_db s))"
  have ok: "uploads_ok ?d" using pg_MarkFileDone_ok [OF Cons.prems(2), of u h] run by simp
  have rows: "rows_of u ?d = map (mark_row h) (rows_of u (ap_db s))" by (simp add: marked_def)
  have same: "pg_library ?d = pg_library (ap_db s)" "pg_book_rev u ?d = pg_book_rev u (ap_db s)"
    by (simp_all add: marked_def) (simp add: pg_book_rev_def book_row_of_def put_task_def put_task_files_def)
  have "db_faults (ap_db (s\<lparr>ap_db := ?d\<rparr>)) = []" "uploads_ok (ap_db (s\<lparr>ap_db := ?d\<rparr>))"
    "db_book_upload (ap_db (s\<lparr>ap_db := ?d\<rparr>)) u = Some t1"
    using Cons.prems(1) ok by (simp_all add: marked_def)
  from Cons.IH [OF this] obtain d t' where
    d: "report_done (mem_uploads scan env) u hs (s\<lparr>ap_db := ?d\<rparr>) = (Inr (), s\<lparr>ap_db := d\<rparr>)" "db_faults d = []"
      "uploads_ok d" "db_book_upload d u = Some t'" "ur_name t' = ur_name t1"
      "rows_of u d = map (\<lambda>r. fold mark_row hs r) (rows_of u ?d)" "pg_library d = pg_library ?d"
      "pg_book_rev u d = pg_book_rev u ?d" by auto
  have "report_done (mem_uploads scan env) u (h # hs) s = report_done (mem_uploads scan env) u hs (s\<lparr>ap_db := ?d\<rparr>)"
    by (simp add: bindE_def UploadFileDone_def app_uploads_def on_pg_apply run)
  with d name rows same show ?case by (intro exI [of _ d] exI [of _ t']) (simp add: comp_def)
qed

lemma fold_mark_finished: "finished (fold mark_row hs r) \<longleftrightarrow> finished r \<or> uf_hash r \<in> set hs"
  by (induction hs arbitrary: r) auto

text \<open>One book of an init request.\<close>

definition init_book :: "string \<Rightarrow> string \<Rightarrow> book_file_meta list \<Rightarrow> upload_init_book" where
  "init_book u name files = \<lparr>ib_UUID = u, ib_ClientID = [], ib_Name = name, ib_Files = Some files,
     ib_DataVersion = []\<rparr>"

lemma init_run:
  assumes "db_faults (ap_db s) = []" "u \<noteq> []" "distinct (map fm_RelPath files)"
  shows "UploadInit (mem_uploads scan env) dev [init_book u name files] s =
    (Inr [\<lparr>ir_ClientID = [], ir_UUID = u, ir_TotalFiles = int (length files), ir_PendingFiles = Some files\<rparr>],
     s\<lparr>ap_db := created u name [] dev files (ap_db s), ap_orders := (ap_orders s)(u \<mapsto> files)\<rparr>)"
proof -
  let ?b = "(\<lparr>ut_UUID = u, ut_Name = name, ut_Status = UploadUploading, ut_TotalFiles = int (length files),
      ut_DoneFiles = 0, ut_DataVersion = [], ut_DeviceID = dev\<rparr>, Some files)"
  have "init_tx u name [] dev (Some files) (ap_db s) = (Inr (Commit ?b), created u name [] dev files (ap_db s))"
    using init_tx_run [OF assms(1), of u name "[]" dev "Some files"] assms(3) by simp
  then have "pg_InitUpload u name [] dev (Some files) (ap_db s) = (Inr ?b, created u name [] dev files (ap_db s))"
    using assms(1,2) by (simp add: pg_InitUpload_def in_tx_def created_def)
  then show ?thesis
    by (simp add: UploadInit_def init_book_def bindE_def app_uploads_def on_pg_apply on_orders_apply
        app_mem_orders_def mem_SaveOrder_def)
qed

lemma created_fields [simp]:
  "db_faults (created u name v dev fs s) = db_faults s"
  "db_book_upload (created u name v dev fs s) u = Some (init_task name (int (length fs)) v dev)"
  "rows_of u (created u name v dev fs s) = map new_row fs"
  "pg_library (created u name v dev fs s) = pg_library s" "pg_book_rev w (created u name v dev fs s) = pg_book_rev w s"
  by (simp_all add: created_def) (simp add: pg_book_rev_def book_row_of_def put_task_def put_task_files_def)

lemma upload_all:
  assumes "db_faults (ap_db s) = []" "uploads_ok (ap_db s)" "jsonb_ok env" "u \<noteq> []" "files \<noteq> []"
    and "distinct (map fm_RelPath files)" "list_all file_ok files" "set (map fm_Hash files) \<subseteq> set hs"
  shows "\<exists>t. bindE (UploadInit (mem_uploads scan env) dev [init_book u name files]) (\<lambda>_.
      bindE (report_done (mem_uploads scan env) u hs) (\<lambda>_. UploadComplete (mem_uploads scan env) dev' u)) s =
      (Inr (done_answer u (pg_book_rev u (ap_db s) + 1)), t) \<and>
    pg_library (ap_db t) = (pg_library (ap_db s))(u \<mapsto> new_book name files)"
proof -
  let ?s = "s\<lparr>ap_db := created u name [] dev files (ap_db s), ap_orders := (ap_orders s)(u \<mapsto> files)\<rparr>"
  have "db_faults (ap_db ?s) = []" "uploads_ok (ap_db ?s)"
    "db_book_upload (ap_db ?s) u = Some (init_task name (int (length files)) [] dev)"
    using assms(1) created_ok [OF assms(2,6)] by simp_all
  from report_done_run [OF this, of scan env hs] obtain d t where
    d: "report_done (mem_uploads scan env) u hs ?s = (Inr (), ?s\<lparr>ap_db := d\<rparr>)" "db_faults d = []" "uploads_ok d"
      "db_book_upload d u = Some t" "ur_name t = name" "rows_of u d = map (\<lambda>r. fold mark_row hs r) (map new_row files)"
      "pg_library d = pg_library (ap_db s)" "pg_book_rev u d = pg_book_rev u (ap_db s)"
    by (auto simp: init_task_def)
  have "all_done u d" using assms(5,8) by (auto simp: all_done_def d(6) fold_mark_finished new_row_def)
  with complete_stores [of "?s\<lparr>ap_db := d\<rparr>" u t files env scan dev'] d assms(3,7) obtain t' where
    "UploadComplete (mem_uploads scan env) dev' u (?s\<lparr>ap_db := d\<rparr>) =
      (Inr (done_answer u (pg_book_rev u (ap_db s) + 1)), ?s\<lparr>ap_db := t'\<rparr>)"
    "book_stored u (new_book name files) dev' d t'" by auto
  with init_run [OF assms(1,4,6), of scan env dev name] d show ?thesis
    by (simp add: bindE_def book_stored_def)
qed

end
