(* ===== verification/UploadProps.thy ===== *)
theory UploadProps
  imports UploadRuns PgProps
begin

text \<open>
  The properties of the upload tasks: the invariant of their tables, what completing a task does on every
  branch, the way from the init request to the stored book, and what a failure in the middle leaves.
\<close>

section \<open>Data for the witnesses\<close>

definition ex_files :: "book_file_meta list" where
  "ex_files = [\<lparr>fm_RelPath = ''p2'', fm_Hash = ''h2'', fm_Size = 5\<rparr>, \<lparr>fm_RelPath = ''p1'', fm_Hash = ''h1'', fm_Size = 3\<rparr>]"

lemma ex_files_facts [simp]:
  "ex_files \<noteq> []" "distinct (map fm_RelPath ex_files)" "list_all file_ok ex_files"
  "map fm_Hash ex_files = [''h2'', ''h1'']"
  by (simp_all add: ex_files_def file_ok_def in_int64_def)

definition fresh_app :: "bool list \<Rightarrow> unit app" where
  "fresh_app faults = NewApp faults ()"

lemma fresh_app_fields [simp]:
  "ap_db (fresh_app fs) = empty_db fs" "ap_orders (fresh_app fs) = (\<lambda>_. None)" "ap_tokens (fresh_app fs) = (\<lambda>_. None)"
  by (simp_all add: fresh_app_def NewApp_def NewMemoryUploadOrderStore_def NewMemoryTokenStore_def)

lemma empty_faults [simp]: "db_faults (empty_db fs) = fs"
  by (simp add: empty_db_def)

text \<open>A task with all its files reported.\<close>

definition ready_task :: upload_row where
  "ready_task = (init_task ''Emma'' 2 [] ''d1'')\<lparr>ur_done_files := 2\<rparr>"

definition ready_app :: "bool list \<Rightarrow> unit app" where
  "ready_app faults = \<lparr>ap_db = put_task_files ''b2'' (map (\<lambda>f. (new_row f)\<lparr>uf_status := StatusDone\<rparr>) ex_files)
       (put_task ''b2'' ready_task (empty_db faults)),
     ap_orders = (\<lambda>_. None)(''b2'' \<mapsto> ex_files), ap_tokens = (\<lambda>_. None), ap_presign = (\<lambda>_. None), ap_world = ()\<rparr>"

lemma ready_app_facts:
  "db_faults (ap_db (ready_app fs)) = fs" "db_book_upload (ap_db (ready_app fs)) ''b2'' = Some ready_task"
  "ap_orders (ready_app fs) ''b2'' = Some ex_files" "all_done ''b2'' (ap_db (ready_app fs))"
  "uploads_ok (ap_db (ready_app fs))" "orders_ok (ap_orders (ready_app fs))"
proof -
  show "uploads_ok (ap_db (ready_app fs))"
    by (rule uploads_okI [OF uploads_ok_init [of fs], of "''b2''"])
      (simp_all add: ready_app_def ready_task_def task_ok_def init_task_def ex_files_def new_row_def finished_def)
qed (simp_all add: ready_app_def all_done_def finished_def orders_ok_def)

section \<open>The tables\<close>



section \<open>Completing a task\<close>

text \<open>
  C18: Completing a task, on every branch: an unknown task and a lost page order are errors without
  effect, a task with files missing is answered as incomplete without effect, and otherwise the book is
  stored under the task's identifier with the page order of the init request, with the next revision and
  one event, and the task is done.  A task that was abandoned is completed all the same.
\<close>

theorem upload_complete_effect:
  assumes "db_faults (ap_db s) = []" "uploads_ok (ap_db s)" "orders_ok (ap_orders s)" "jsonb_ok env"
    and "UploadComplete (mem_uploads scan env) dev u s = (r, s')"
  shows "case (db_book_upload (ap_db s) u, ap_orders s u) of
      (None, _) \<Rightarrow> r = Inl ErrNoRows \<and> s' = s
    | (Some t, None) \<Rightarrow> r = Inl ErrUploadOrderLost \<and> s' = s
    | (Some t, Some files) \<Rightarrow>
        if \<not> all_done u (ap_db s) then r = Inr (incomplete_answer u) \<and> s' = s
        else r = Inr (done_answer u (pg_book_rev u (ap_db s) + 1)) \<and>
          book_stored u (new_book (ur_name t) files) dev (ap_db s) (ap_db s') \<and>
          db_book_upload (ap_db s') = (db_book_upload (ap_db s))(u \<mapsto> t\<lparr>ur_status := StatusDone\<rparr>) \<and>
          ap_orders s' = ap_orders s"
proof (cases "db_book_upload (ap_db s) u")
  case None
  with complete_unknown [OF assms(1) None] assms(5) show ?thesis by simp
next
  case (Some t)
  show ?thesis
  proof (cases "ap_orders s u")
    case None
    with complete_order_lost [OF assms(1) Some None] Some assms(5) show ?thesis by simp
  next
    case (Some files)
    note task = \<open>db_book_upload (ap_db s) u = Some t\<close>
    have files: "list_all file_ok files"
      using assms(3) Some unfolding orders_ok_def by (metis slice_list_simps(2))
    show ?thesis
    proof (cases "all_done u (ap_db s)")
      case True
      from complete_stores [OF assms(1,2) task Some True assms(4) files, of scan dev] assms(5) task Some True
      show ?thesis by auto
    next
      case False
      with complete_incomplete [OF assms(1,2) task Some False] assms(5) task Some show ?thesis by simp
    qed
  qed
qed

theorem upload_complete_effect_witness:
  "\<exists>s'. UploadComplete (mem_uploads id ex_env) ''d1'' ''b2'' (ready_app []) = (Inr (done_answer ''b2'' 1), s') \<and>
     pg_library (ap_db s') ''b2'' = Some (new_book ''Emma'' ex_files)"
proof -
  obtain r s' where run: "UploadComplete (mem_uploads id ex_env) ''d1'' ''b2'' (ready_app []) = (r, s')"
    by (cases "UploadComplete (mem_uploads id ex_env) ''d1'' ''b2'' (ready_app [])")
  have "pg_book_rev ''b2'' (ap_db (ready_app [])) = 0" "ur_name ready_task = ''Emma''"
    by (simp_all add: ready_app_def put_task_def put_task_files_def pg_book_rev_def book_row_of_def empty_db_def
        ready_task_def init_task_def)
  with upload_complete_effect [OF ready_app_facts(1,5,6) ex_env_ok run] run show ?thesis
    by (simp add: ready_app_facts book_stored_def)
qed

text \<open>
  C10: From the init request to the stored book: for a book with pages, each at its own path, once every
  page's hash has been reported, in any order and any number of times, completing the task stores the
  book with exactly the pages of the request in the request's order, and only that book changes; in
  which order the database enumerates the task's files does not matter.
\<close>

theorem upload_end_to_end:
  assumes "db_faults (ap_db s) = []" "uploads_ok (ap_db s)" "jsonb_ok env" "u \<noteq> []" "files \<noteq> []"
    and "distinct (map fm_RelPath files)" "list_all file_ok files" "set (map fm_Hash files) \<subseteq> set hs"
  shows "\<exists>t. bindE (UploadInit (mem_uploads scan env) dev [init_book u name files]) (\<lambda>_.
      bindE (report_done (mem_uploads scan env) u hs) (\<lambda>_. UploadComplete (mem_uploads scan env) dev' u)) s =
      (Inr (done_answer u (pg_book_rev u (ap_db s) + 1)), t) \<and>
    pg_library (ap_db t) = (pg_library (ap_db s))(u \<mapsto> new_book name files)"
  using assms by (rule upload_all)

theorem upload_end_to_end_witness:
  "\<exists>t. bindE (UploadInit (mem_uploads rev ex_env) ''d1'' [init_book ''b2'' ''Emma'' ex_files]) (\<lambda>_.
      bindE (report_done (mem_uploads rev ex_env) ''b2'' [''h1'', ''h2'', ''h1'']) (\<lambda>_.
        UploadComplete (mem_uploads rev ex_env) ''d2'' ''b2'')) (fresh_app []) =
      (Inr (done_answer ''b2'' (pg_book_rev ''b2'' (empty_db []) + 1)), t) \<and>
    pg_library (ap_db t) = (pg_library (empty_db []))(''b2'' \<mapsto> new_book ''Emma'' ex_files)"
  using upload_end_to_end [of "fresh_app []" ex_env "''b2''" ex_files "[''h1'', ''h2'', ''h1'']" rev "''d1''" "''Emma''" "''d2''"]
    uploads_ok_init by simp

section \<open>A failure in the middle\<close>

lemma stmt_fault [simp]:
  "stmt m (s\<lparr>db_faults := False # fs\<rparr>) = m (s\<lparr>db_faults := fs\<rparr>)"
  "stmt m (s\<lparr>db_faults := True # fs\<rparr>) = (Inl ErrDatabase, s\<lparr>db_faults := fs\<rparr>)"
  by (simp_all add: stmt_def)

text \<open>
  C35: When the database fails the transaction that stores the book, after the task was marked, the
  client gets an error, the task says done and the library has no such book; completing the task once
  more, with nothing failing, stores it.
\<close>

theorem upload_done_without_book:
  assumes "uploads_ok (ap_db s)" "db_book_upload (ap_db s) u = Some t" "ap_orders s u = Some files"
    and "all_done u (ap_db s)" "list_all file_ok files" "jsonb_ok env"
    and "db_faults (ap_db s) = [False, False, False, False, True]"
  shows "\<exists>s' s''. UploadComplete (mem_uploads scan env) dev u s = (Inl begin_error, s') \<and>
    db_book_upload (ap_db s') u = Some (t\<lparr>ur_status := StatusDone\<rparr>) \<and> pg_library (ap_db s') = pg_library (ap_db s) \<and>
    UploadComplete (mem_uploads scan env) dev u s' = (Inr (done_answer u (pg_book_rev u (ap_db s) + 1)), s'') \<and>
    pg_library (ap_db s'') = (pg_library (ap_db s))(u \<mapsto> new_book (ur_name t) files)"
proof -
  let ?d = "set_status u StatusDone ((ap_db s)\<lparr>db_faults := []\<rparr>)"
  have tot: "done_count u (ap_db s) \<ge> ur_total_files t \<and> ur_total_files t > 0"
    using all_finished_iff [OF uploads_okD [OF assms(1,2)]] assms(4) by (simp add: done_count_eq all_done_def)
  have frame: "rows_of u ((ap_db s)\<lparr>db_faults := fs\<rparr>) = rows_of u (ap_db s)"
    "done_count u ((ap_db s)\<lparr>db_faults := fs\<rparr>) = done_count u (ap_db s)"
    "set_status u StatusDone ((ap_db s)\<lparr>db_faults := fs\<rparr>) = (set_status u StatusDone (ap_db s))\<lparr>db_faults := fs\<rparr>" for fs
    using assms(2) by (simp_all add: rows_of_def done_count_def set_status_def put_task_def)
  have s: "(ap_db s)\<lparr>db_faults := [False, False, False, False, True]\<rparr> = ap_db s"
    by (simp flip: assms(7))
  have "pg_GetTask scan u ((ap_db s)\<lparr>db_faults := [False, False, False, False, True]\<rparr>) =
      (Inr (task_record u t, pending_files scan u (ap_db s)), (ap_db s)\<lparr>db_faults := [False, False, True]\<rparr>)"
    using assms(2) by (simp add: pg_GetTask_def query_def bindE_Inr task_record_def pending_files_def
        finished_def rows_of_def)
  then have get: "pg_GetTask scan u (ap_db s) = (Inr (task_record u t, pending_files scan u (ap_db s)),
      (ap_db s)\<lparr>db_faults := [False, False, True]\<rparr>)" by (simp only: s)
  have complete: "pg_Complete u ((ap_db s)\<lparr>db_faults := [False, False, True]\<rparr>) =
      (Inr True, (set_status u StatusDone (ap_db s))\<lparr>db_faults := [True]\<rparr>)"
    using assms(2) tot by (simp add: pg_Complete_eq exec_def bindE_Inr count_query_def frame)
  have force: "pg_ForceUpsertBook env u p dev (d\<lparr>db_faults := [True]\<rparr>) = (Inl begin_error, d\<lparr>db_faults := []\<rparr>)" for p d
    by (simp add: pg_ForceUpsertBook_def in_tx_def)
  have fails: "UploadComplete (mem_uploads scan env) dev u s = (Inl begin_error, s\<lparr>ap_db := ?d\<rparr>)"
    using assms(3) by (simp add: UploadComplete_def bindE_Inr bindE_Inl app_uploads_def on_pg_apply on_orders_apply
        uploadPayload_def app_mem_orders_def mem_LoadOrder_def app_books_def get complete force frame)
  have d: "db_faults ?d = []" "db_book_upload ?d u = Some (t\<lparr>ur_status := StatusDone\<rparr>)" "all_done u ?d"
    "pg_library ?d = pg_library (ap_db s)" "pg_book_rev u ?d = pg_book_rev u (ap_db s)"
    using assms(2,4) by (simp_all add: set_status_def all_done_def frame)
      (simp_all add: pg_library_def pg_book_rev_def book_row_of_def put_task_def fun_eq_iff)
  have "uploads_ok ?d" using assms(1,4) by (intro set_status_ok) (simp_all add: all_done_def frame)
  then have "\<exists>t'. UploadComplete (mem_uploads scan env) dev u (s\<lparr>ap_db := ?d\<rparr>) =
      (Inr (done_answer u (pg_book_rev u ?d + 1)), (s\<lparr>ap_db := ?d\<rparr>)\<lparr>ap_db := t'\<rparr>) \<and> db_faults t' = [] \<and>
      book_stored u (new_book (ur_name (t\<lparr>ur_status := StatusDone\<rparr>)) files) dev ?d t' \<and>
      db_book_upload t' = (db_book_upload ?d)(u \<mapsto> (t\<lparr>ur_status := StatusDone\<rparr>)\<lparr>ur_status := StatusDone\<rparr>) \<and>
      db_book_upload_file t' = db_book_upload_file ?d"
    using complete_stores [of "s\<lparr>ap_db := ?d\<rparr>" u "t\<lparr>ur_status := StatusDone\<rparr>" files env scan dev] d(1-3) assms(3,5,6)
    by simp
  then obtain t' where "UploadComplete (mem_uploads scan env) dev u (s\<lparr>ap_db := ?d\<rparr>) =
      (Inr (done_answer u (pg_book_rev u (ap_db s) + 1)), s\<lparr>ap_db := t'\<rparr>)"
    "pg_library t' = (pg_library (ap_db s))(u \<mapsto> new_book (ur_name t) files)"
    unfolding d(5) book_stored_def d(4) by auto
  with fails d show ?thesis by (intro exI [of _ "s\<lparr>ap_db := ?d\<rparr>"] exI [of _ "s\<lparr>ap_db := t'\<rparr>"]) simp
qed

theorem upload_done_without_book_witness:
  "\<exists>s'. UploadComplete (mem_uploads id ex_env) ''d1'' ''b2'' (ready_app [False, False, False, False, True]) =
      (Inl begin_error, s') \<and>
    db_book_upload (ap_db s') ''b2'' = Some (ready_task\<lparr>ur_status := StatusDone\<rparr>) \<and>
    pg_library (ap_db s') = pg_library (ap_db (ready_app []))"
proof -
  let ?fs = "[False, False, False, False, True]"
  have "pg_library (ap_db (ready_app ?fs)) = pg_library (ap_db (ready_app []))"
    by (simp add: ready_app_def pg_library_def book_row_of_def put_task_def put_task_files_def empty_db_def fun_eq_iff)
  with upload_done_without_book [OF ready_app_facts(5,2,3,4) ex_files_facts(3) ex_env_ok ready_app_facts(1)
      [of ?fs]] show ?thesis by metis
qed

end
