(* ===== verification/AuthProps.thy ===== *)
theory AuthProps
  imports PgProps
begin

text \<open>
  The properties of authentication: what refreshing a token does on every branch and under a failure of
  the database, and who gets past the middleware.
\<close>

section \<open>Refreshing\<close>

abbreviation mem_auth ::
  "time \<Rightarrow> time \<Rightarrow> time \<Rightarrow> jwt_service \<Rightarrow> string \<Rightarrow> int \<Rightarrow> 'x app auth_service" where
  "mem_auth getNow saveNow deviceNow js secret ttl \<equiv>
     app_auth deviceNow (app_mem_tokens getNow saveNow) js secret ttl"

lemma app_auth_fields [simp]:
  "au_devices (app_auth now tokens js secret ttl) = app_devices now" "au_tokens (app_auth now tokens js secret ttl) = tokens"
  "au_jwt (app_auth now tokens js secret ttl) = js" "au_syncSecret (app_auth now tokens js secret ttl) = secret"
  "au_refreshTTL (app_auth now tokens js secret ttl) = ttl"
  by (simp_all add: app_auth_def)

lemma lift_result_apply [simp]: "lift_result (Inl e) = throw e" "lift_result (Inr a) = ret a"
  by (simp_all add: lift_result_def)

definition usable :: "time \<Rightarrow> mem_tokens \<Rightarrow> string \<Rightarrow> string option" where
  "usable now tokens h = (case tokens h of
     None \<Rightarrow> None | Some m \<Rightarrow> if now > mt_expires m then None else Some (mt_deviceID m))"

lemma get_token_run:
  "mem_GetDeviceByRefreshToken now h tokens =
     ((case usable now tokens h of None \<Rightarrow> Inl ErrRefreshTokenNotFound | Some d \<Rightarrow> Inr d), tokens)"
  by (simp add: mem_GetDeviceByRefreshToken_def usable_def split: option.split)

text \<open>The token that is drawn next, and the database after drawing it.\<close>

definition next_token :: "'s auth_env \<Rightarrow> pg \<Rightarrow> string" where
  "next_token env d = (case db_random d of
     Some b # _ \<Rightarrow> hex (read_buffer 32 (Some b)) | _ \<Rightarrow> hex (ae_timeString env))"

definition drawn :: "pg \<Rightarrow> pg" where
  "drawn d = (case db_random d of [] \<Rightarrow> d | _ # rs \<Rightarrow> d\<lparr>db_random := rs\<rparr>)"

lemma new_token_run:
  "ae_rand env = on_pg rand_read \<Longrightarrow> newRefreshToken env s =
     (Inr (next_token env (ap_db s), refreshTokenHash env (next_token env (ap_db s))), s\<lparr>ap_db := drawn (ap_db s)\<rparr>)"
  by (auto simp: newRefreshToken_def bindE_def on_pg_apply rand_read_def next_token_def drawn_def Let_def
      split: list.split option.split)

lemma drawn_fields [simp]: "db_faults (drawn d) = db_faults d" "db_devices (drawn d) = db_devices d"
  by (simp_all add: drawn_def split: list.split)

definition touched :: "time \<Rightarrow> string \<Rightarrow> pg \<Rightarrow> pg" where
  "touched now i d = d\<lparr>db_devices := (db_devices d)(i :=
     map_option (\<lambda>r. r\<lparr>dr_last_seen_at := now\<rparr>) (db_devices d i))\<rparr>"

lemma pg_TouchDevice_run: "db_faults d = [] \<Longrightarrow> pg_TouchDevice now i d = (Inr (), touched now i d)"
  by (simp add: pg_TouchDevice_def touched_def)

text \<open>
  C19: Refreshing, on every branch, while the database fails no statement: a token that is not known or
  past its time is refused without effect; a token whose device is gone is refused and forgotten; and
  otherwise the token is replaced: the old one is no longer accepted (unless the random source drew it
  again), the new one belongs to the same device for the configured time, and all other tokens stay.
\<close>

theorem refresh_effect:
  assumes "db_faults (ap_db s) = []" "ae_rand env = on_pg rand_read" "h = refreshTokenHash env token"
    and "Refresh env (mem_auth getNow saveNow deviceNow js secret ttl) token s = (r, s')"
  shows "case usable getNow (ap_tokens s) h of
      None \<Rightarrow> r = Inl ErrInvalidRefreshToken \<and> s' = s
    | Some dev \<Rightarrow>
        (case db_devices (ap_db s) dev of
           None \<Rightarrow> r = Inl ErrInvalidRefreshToken \<and> s' = s\<lparr>ap_tokens := (ap_tokens s)(h := None)\<rparr>
         | Some d \<Rightarrow>
             (case jwt_Issue (ae_jwt env) (ae_issueNow env) js dev (dr_name d) of
                Inl e \<Rightarrow> r = Inl e \<and> s' = s
              | Inr access \<Rightarrow>
                  (let new = next_token env (ap_db s) in
                   r = Inr \<lparr>rf_AccessToken = access, rf_RefreshToken = new\<rparr> \<and>
                   s' = s\<lparr>ap_db := touched deviceNow dev (drawn (ap_db s)),
                     ap_tokens := (ap_tokens s)(h := None, refreshTokenHash env new \<mapsto>
                       \<lparr>mt_deviceID = dev, mt_expires = saveNow + ttl\<rparr>)\<rparr>)))"
proof (cases "usable getNow (ap_tokens s) h")
  case None
  with assms show ?thesis
    by (simp add: Refresh_def Let_def bindE_def attempt_apply app_mem_tokens_def on_tokens_apply get_token_run)
next
  case (Some dev)
  show ?thesis
  proof (cases "db_devices (ap_db s) dev")
    case None
    with Some assms show ?thesis
      by (auto simp: Refresh_def Let_def bindE_def attempt_apply app_mem_tokens_def on_tokens_apply get_token_run
          app_devices_def on_pg_apply pg_GetDeviceByID_def mem_DeleteRefreshToken_def)
  next
    case d: (Some d)
    show ?thesis
    proof (cases "jwt_Issue (ae_jwt env) (ae_issueNow env) js dev (dr_name d)")
      case (Inl e)
      with Some d assms show ?thesis
        by (auto simp: Refresh_def Let_def bindE_def attempt_apply app_mem_tokens_def on_tokens_apply get_token_run
            app_devices_def on_pg_apply pg_GetDeviceByID_def)
    next
      case (Inr access)
      with Some d assms show ?thesis
        by (auto simp: Refresh_def Let_def bindE_def attempt_apply app_mem_tokens_def on_tokens_apply get_token_run
            app_devices_def on_pg_apply pg_GetDeviceByID_def mem_DeleteRefreshToken_def mem_SaveRefreshToken_def
            new_token_run pg_TouchDevice_run Let_def)
    qed
  qed
qed

text \<open>A library whose tokens are the device's identifier.\<close>

definition ex_jwt :: jwt_lib where
  "ex_jwt = \<lparr>jl_Sign = (\<lambda>alg c secret. Inr (cl_DeviceID c)),
     jl_Parse = (\<lambda>key issuer algs now token. Inr (\<lparr>cl_DeviceID = token, cl_DeviceName = [], cl_Issuer = issuer,
       cl_IssuedAt = 0, cl_ExpiresAt = now\<rparr>, True))\<rparr>"

definition ex_auth_env :: "unit app auth_env" where
  "ex_auth_env = \<lparr>ae_jwt = ex_jwt, ae_bcrypt = (\<lambda>k. Inr k), ae_sha = id, ae_issueNow = 0,
     ae_rand = on_pg rand_read, ae_timeString = ''t0''\<rparr>"

definition ex_secret :: jwt_service where
  "ex_secret = \<lparr>js_secret = ''s'', js_ttl = 60 * second\<rparr>"

definition ex_device :: device_row where
  "ex_device = \<lparr>dr_name = ''phone'', dr_platform = ''ios'', dr_key_hash = ''k'', dr_created_at = 0, dr_last_seen_at = 0\<rparr>"

definition token_app :: "bool list \<Rightarrow> unit app" where
  "token_app faults = (NewApp faults ())\<lparr>ap_db := (empty_db faults)\<lparr>db_devices := (\<lambda>_. None)(''d1'' \<mapsto> ex_device)\<rparr>,
     ap_tokens := (\<lambda>_. None)(refreshTokenHash ex_auth_env ''old'' \<mapsto> \<lparr>mt_deviceID = ''d1'', mt_expires = 100\<rparr>)\<rparr>"

lemma token_app_facts:
  "db_faults (ap_db (token_app fs)) = fs" "db_devices (ap_db (token_app fs)) ''d1'' = Some ex_device"
  "now \<le> 100 \<Longrightarrow> usable now (ap_tokens (token_app fs)) (refreshTokenHash ex_auth_env ''old'') = Some ''d1''"
  by (simp_all add: token_app_def usable_def empty_db_def)

theorem refresh_effect_witness:
  "\<exists>s'. Refresh ex_auth_env (mem_auth 5 6 7 ex_secret ''key'' 50) ''old'' (token_app []) =
     (Inr \<lparr>rf_AccessToken = ''d1'', rf_RefreshToken = hex ''t0''\<rparr>, s') \<and>
     ap_tokens s' (refreshTokenHash ex_auth_env (hex ''t0'')) = Some \<lparr>mt_deviceID = ''d1'', mt_expires = 56\<rparr>"
proof -
  obtain r s' where run: "Refresh ex_auth_env (mem_auth 5 6 7 ex_secret ''key'' 50) ''old'' (token_app []) = (r, s')"
    by (cases "Refresh ex_auth_env (mem_auth 5 6 7 ex_secret ''key'' 50) ''old'' (token_app [])")
  have rand: "ae_rand ex_auth_env = on_pg rand_read" by (simp add: ex_auth_env_def)
  have tok: "next_token ex_auth_env (ap_db (token_app [])) = hex ''t0''"
    by (simp add: next_token_def token_app_def empty_db_def ex_auth_env_def)
  have jwt: "jwt_Issue (ae_jwt ex_auth_env) (ae_issueNow ex_auth_env) ex_secret ''d1'' n = Inr ''d1''" for n
    by (simp add: jwt_Issue_def ex_auth_env_def ex_jwt_def)
  from refresh_effect [OF token_app_facts(1) rand refl run] run show ?thesis
    by (simp add: token_app_facts jwt tok Let_def)
qed

text \<open>
  C36: When the database fails while the device of a good token is looked up, the client is told that its
  token is invalid and the token is deleted although the device is registered: refreshing with it is
  refused from then on, also when nothing fails any more.
\<close>

theorem refresh_fault_revokes:
  assumes "db_faults (ap_db s) = [True]" "h = refreshTokenHash env token"
    and "usable getNow (ap_tokens s) h = Some dev" "db_devices (ap_db s) dev = Some d"
  shows "\<exists>s'. Refresh env (mem_auth getNow saveNow deviceNow js secret ttl) token s = (Inl ErrInvalidRefreshToken, s') \<and>
    db_faults (ap_db s') = [] \<and> db_devices (ap_db s') dev = Some d \<and>
    Refresh env (mem_auth getNow' saveNow' deviceNow' js secret ttl) token s' = (Inl ErrInvalidRefreshToken, s')"
proof -
  let ?s = "s\<lparr>ap_db := (ap_db s)\<lparr>db_faults := []\<rparr>, ap_tokens := (ap_tokens s)(h := None)\<rparr>"
  have "Refresh env (mem_auth getNow saveNow deviceNow js secret ttl) token s = (Inl ErrInvalidRefreshToken, ?s)"
    using assms by (simp add: Refresh_def Let_def bindE_def attempt_apply app_mem_tokens_def on_tokens_apply
        get_token_run app_devices_def on_pg_apply pg_GetDeviceByID_def mem_DeleteRefreshToken_def stmt_def)
  moreover have "Refresh env (mem_auth getNow' saveNow' deviceNow' js secret ttl) token ?s =
      (Inl ErrInvalidRefreshToken, ?s)"
    using assms(2) by (simp add: Refresh_def Let_def bindE_def attempt_apply app_mem_tokens_def on_tokens_apply
        get_token_run usable_def)
  ultimately show ?thesis using assms(4) by (intro exI [of _ ?s]) simp
qed

theorem refresh_fault_revokes_witness:
  "\<exists>s'. Refresh ex_auth_env (mem_auth 5 6 7 ex_secret ''key'' 50) ''old'' (token_app [True]) =
      (Inl ErrInvalidRefreshToken, s') \<and>
    Refresh ex_auth_env (mem_auth 8 9 9 ex_secret ''key'' 50) ''old'' s' = (Inl ErrInvalidRefreshToken, s')"
  using refresh_fault_revokes [OF token_app_facts(1) refl token_app_facts(3) [of 5 "[True]"] token_app_facts(2),
      of 7 6 ex_secret "''key''" 50 9 8 9] by auto

section \<open>Who gets in\<close>

definition turned_away :: "reply response \<Rightarrow> bool" where
  "turned_away resp \<longleftrightarrow> (\<exists>st code message. resp = Failure st code message \<and> st \<in> {401, 404, 500})"

lemma middleware_cases:
  assumes "AuthMiddleware lib now js devices header k s = (resp, t)"
  shows "(\<exists>token c d s1. header = bearer @ token \<and> jwt_Parse lib now js token = Inr c \<and>
      ds_GetDeviceByID devices (cl_DeviceID c) s = (Inr d, s1) \<and> k (cl_DeviceID c) s1 = (resp, t)) \<or>
    turned_away resp \<and> (t = s \<or> (\<exists>dev. t = snd (ds_GetDeviceByID devices dev s)))"
proof (cases "take (length bearer) header = bearer")
  case False
  with assms show ?thesis by (auto simp: AuthMiddleware_def answer_def turned_away_def respondError_def)
next
  case True
  then have h: "header = bearer @ drop (length bearer) header" by (metis append_take_drop_id)
  show ?thesis
  proof (cases "jwt_Parse lib now js (drop (length bearer) header)")
    case (Inl e)
    with True assms show ?thesis by (auto simp: AuthMiddleware_def answer_def turned_away_def respondError_def)
  next
    case (Inr c)
    show ?thesis
    proof (cases "ds_GetDeviceByID devices (cl_DeviceID c) s")
      case (Pair res s1)
      have "t = snd (ds_GetDeviceByID devices (cl_DeviceID c) s) \<and> turned_away resp" if "res = Inl e" for e
        using that True Inr Pair assms
        by (auto simp: AuthMiddleware_def turned_away_def respondError_def internal_error_def split: if_splits)
      moreover have "k (cl_DeviceID c) s1 = (resp, t)" if "res = Inr d" for d
        using that True Inr Pair assms by (simp add: AuthMiddleware_def)
      ultimately show ?thesis using h Inr Pair by (cases res) blast+
    qed
  qed
qed

lemma open_routes:
  assumes "route \<in> set (NewRouter env deps)" "rt_handler route = Public h"
  shows "rt_pattern route \<in> {''/ping'', apiV1 @ ''/auth/register'', apiV1 @ ''/auth/refresh''}"
  using assms by (auto simp: NewRouter_def public_route_def sync_routes_def file_routes_def upload_routes_def
      authed_def authed_any_def split: option.splits)

lemma open_fits:
  "fits (segments ''/ping'') (segments path) \<longleftrightarrow> segments path = segments ''/ping''"
  "fits (segments (apiV1 @ ''/auth/register'')) (segments path) \<longleftrightarrow>
     segments path = segments (apiV1 @ ''/auth/register'')"
  "fits (segments (apiV1 @ ''/auth/refresh'')) (segments path) \<longleftrightarrow> segments path = segments (apiV1 @ ''/auth/refresh'')"
  by (cases "segments path"; auto simp: apiV1_def split: list.splits)+

text \<open>
  C17: Apart from the three open paths, a request gets to a handler only with a bearer token that the JWT
  library accepts for the server's secret and of a device that is registered, and the handler is given
  that device; every other request is refused, and all it can have done is to look a device up.
\<close>

theorem only_registered_devices:
  assumes "gin_finds gin" "serve gin env deps r s = (resp, t)"
    and "segments (hr_path r) \<notin> segments ` {''/ping'', apiV1 @ ''/auth/register'', apiV1 @ ''/auth/refresh''}"
  shows "(\<exists>token c d s1 ps h route. hr_header r = bearer @ token \<and>
      jwt_Parse (ae_jwt (he_auth env)) (he_now env) (dp_JWT deps) token = Inr c \<and>
      ds_GetDeviceByID (dp_Devices deps) (cl_DeviceID c) s = (Inr d, s1) \<and>
      route \<in> set (NewRouter env deps) \<and> rt_handler route = Authed h \<and> h r ps (cl_DeviceID c) s1 = (resp, t)) \<or>
    turned_away resp \<and> (t = s \<or> (\<exists>dev. t = snd (ds_GetDeviceByID (dp_Devices deps) dev s)))"
proof -
  let ?table = "NewRouter env deps"
  let ?patterns = "map (\<lambda>t. (rt_methods t, rt_pattern t)) ?table"
  show ?thesis
  proof (cases "gin ?patterns (hr_method r) (hr_path r)")
    case None
    with assms(2) show ?thesis by (auto simp: serve_def Let_def answer_def not_found_def turned_away_def)
  next
    case (Some p)
    obtain i ps where p: "p = (i, ps)" by (cases p)
    with Some assms(1) have i: "i < length ?table" "fits (segments (rt_pattern (?table ! i))) (segments (hr_path r))"
      unfolding gin_finds_def by (force dest: spec)+
    have run: "run_route env deps r ps (?table ! i) s = (resp, t)"
      using assms(2) Some p by (simp add: serve_def Let_def)
    have mem: "?table ! i \<in> set ?table" using i(1) by simp
    show ?thesis
    proof (cases "rt_handler (?table ! i)")
      case (Public h)
      from open_routes [OF mem this] i(2) assms(3) open_fits [of "hr_path r"] show ?thesis by auto
    next
      case (Authed h)
      from run Authed have mw: "AuthMiddleware (ae_jwt (he_auth env)) (he_now env) (dp_JWT deps) (dp_Devices deps)
          (hr_header r) (h r ps) s = (resp, t)" by (simp add: run_route_def)
      from middleware_cases [OF mw] mem Authed show ?thesis by blast
    qed
  qed
qed

text \<open>The first route of the table that fits.\<close>

fun first_fit :: "nat \<Rightarrow> (http_method list \<times> string) list \<Rightarrow> http_method \<Rightarrow> string \<Rightarrow> nat option" where
  "first_fit n [] m path = None"
| "first_fit n (t # ts) m path =
     (if m \<in> set (fst t) \<and> fits (segments (snd t)) (segments path) then Some n else first_fit (Suc n) ts m path)"

definition simple_gin :: gin where
  "simple_gin table m path = map_option (\<lambda>i. (i, \<lambda>_. [])) (first_fit 0 table m path)"

lemma first_fit_finds:
  "first_fit n table m path = Some i \<Longrightarrow> n \<le> i \<and> i - n < length table \<and> m \<in> set (fst (table ! (i - n))) \<and>
     fits (segments (snd (table ! (i - n)))) (segments path)"
proof (induction table arbitrary: n)
  case (Cons t ts)
  then show ?case
    by (force simp: nth_Cons' Suc_diff_Suc split: if_splits dest!: Cons.IH)
qed simp

lemma simple_gin_finds: "gin_finds simple_gin"
  by (force simp: gin_finds_def simple_gin_def dest: first_fit_finds)

definition ex_request :: request where
  "ex_request = \<lparr>hr_method = POST, hr_path = apiV1 @ ''/sync/push'', hr_header = [], hr_query = (\<lambda>_. None),
     hr_form = (\<lambda>_. []), hr_chunk = NoFile, hr_json = None, hr_stream = \<lparr>rd_data = [], rd_fails = False\<rparr>\<rparr>"

theorem only_registered_devices_witness:
  "\<exists>resp t. serve simple_gin (http_env_of \<lparr>re_pg = ex_env, re_scan = id, re_getNow = 0, re_saveNow = 0,
       re_deviceNow = 0, re_sha = id, re_now = 0, re_jwt = ex_jwt, re_bcrypt = (\<lambda>k. Inr k), re_timeString = []\<rparr>)
     \<lparr>dp_Config = initial_config (\<lambda>_. []), dp_Auth = mem_auth 0 0 0 ex_secret ''key'' 50, dp_JWT = ex_secret,
       dp_Devices = app_devices 0, dp_Sync = app_sync ex_env None, dp_Files = None, dp_Upload = None\<rparr>
     ex_request (token_app []) = (resp, t) \<and> turned_away resp"
proof -
  let ?e = "http_env_of \<lparr>re_pg = ex_env, re_scan = id, re_getNow = 0, re_saveNow = 0,
       re_deviceNow = 0, re_sha = id, re_now = 0, re_jwt = ex_jwt, re_bcrypt = (\<lambda>k. Inr k), re_timeString = []\<rparr>"
  let ?d = "\<lparr>dp_Config = initial_config (\<lambda>_. []), dp_Auth = mem_auth 0 0 0 ex_secret ''key'' 50, dp_JWT = ex_secret,
       dp_Devices = app_devices 0, dp_Sync = app_sync ex_env None, dp_Files = None, dp_Upload = None\<rparr>"
  obtain resp t where run: "serve simple_gin ?e ?d ex_request (token_app []) = (resp, t)"
    by (cases "serve simple_gin ?e ?d ex_request (token_app [])")
  have path: "segments (hr_path ex_request) \<notin> segments ` {''/ping'', apiV1 @ ''/auth/register'', apiV1 @ ''/auth/refresh''}"
    by (simp add: ex_request_def apiV1_def)
  have "hr_header ex_request \<noteq> bearer @ token" for token by (simp add: ex_request_def bearer_def)
  with only_registered_devices [OF simple_gin_finds run path] run show ?thesis by blast
qed

end
