(* ===== verification/HttpProps.thy ===== *)
theory HttpProps
  imports AuthProps
begin

text \<open>
  The properties of the HTTP layer: numbers in requests and the bounds of a pull.
\<close>

section \<open>Numbers\<close>

lemma digit_value_digit: "d < 10 \<Longrightarrow> digit_value (digit d) = Some d"
  by (simp add: digit_value_def digit_def of_char_of take_bit_eq_mod)

lemma parse_digits_append:
  "parse_digits acc (xs @ ys) = (case parse_digits acc xs of None \<Rightarrow> None | Some a \<Rightarrow> parse_digits a ys)"
  by (induction xs arbitrary: acc) (auto split: option.split)

lemma parse_digits_itoa: "parse_digits 0 (itoa_nat n) = Some n"
proof (induction n rule: itoa_nat.induct)
  case (1 n)
  show ?case
  proof (cases "n < 10")
    case True
    then show ?thesis by (simp add: itoa_nat.simps [of n] digit_value_digit)
  next
    case False
    with 1 show ?thesis
      by (simp add: itoa_nat.simps [of n] parse_digits_append digit_value_digit)
  qed
qed

lemma itoa_nat_start: "itoa_nat n \<noteq> [] \<and> hd (itoa_nat n) \<noteq> CHR ''-'' \<and> hd (itoa_nat n) \<noteq> CHR ''+''"
proof -
  have ne: "itoa_nat n \<noteq> []" by (simp add: itoa_nat.simps [of n])
  then obtain d where d: "d < 10" "hd (itoa_nat n) = digit d" using itoa_nat_chars [of "hd (itoa_nat n)" n] by auto
  then have "digit_value (hd (itoa_nat n)) = Some d" by (simp add: digit_value_digit)
  moreover have "digit_value (CHR ''-'') = None" "digit_value (CHR ''+'') = None" by (simp_all add: digit_value_def)
  ultimately have "hd (itoa_nat n) \<noteq> CHR ''-''" "hd (itoa_nat n) \<noteq> CHR ''+''" by force+
  with ne show ?thesis by simp
qed

lemma ParseInt_itoa: "ParseInt (itoa i) = (if in_int64 i then Some i else None)"
proof (cases "i < 0")
  case True
  then show ?thesis
    using itoa_nat_start [of "nat (- i)"] by (simp add: ParseInt_def itoa_def parse_digits_itoa Let_def)
next
  case False
  then show ?thesis
    using itoa_nat_start [of "nat i"] by (simp add: ParseInt_def itoa_def parse_digits_itoa Let_def)
qed

section \<open>A pull\<close>

text \<open>
  C37: Whatever stands in the query of a pull, the service is only ever called with a cursor that is not
  negative and fits 64 bits and a limit between 1 and 1000, or the answer is 422 and nothing is done; and
  two numbers reach the service as they are, a limit above 1000 as 1000, exactly when they are in these
  bounds and fit 64 bits.
\<close>

theorem pull_bounds:
  "((\<exists>c l. 0 \<le> c \<and> c < 2 ^ 63 \<and> 1 \<le> l \<and> l \<le> 1000 \<and>
       PullHandler svc dev cursorQ limitQ s =
       respond (Pull svc dev c l) (\<lambda>_. internal_error) (\<lambda>r. Reply 200 (RPull r)) s) \<or>
    (\<exists>m. PullHandler svc dev cursorQ limitQ s = (Failure 422 ''validation_error'' m, s))) \<and>
   PullHandler svc dev (Some (itoa cursor)) (Some (itoa limit)) s =
     (if cursor < 0 \<or> 2 ^ 63 \<le> cursor then (Failure 422 ''validation_error'' ''invalid cursor'', s)
      else if limit < 1 \<or> 2 ^ 63 \<le> limit then (Failure 422 ''validation_error'' ''invalid limit'', s)
      else respond (Pull svc dev cursor (min limit 1000)) (\<lambda>_. internal_error) (\<lambda>r. Reply 200 (RPull r)) s)"
proof (rule conjI)
  have range: "ParseInt q = Some i \<Longrightarrow> i < 2 ^ 63" for q i
    by (auto simp: ParseInt_def Let_def in_int64_def split: option.splits if_splits)
  show "(\<exists>c l. 0 \<le> c \<and> c < 2 ^ 63 \<and> 1 \<le> l \<and> l \<le> 1000 \<and>
       PullHandler svc dev cursorQ limitQ s =
       respond (Pull svc dev c l) (\<lambda>_. internal_error) (\<lambda>r. Reply 200 (RPull r)) s) \<or>
    (\<exists>m. PullHandler svc dev cursorQ limitQ s = (Failure 422 ''validation_error'' m, s))"
  proof (cases "ParseInt (query_or ''0'' cursorQ)")
    case None
    then show ?thesis by (simp add: PullHandler_def answer_def validation_error_def respondError_def)
  next
    case (Some c)
    show ?thesis
    proof (cases "ParseInt (query_or ''500'' limitQ)")
      case None
      with Some show ?thesis by (auto simp: PullHandler_def answer_def validation_error_def respondError_def)
    next
      case l: (Some l)
      show ?thesis
      proof (cases "c < 0 \<or> l < 1")
        case True
        with Some l show ?thesis by (auto simp: PullHandler_def answer_def validation_error_def respondError_def)
      next
        case False
        with Some l range [OF Some] show ?thesis
          by (intro disjI1 exI [of _ c] exI [of _ "if l > 1000 then 1000 else l"]) (simp add: PullHandler_def)
      qed
    qed
  qed
next
  show "PullHandler svc dev (Some (itoa cursor)) (Some (itoa limit)) s =
     (if cursor < 0 \<or> 2 ^ 63 \<le> cursor then (Failure 422 ''validation_error'' ''invalid cursor'', s)
      else if limit < 1 \<or> 2 ^ 63 \<le> limit then (Failure 422 ''validation_error'' ''invalid limit'', s)
      else respond (Pull svc dev cursor (min limit 1000)) (\<lambda>_. internal_error) (\<lambda>r. Reply 200 (RPull r)) s)"
    by (auto simp: PullHandler_def query_or_def ParseInt_itoa in_int64_def answer_def validation_error_def
        respondError_def min_def)
qed

end
