(* ===== verification/Lifecycle.thy ===== *)
theory Lifecycle
  imports App
begin

text \<open>
  The server process of \<open>cmd/server/main.go\<close>: start-up, the listener in its goroutine, the signal and the
  shutdown.  What is used of \<open>net/http\<close>: \<open>ListenAndServe\<close> accepts requests until it fails or \<open>Shutdown\<close> is
  called; \<open>Shutdown\<close> accepts no more and returns when no request is in flight, or at its deadline with an
  error.  \<open>work\<close> is what a handler does to the state while its request is in flight.
\<close>

datatype phase = Serving | ShuttingDown | Exited nat

record 'x process =
  pc_phase :: phase
  pc_app :: "'x app"
  pc_inflight :: nat
  pc_pool_closed :: bool

text \<open>\<open>log.Fatalf\<close> exits with status 1; when \<open>run\<close> has returned its deferred \<open>Close\<close> has run before.\<close>

definition start :: "'x outside \<Rightarrow> 'x app \<Rightarrow> 'x process" where
  "start out s =
     (case run out s of
        (Inl e, t) \<Rightarrow> \<lparr>pc_phase = Exited 1, pc_app = t, pc_inflight = 0, pc_pool_closed = True\<rparr>
      | (Inr deps, t) \<Rightarrow> \<lparr>pc_phase = Serving, pc_app = t, pc_inflight = 0, pc_pool_closed = False\<rparr>)"

definition alive :: "'x process \<Rightarrow> bool" where
  "alive p \<longleftrightarrow> pc_phase p = Serving \<or> pc_phase p = ShuttingDown"

definition exits :: "nat \<Rightarrow> bool \<Rightarrow> 'x process \<Rightarrow> 'x process" where
  "exits status deferred p = p\<lparr>pc_phase := Exited status, pc_pool_closed := deferred\<rparr>"

inductive life :: "('x app \<Rightarrow> 'x app \<Rightarrow> bool) \<Rightarrow> 'x process \<Rightarrow> 'x process \<Rightarrow> bool" for work where
  accept: "pc_phase p = Serving \<Longrightarrow> life work p (p\<lparr>pc_inflight := pc_inflight p + 1\<rparr>)"
| handle: "alive p \<Longrightarrow> 0 < pc_inflight p \<Longrightarrow> work (pc_app p) a \<Longrightarrow> life work p (p\<lparr>pc_app := a\<rparr>)"
| respond: "alive p \<Longrightarrow> 0 < pc_inflight p \<Longrightarrow> life work p (p\<lparr>pc_inflight := pc_inflight p - 1\<rparr>)"
| listen_fails: "pc_phase p = Serving \<Longrightarrow> life work p (exits 1 False p)"
| interrupt: "pc_phase p = Serving \<Longrightarrow> life work p (p\<lparr>pc_phase := ShuttingDown\<rparr>)"
| drained: "pc_phase p = ShuttingDown \<Longrightarrow> pc_inflight p = 0 \<Longrightarrow> life work p (exits 0 True p)"
| deadline: "pc_phase p = ShuttingDown \<Longrightarrow> 0 < pc_inflight p \<Longrightarrow> life work p (exits 1 True p)"

inductive_cases lifeE: "life work p q"

section \<open>What an exit status tells\<close>

definition life_ok :: "'x process \<Rightarrow> bool" where
  "life_ok p \<longleftrightarrow> (pc_phase p = Exited 0 \<longrightarrow> pc_inflight p = 0 \<and> pc_pool_closed p) \<and> (alive p \<longrightarrow> \<not> pc_pool_closed p)"

lemma life_ok_start: "life_ok (start out s)"
  by (auto simp: life_ok_def start_def alive_def split: prod.split sum.split)

lemma life_ok_step: "life work p q \<Longrightarrow> life_ok p \<Longrightarrow> life_ok q"
  by (induction rule: life.induct) (auto simp: life_ok_def alive_def exits_def)

lemma life_ok_steps: "(life work)\<^sup>*\<^sup>* p q \<Longrightarrow> life_ok p \<Longrightarrow> life_ok q"
  by (induction rule: rtranclp_induct) (auto intro: life_ok_step)

lemma life_over: "life work p q \<Longrightarrow> pc_phase p \<noteq> Exited n"
  by (auto simp: alive_def elim: lifeE)

lemma life_drains:
  "pc_phase p = ShuttingDown \<Longrightarrow> (life work)\<^sup>*\<^sup>* p (exits 0 True (p\<lparr>pc_inflight := 0\<rparr>))"
proof (induction "pc_inflight p" arbitrary: p)
  case 0
  then have "life work p (exits 0 True p)" by (intro drained) simp_all
  moreover have "p\<lparr>pc_inflight := 0\<rparr> = p" using 0 by (cases p) simp
  ultimately show ?case by (simp add: r_into_rtranclp)
next
  case (Suc n)
  let ?q = "p\<lparr>pc_inflight := pc_inflight p - 1\<rparr>"
  have "life work p ?q" using Suc by (intro respond) (simp_all add: alive_def)
  moreover have "(life work)\<^sup>*\<^sup>* ?q (exits 0 True (?q\<lparr>pc_inflight := 0\<rparr>))"
    using Suc.prems Suc.hyps(2) [symmetric] by (intro Suc.hyps(1)) simp_all
  ultimately show ?case by (simp add: converse_rtranclp_into_rtranclp)
qed

text \<open>
  The process stops with status 0 only after its start-up succeeded, with every request it accepted
  answered and the connection pool closed; nothing happens after it has stopped; and once it is told to
  stop it can still answer all that is in flight and stop with status 0.
\<close>

theorem graceful_stop:
  assumes "(life work)\<^sup>*\<^sup>* (start out s) p"
  shows "(pc_phase p = Exited 0 \<longrightarrow> (\<exists>deps t. run out s = (Inr deps, t)) \<and> pc_inflight p = 0 \<and> pc_pool_closed p) \<and>
    (\<forall>n q. pc_phase p = Exited n \<longrightarrow> \<not> life work p q) \<and>
    (pc_phase p = ShuttingDown \<longrightarrow> (life work)\<^sup>*\<^sup>* p (exits 0 True (p\<lparr>pc_inflight := 0\<rparr>)))"
proof (intro conjI impI allI)
  have ok: "life_ok p" using life_ok_steps [OF assms life_ok_start] .
  show "pc_inflight p = 0" "pc_pool_closed p" if "pc_phase p = Exited 0"
    using ok that by (simp_all add: life_ok_def)
  show "\<exists>deps t. run out s = (Inr deps, t)" if "pc_phase p = Exited 0"
  proof (rule ccontr)
    assume "\<not> ?thesis"
    then have "pc_phase (start out s) = Exited 1"
      by (cases "run out s"; cases "fst (run out s)") (auto simp: start_def)
    with assms have "p = start out s" using life_over by (metis converse_rtranclpE)
    with \<open>pc_phase (start out s) = Exited 1\<close> that show False by simp
  qed
  show "\<not> life work p q" if "pc_phase p = Exited n" for n q using life_over that by blast
  show "(life work)\<^sup>*\<^sup>* p (exits 0 True (p\<lparr>pc_inflight := 0\<rparr>))" if "pc_phase p = ShuttingDown"
    using that by (rule life_drains)
qed

end
